(* ===== verification/Prelude.thy ===== *)
theory Prelude
  imports Complex_Main "HOL-Library.AList" "HOL-Library.Multiset" "HOL-Library.Word"
    "HOL-Library.Product_Lexorder"
begin

text \<open>
  What every component of the development shares: the names of the model's basic types, Python
  dictionaries as association lists, the reading of a flat sequence of \<open>if ...: raise\<close> checks, and
  the facts about ordered and limited scans that the fetch query and the in-memory client rest on.

  A Python float is a rational number and a clock reading or a duration is a rational number of
  seconds: arithmetic is exact, so rounding of floats and of microseconds is not modelled. A
  \<open>str\<close> is a list of characters, or of code points where characters outside Latin-1 matter, and \<open>bytes\<close> a list of 8-bit words.
\<close>

section \<open>Types\<close>

type_synonym time = rat
type_synonym bytes = "8 word list"
type_synonym token = nat
type_synonym py_text = "nat list"
type_synonym headers = "(string \<times> string) list"

section \<open>Exceptions\<close>

text \<open>
  The \<open>except\<close> clauses of the package tell exceptions apart by class only: its own configuration
  error, the two that ask a subscriber to stop, cancellation (a \<open>BaseException\<close> that no
  \<open>except Exception\<close> catches), timeouts, and everything else. Beyond that the code reads the name of
  the exception's type and its \<open>repr\<close>.
\<close>

datatype exn_class = PlainError | OutboxConfigError | StopConsume | SystemExit | CancelledError
  | TimeoutError

record exn =
  exn_kind :: exn_class
  exn_name :: string
  exn_repr :: py_text

text \<open>\<open>isinstance(e, Exception)\<close>: \<open>SystemExit\<close> and \<open>CancelledError\<close> derive from \<open>BaseException\<close> directly.\<close>

definition is_exception :: "exn \<Rightarrow> bool" where
  "is_exception e \<longleftrightarrow> exn_kind e \<noteq> SystemExit \<and> exn_kind e \<noteq> CancelledError"

text \<open>An exception of class \<open>name\<close> raised with one message; \<open>repr\<close> shows the message in quotes.\<close>

definition code_points :: "string \<Rightarrow> py_text" where
  "code_points s = map of_char s"

definition py_exn :: "string \<Rightarrow> string \<Rightarrow> exn" where
  "py_exn name msg = \<lparr>exn_kind = PlainError, exn_name = name,
     exn_repr = code_points name @ [40, 39] @ code_points msg @ [39, 41]\<rparr>"

lemma is_exception_py_exn [simp]: "is_exception (py_exn name msg)"
  by (simp add: is_exception_def py_exn_def)

section \<open>Collections of simplification rules\<close>

named_theorems dict_simps \<open>reading and writing dictionaries\<close>
named_theorems table_simps \<open>rows of the table after an operation\<close>
named_theorems wf_intros \<open>operations keep the table well formed\<close>

section \<open>Dictionaries\<close>

text \<open>
  A dictionary keeps the order of insertion; assigning to a key that is present replaces its value
  in place, a new key goes to the end. That is what \<open>AList.update\<close> does.
\<close>

abbreviation dict_get :: "('k \<times> 'v) list \<Rightarrow> 'k \<Rightarrow> 'v option" where
  "dict_get d k \<equiv> map_of d k"

abbreviation dict_has :: "('k \<times> 'v) list \<Rightarrow> 'k \<Rightarrow> bool" where
  "dict_has d k \<equiv> map_of d k \<noteq> None"

definition dict_set :: "'k \<Rightarrow> 'v \<Rightarrow> ('k \<times> 'v) list \<Rightarrow> ('k \<times> 'v) list" where
  "dict_set k v d = AList.update k v d"

definition dict_pop :: "'k \<Rightarrow> ('k \<times> 'v) list \<Rightarrow> ('k \<times> 'v) list" where
  "dict_pop k d = AList.delete k d"

text \<open>\<open>{**a, **b}\<close>: the entries of \<open>b\<close> are assigned one after the other to a copy of \<open>a\<close>.\<close>

fun dict_merge :: "('k \<times> 'v) list \<Rightarrow> ('k \<times> 'v) list \<Rightarrow> ('k \<times> 'v) list" where
  "dict_merge a [] = a"
| "dict_merge a ((k, v) # b) = dict_merge (dict_set k v a) b"

definition dict_get_default :: "('k \<times> 'v) list \<Rightarrow> 'k \<Rightarrow> 'v \<Rightarrow> 'v" where
  "dict_get_default d k v = (case dict_get d k of None \<Rightarrow> v | Some w \<Rightarrow> w)"

lemma dict_get_set [simp, dict_simps]:
  "dict_get (dict_set k v d) j = (if j = k then Some v else dict_get d j)"
  by (simp add: dict_set_def update_conv')

lemma dict_get_pop [simp, dict_simps]:
  "dict_get (dict_pop k d) j = (if j = k then None else dict_get d j)"
  by (simp add: dict_pop_def delete_conv')

lemma dict_set_nonempty [simp]: "dict_set k v d \<noteq> []"
  by (simp add: dict_set_def)

lemma distinct_dict_set [simp]:
  "distinct (map fst d) \<Longrightarrow> distinct (map fst (dict_set k v d))"
  by (simp add: dict_set_def distinct_update)

lemma dict_get_merge:
  "distinct (map fst b) \<Longrightarrow>
   dict_get (dict_merge a b) k = (case dict_get b k of Some v \<Rightarrow> Some v | None \<Rightarrow> dict_get a k)"
proof (induction a b rule: dict_merge.induct)
  case (2 a k' v b)
  then have "k' \<notin> fst ` set b" by simp
  then have "map_of b k' = None" by (simp add: map_of_eq_None_iff)
  with 2 show ?case by (auto split: option.splits)
qed simp

section \<open>Sequences of checks\<close>

text \<open>
  A function that begins with \<open>if c1: raise e1\<close>, \<open>if c2: raise e2\<close>, ... raises for the first
  condition that holds. Each entry is the condition and the exception.
\<close>

fun first_error :: "(bool \<times> 'e) list \<Rightarrow> 'e option" where
  "first_error [] = None"
| "first_error ((c, e) # cs) = (if c then Some e else first_error cs)"

lemma first_error_None: "first_error cs = None \<longleftrightarrow> (\<forall>(c, e) \<in> set cs. \<not> c)"
  by (induction cs rule: first_error.induct) auto

lemma first_error_Some: "first_error cs = Some e \<Longrightarrow> (True, e) \<in> set cs"
  by (induction cs rule: first_error.induct) (auto split: if_splits)

lemma first_error_append:
  "first_error (cs @ ds) = (case first_error cs of None \<Rightarrow> first_error ds | Some e \<Rightarrow> Some e)"
  by (induction cs rule: first_error.induct) auto

section \<open>Ordered, limited scans\<close>

text \<open>
  \<open>ORDER BY k LIMIT n\<close> over a list of rows. Scanning the parts of a table separately, each with the
  limit, and then ordering and limiting the union gives the same rows: nothing beyond the first
  \<open>n\<close> of a part can be among the first \<open>n\<close> of the whole.
\<close>

definition top_by :: "('a \<Rightarrow> 'k::linorder) \<Rightarrow> nat \<Rightarrow> 'a list \<Rightarrow> 'a list" where
  "top_by k n xs = take n (sort_key k xs)"

lemma take_insort_key_take:
  "take n (insort_key k x (take n ys)) = take n (insort_key k x ys)"
proof (induction ys arbitrary: n)
  case (Cons y ys)
  show ?case
  proof (cases n)
    case (Suc m)
    have "take m (take m ys) = take m ys" by simp
    moreover have "take m (y # take m ys) = take m (y # ys)" by (cases m) simp_all
    ultimately show ?thesis using Suc Cons.IH [of m] by simp
  qed simp
qed simp

lemma take_foldr_insort_key_take:
  "take n (foldr (insort_key k) xs (take n ys)) = take n (foldr (insort_key k) xs ys)"
proof (induction xs)
  case (Cons x xs)
  have "take n (insort_key k x (foldr (insort_key k) xs (take n ys)))
      = take n (insort_key k x (take n (foldr (insort_key k) xs (take n ys))))"
    by (simp only: take_insort_key_take)
  also have "\<dots> = take n (insort_key k x (foldr (insort_key k) xs ys))"
    by (simp only: Cons.IH take_insort_key_take)
  finally show ?case by simp
qed simp

lemma sort_key_append_foldr: "sort_key k (xs @ ys) = foldr (insort_key k) xs (sort_key k ys)"
  by (simp add: sort_key_def)

lemma sort_key_top_by: "sort_key k (top_by k n xs) = top_by k n xs"
  unfolding top_by_def by (rule sort_key_id_if_sorted) (simp add: take_map [symmetric] sorted_wrt_take)

lemma top_by_append_right: "top_by k n (xs @ top_by k n ys) = top_by k n (xs @ ys)"
proof -
  have "top_by k n (xs @ top_by k n ys) = take n (foldr (insort_key k) xs (top_by k n ys))"
    by (simp only: top_by_def [of k n "xs @ _"] sort_key_append_foldr sort_key_top_by)
  also have "\<dots> = take n (foldr (insort_key k) xs (sort_key k ys))"
    by (simp only: top_by_def take_foldr_insort_key_take)
  finally show ?thesis by (simp only: top_by_def sort_key_append_foldr)
qed

text \<open>With keys that tell the elements apart, the order of the input does not matter.\<close>

lemma sort_key_mset_cong:
  assumes "mset xs = mset ys" and "inj_on k (set ys)"
  shows "sort_key k xs = sort_key k ys"
proof (rule properties_for_sort_key)
  show "mset (sort_key k ys) = mset xs" using assms(1) by simp
  show "sorted (map k (sort_key k ys))" by simp
  have set_eq: "set xs = set ys" using assms(1) by (rule mset_eq_setD)
  fix a assume "a \<in> set (sort_key k ys)"
  then have a: "a \<in> set ys" by simp
  have only_a: "filter (\<lambda>x. k a = k x) zs = replicate (count (mset zs) a) a" if "set zs \<subseteq> set ys" for zs
  proof -
    have "(k a = k x) = (a = x)" if "x \<in> set zs" for x
      using that \<open>set zs \<subseteq> set ys\<close> a inj_on_eq_iff [OF assms(2), of a x] by blast
    then have "filter (\<lambda>x. k a = k x) zs = filter ((=) a) zs" by (rule filter_cong [OF refl])
    then show ?thesis by (simp only: replicate_count_mset_eq_filter_eq)
  qed
  show "filter (\<lambda>x. k a = k x) (sort_key k ys) = filter (\<lambda>x. k a = k x) xs"
  proof -
    have "filter (\<lambda>x. k a = k x) (sort_key k ys) = replicate (count (mset ys) a) a"
      using only_a [of "sort_key k ys"] by simp
    moreover have "filter (\<lambda>x. k a = k x) xs = replicate (count (mset xs) a) a"
      by (rule only_a) (simp add: set_eq)
    ultimately show ?thesis by (simp only: assms(1))
  qed
qed

lemma top_by_mset_cong:
  "mset xs = mset ys \<Longrightarrow> inj_on k (set ys) \<Longrightarrow> top_by k n xs = top_by k n ys"
  unfolding top_by_def using sort_key_mset_cong [of xs ys k] by simp

lemma set_top_by: "set (top_by k n xs) \<subseteq> set xs"
  by (auto simp: top_by_def dest: in_set_takeD)

lemma length_top_by: "length (top_by k n xs) = min (length xs) n"
  by (simp add: top_by_def)

lemma sorted_top_by: "sorted (map k (top_by k n xs))"
  by (simp add: top_by_def take_map [symmetric] sorted_wrt_take)

lemma distinct_top_by: "distinct xs \<Longrightarrow> distinct (top_by k n xs)"
  by (simp add: top_by_def)

lemma distinct_map_top_by: "distinct (map f xs) \<Longrightarrow> distinct (map f (top_by k n xs))"
proof -
  assume "distinct (map f xs)"
  then have "distinct (map f (sort_key k xs))" by (simp add: distinct_map)
  then show ?thesis unfolding top_by_def take_map [symmetric] by (rule distinct_take)
qed

text \<open>What is left out of the first \<open>n\<close> comes later in the order.\<close>

lemma top_by_least:
  assumes "x \<in> set (top_by k n xs)" and "y \<in> set xs" and "y \<notin> set (top_by k n xs)"
  shows "k x \<le> k y"
proof -
  let ?s = "sort_key k xs"
  have "y \<in> set (drop n ?s)"
    using assms(2,3) by (metis UnE append_take_drop_id set_append set_sort top_by_def)
  moreover have "sorted (map k (take n ?s @ drop n ?s))" by simp
  ultimately show ?thesis
    using assms(1) unfolding top_by_def map_append sorted_append by simp
qed

lemma top_by_all: "length xs \<le> n \<Longrightarrow> set (top_by k n xs) = set xs"
  by (simp add: top_by_def)

lemma top_by_full: "y \<in> set xs \<Longrightarrow> y \<notin> set (top_by k n xs) \<Longrightarrow> length (top_by k n xs) = n"
  using top_by_all [of xs n k] by (cases "length xs \<le> n") (auto simp: length_top_by)

text \<open>The union of limited scans, one per part.\<close>

lemma top_by_concat_map:
  assumes "inj_on k (set (concat (map f qs)))" and "distinct (concat (map f qs))"
  shows "top_by k n (concat (map (\<lambda>q. top_by k n (f q)) qs)) = top_by k n (concat (map f qs))"
  using assms
proof (induction qs)
  case (Cons q qs)
  let ?rest = "concat (map f qs)" and ?lim = "concat (map (\<lambda>q. top_by k n (f q)) qs)"
  have inj: "inj_on k (set (f q @ ?rest))" using Cons.prems(1) by simp
  have IH: "top_by k n ?lim = top_by k n ?rest"
    using Cons.prems by (intro Cons.IH) (auto intro: inj_on_subset)
  have sub: "set ?lim \<subseteq> set ?rest" using set_top_by [of k n] by fastforce
  have "top_by k n (top_by k n (f q) @ ?lim) = top_by k n (top_by k n (f q) @ ?rest)"
    by (metis IH top_by_append_right)
  also have "\<dots> = top_by k n (?rest @ top_by k n (f q))"
    using set_top_by [of k n "f q"] inj
    by (intro top_by_mset_cong) (auto intro: inj_on_subset)
  also have "\<dots> = top_by k n (?rest @ f q)" by (rule top_by_append_right)
  also have "\<dots> = top_by k n (f q @ ?rest)" using inj by (intro top_by_mset_cong) auto
  finally show ?case by simp
qed simp

end
