(* ===== verification/Schema.thy ===== *)
theory Schema
  imports Prelude
begin

text \<open>
  The tables of \<open>faststream_outbox/schema.py\<close>: the columns of the outbox table and of the
  dead-letter table as records, the CHECK on the lease and the partial unique index on timers as
  predicates on rows, the projection that archives a row, and the guard on identifiers derived from
  a table's name.
\<close>

section \<open>The outbox table\<close>

text \<open>One field per column of \<open>make_outbox_table\<close>; a nullable column is an option.\<close>

record outbox_row =
  row_id :: nat
  queue :: string
  payload :: bytes
  headers :: "headers option"
  attempts_count :: int
  deliveries_count :: int
  created_at :: time
  next_attempt_at :: time
  first_attempt_at :: "time option"
  last_attempt_at :: "time option"
  acquired_at :: "time option"
  acquired_token :: "token option"
  timer_id :: "string option"

text \<open>The CHECK \<open>(acquired_token IS NULL) = (acquired_at IS NULL)\<close>: a lease is fully set or fully unset.\<close>

definition lease_ck :: "'a outbox_row_scheme \<Rightarrow> bool" where
  "lease_ck r \<longleftrightarrow> (acquired_token r = None) = (acquired_at r = None)"

text \<open>The key of the partial unique index \<open><table>_timer_id_uq\<close>: absent where \<open>timer_id\<close> is NULL.\<close>

definition timer_key :: "'a outbox_row_scheme \<Rightarrow> (string \<times> string) option" where
  "timer_key r = (case timer_id r of None \<Rightarrow> None | Some t \<Rightarrow> Some (queue r, t))"

definition timer_uq :: "outbox_row list \<Rightarrow> bool" where
  "timer_uq rs \<longleftrightarrow> distinct (List.map_filter timer_key rs)"

text \<open>What Postgres enforces of a table's contents: the primary key, the CHECK and the unique index.\<close>

definition wf_rows :: "outbox_row list \<Rightarrow> bool" where
  "wf_rows rs \<longleftrightarrow> distinct (map row_id rs) \<and> (\<forall>r \<in> set rs. lease_ck r) \<and> timer_uq rs"

text \<open>The two indexes behind the fetch order \<open>rows\<close> by this key.\<close>

definition fetch_key :: "'a outbox_row_scheme \<Rightarrow> time \<times> nat" where
  "fetch_key r = (next_attempt_at r, row_id r)"

lemma inj_fetch_key: "distinct (map row_id rs) \<Longrightarrow> inj_on fetch_key (set rs)"
  by (auto simp: inj_on_def fetch_key_def distinct_map)

lemma inj_row_id: "wf_rows rs \<Longrightarrow> r \<in> set rs \<Longrightarrow> s \<in> set rs \<Longrightarrow> row_id r = row_id s \<Longrightarrow> r = s"
  by (auto simp: wf_rows_def distinct_map inj_on_def)

subsection \<open>Keeping a table well formed\<close>

lemma timer_uq_Cons [simp]: "timer_uq (r # rs) \<longleftrightarrow>
    timer_uq rs \<and> (timer_key r = None \<or> timer_key r \<notin> timer_key ` set rs)"
proof -
  have "x \<in> set (List.map_filter timer_key rs) \<longleftrightarrow> Some x \<in> timer_key ` set rs" for x
    by (induction rs) (auto simp: map_filter_simps split: option.splits)
  then show ?thesis by (auto simp: timer_uq_def map_filter_simps split: option.splits)
qed

lemma timer_uq_Nil [simp]: "timer_uq []"
  by (simp add: timer_uq_def map_filter_simps)

lemma wf_rows_Nil [simp]: "wf_rows []"
  by (simp add: wf_rows_def)

lemma wf_rows_Cons: "wf_rows (r # rs) \<longleftrightarrow> wf_rows rs \<and> row_id r \<notin> row_id ` set rs \<and>
    lease_ck r \<and> (timer_key r = None \<or> timer_key r \<notin> timer_key ` set rs)"
  by (auto simp: wf_rows_def)

lemma wf_rows_filter [wf_intros]: "wf_rows rs \<Longrightarrow> wf_rows (filter P rs)"
  by (induction rs) (auto simp: wf_rows_Cons)

lemma wf_rows_map [wf_intros]:
  assumes "wf_rows rs" and "\<And>r. r \<in> set rs \<Longrightarrow>
    row_id (f r) = row_id r \<and> timer_key (f r) = timer_key r \<and> (lease_ck r \<longrightarrow> lease_ck (f r))"
  shows "wf_rows (map f rs)"
  using assms by (induction rs) (force simp: wf_rows_Cons)+

lemma timer_uq_append: "timer_uq (rs @ [r]) \<longleftrightarrow>
    timer_uq rs \<and> (timer_key r = None \<or> timer_key r \<notin> timer_key ` set rs)"
  by (induction rs) auto

lemma wf_rows_append [wf_intros]:
  "wf_rows rs \<Longrightarrow> row_id r \<notin> row_id ` set rs \<Longrightarrow> lease_ck r \<Longrightarrow>
     timer_key r = None \<or> timer_key r \<notin> timer_key ` set rs \<Longrightarrow> wf_rows (rs @ [r])"
  by (auto simp: wf_rows_def timer_uq_append)

section \<open>The dead-letter table\<close>

record dlq_row =
  original_id :: nat
  dlq_queue :: string
  dlq_payload :: bytes
  dlq_headers :: "headers option"
  dlq_deliveries_count :: int
  dlq_created_at :: time
  dlq_timer_id :: "string option"
  failed_at :: time
  failure_reason :: string
  dlq_last_exception :: "py_text option"

text \<open>The failure context the caller injects: \<open>_DLQ_INJECTED_COLUMNS\<close>.\<close>

record dlq_injected =
  inj_failure_reason :: string
  inj_last_exception :: "py_text option"

text \<open>
  The archive row: the columns of \<open>_DLQ_PROJECTION\<close> copied from the outbox row, the injected
  columns, and \<open>failed_at\<close> from the column's server default.
\<close>

definition dlq_archive :: "time \<Rightarrow> dlq_injected \<Rightarrow> 'a outbox_row_scheme \<Rightarrow> dlq_row" where
  "dlq_archive now ctx r =
     \<lparr>original_id = row_id r, dlq_queue = queue r, dlq_payload = payload r, dlq_headers = headers r,
      dlq_deliveries_count = deliveries_count r, dlq_created_at = created_at r,
      dlq_timer_id = timer_id r, failed_at = now, failure_reason = inj_failure_reason ctx,
      dlq_last_exception = inj_last_exception ctx\<rparr>"

section \<open>Identifiers derived from the table name\<close>

text \<open>
  The guard counts bytes of the UTF-8 encoding, so here a name is a list of code points. The five
  derived identifiers are the NOTIFY channel and the names of the indexes and of the CHECK.
\<close>

definition postgres_ident_max_bytes :: nat where
  "postgres_ident_max_bytes = 63"

definition utf8_char :: "nat \<Rightarrow> bytes" where
  "utf8_char c =
     (if c < 128 then [of_nat c]
      else if c < 2048 then [of_nat (192 + c div 64), of_nat (128 + c mod 64)]
      else if c < 65536 then
        [of_nat (224 + c div 4096), of_nat (128 + c div 64 mod 64), of_nat (128 + c mod 64)]
      else
        [of_nat (240 + c div 262144), of_nat (128 + c div 4096 mod 64),
         of_nat (128 + c div 64 mod 64), of_nat (128 + c mod 64)])"

definition utf8 :: "nat list \<Rightarrow> bytes" where
  "utf8 cs = concat (map utf8_char cs)"

definition channel_prefix :: "nat list" where
  "channel_prefix = code_points ''outbox_''"

definition derived_identifiers :: "nat list \<Rightarrow> bytes list" where
  "derived_identifiers t = map utf8
     [channel_prefix @ t, t @ code_points ''_pending_idx'', t @ code_points ''_timer_id_uq'',
      t @ code_points ''_leased_idx'', t @ code_points ''_lease_ck'']"

text \<open>\<open>max(derived, key=len)\<close>: the first of the longest.\<close>

fun longest :: "'a list list \<Rightarrow> 'a list" where
  "longest [] = []"
| "longest [x] = x"
| "longest (x # y # ys) = (if length x < length y then longest (y # ys) else longest (x # ys))"

text \<open>\<open>Some n\<close> is the \<open>ValueError\<close> that reports an identifier of \<open>n\<close> bytes.\<close>

definition validate_table_identifiers :: "nat list \<Rightarrow> nat option" where
  "validate_table_identifiers t =
     (let l = longest (derived_identifiers t)
      in if length l > postgres_ident_max_bytes then Some (length l) else None)"

lemma length_longest: "length (longest (x # xs)) = foldl max (length x) (map length xs)"
  by (induction xs arbitrary: x) (simp_all add: max_def)

lemma utf8_append [simp]: "utf8 (a @ b) = utf8 a @ utf8 b"
  by (simp add: utf8_def)

lemma length_utf8_ascii: "(\<forall>c \<in> set cs. c < 128) \<Longrightarrow> length (utf8 cs) = length cs"
  by (induction cs) (auto simp: utf8_def utf8_char_def)

lemma length_suffixes:
  "length (utf8 channel_prefix) = 7"
  "length (utf8 (code_points ''_pending_idx'')) = 12"
  "length (utf8 (code_points ''_timer_id_uq'')) = 12"
  "length (utf8 (code_points ''_leased_idx'')) = 11"
  "length (utf8 (code_points ''_lease_ck'')) = 9"
  by (simp_all add: length_utf8_ascii channel_prefix_def code_points_def)

lemma length_longest_derived: "length (longest (derived_identifiers t)) = length (utf8 t) + 12"
  by (simp add: derived_identifiers_def length_longest length_suffixes del: longest.simps)

text \<open>
  The identifier guard lets a table name through exactly when its UTF-8 encoding has at
  most 51 bytes (bytes, not characters), and then each of the five derived identifiers fits in
  Postgres' 63 bytes.
\<close>

theorem table_identifiers_guard:
  "(validate_table_identifiers t = None \<longleftrightarrow> length (utf8 t) \<le> 51) \<and>
   (validate_table_identifiers t = None \<longleftrightarrow>
      list_all (\<lambda>i. length i \<le> postgres_ident_max_bytes) (derived_identifiers t))"
  by (auto simp: validate_table_identifiers_def Let_def length_longest_derived
      postgres_ident_max_bytes_def derived_identifiers_def length_suffixes)

end
