(* ===== verification/Scheduling.thy ===== *)
theory Scheduling
  imports Prelude
begin

text \<open>
  \<open>faststream_outbox/_scheduling.py\<close>: turning \<open>activate_in\<close> / \<open>activate_at\<close> into one
  \<open>next_attempt_at\<close> on the client's clock, and deciding whether a row is future-dated. A timedelta
  is a number of seconds. The datetimes that reach these functions are timezone-aware: the publish
  command's constructor has rejected the others.
\<close>

definition is_future_dated :: "rat option \<Rightarrow> time option \<Rightarrow> time \<Rightarrow> bool" where
  "is_future_dated activate_in activate_at now =
     (case activate_in of
        Some d \<Rightarrow> d > 0
      | None \<Rightarrow> (case activate_at of Some t \<Rightarrow> t > now | None \<Rightarrow> False))"

definition resolve_next_attempt_client_side ::
    "rat option \<Rightarrow> time option \<Rightarrow> time \<Rightarrow> time option" where
  "resolve_next_attempt_client_side activate_in activate_at now =
     (case activate_in of Some d \<Rightarrow> Some (now + d) | None \<Rightarrow> activate_at)"

text \<open>
  The two agree: a row is future-dated exactly when the resolved time, if any, lies after \<open>now\<close>. So a
  NOTIFY is skipped only for a row that no fetch at \<open>now\<close> could claim.
\<close>

lemma is_future_dated_resolve:
  "is_future_dated ai aa now \<longleftrightarrow>
     (\<exists>t. resolve_next_attempt_client_side ai aa now = Some t \<and> now < t)"
  by (auto simp: is_future_dated_def resolve_next_attempt_client_side_def split: option.splits)

end
