(* ===== verification/Retry_Strategy.thy ===== *)
theory Retry_Strategy
  imports Prelude
begin

text \<open>
  \<open>faststream_outbox/retry.py\<close>: the strategies that turn the history of a delivery into the delay
  before the next attempt, or into \<open>None\<close> for "no further attempt". The class hierarchy is a chain
  of records: \<open>ConstantRetry\<close>, \<open>LinearRetry\<close> and \<open>ExponentialRetry\<close> extend the template. What
  \<open>random.Random.random()\<close> draws, a float in \<open>[0, 1)\<close>, is the argument \<open>r\<close> of each delay.
\<close>

section \<open>The template\<close>

definition max_delay_seconds_const :: rat where
  "max_delay_seconds_const = 100 * 365 * 24 * 60 * 60"

definition max_jitter_factor :: rat where
  "max_jitter_factor = 2"

datatype retry_config_error = BadMaxAttempts int | BadMaxTotalDelay rat | BadDelay rat | BadStep rat
  | BadMultiplier rat | BadMaxDelay rat | BadJitter rat

record retry_template =
  max_attempts :: "int option"
  max_total_delay_seconds :: "rat option"

definition template_checks :: "'a retry_template_scheme \<Rightarrow> (bool \<times> retry_config_error) list" where
  "template_checks t =
     [(case max_attempts t of Some n \<Rightarrow> n < 1 | None \<Rightarrow> False, BadMaxAttempts (the (max_attempts t))),
      (case max_total_delay_seconds t of Some d \<Rightarrow> d \<le> 0 | None \<Rightarrow> False,
       BadMaxTotalDelay (the (max_total_delay_seconds t)))]"

definition jitter_check :: "rat \<Rightarrow> bool \<times> retry_config_error" where
  "jitter_check j = (\<not> (0 \<le> j \<and> j \<le> max_jitter_factor), BadJitter j)"

text \<open>\<open>_RetryStrategyTemplate.get_next_attempt_delay\<close>; \<open>delay\<close> is the subclass's \<open>_delay_seconds\<close>.\<close>

definition template_next_delay ::
    "'a retry_template_scheme \<Rightarrow> (int \<Rightarrow> rat) \<Rightarrow> time \<Rightarrow> time \<Rightarrow> int \<Rightarrow> rat option" where
  "template_next_delay t delay first_at last_at attempts =
     (if (case max_attempts t of Some n \<Rightarrow> attempts \<ge> n | None \<Rightarrow> False) then None
      else let d = delay attempts
           in case max_total_delay_seconds t of
                Some cap \<Rightarrow> (if (last_at - first_at) + d > cap then None else Some d)
              | None \<Rightarrow> Some d)"

definition no_retry_next_delay :: "time \<Rightarrow> time \<Rightarrow> int \<Rightarrow> rat option" where
  "no_retry_next_delay first_at last_at attempts = None"

section \<open>Jitter\<close>

text \<open>\<open>random.uniform(a, b)\<close> is \<open>a + (b - a) * random()\<close>.\<close>

definition uniform :: "rat \<Rightarrow> rat \<Rightarrow> rat \<Rightarrow> rat" where
  "uniform a b r = a + (b - a) * r"

definition apply_jitter :: "rat \<Rightarrow> rat \<Rightarrow> rat \<Rightarrow> rat" where
  "apply_jitter j r d = (if j \<noteq> 0 then d * (1 + uniform (- j / 2) (j / 2) r) else d)"

section \<open>Constant delay\<close>

record constant_retry = retry_template +
  cr_delay_seconds :: rat
  cr_jitter_factor :: rat

definition constant_post_init :: "constant_retry \<Rightarrow> retry_config_error option" where
  "constant_post_init c = first_error (template_checks c @
     [(cr_delay_seconds c \<le> 0, BadDelay (cr_delay_seconds c)), jitter_check (cr_jitter_factor c)])"

definition constant_delay :: "constant_retry \<Rightarrow> rat \<Rightarrow> int \<Rightarrow> rat" where
  "constant_delay c r attempts = apply_jitter (cr_jitter_factor c) r (cr_delay_seconds c)"

section \<open>Linear delay\<close>

record linear_retry = retry_template +
  lr_initial_delay_seconds :: rat
  lr_step_seconds :: rat
  lr_jitter_factor :: rat

definition linear_post_init :: "linear_retry \<Rightarrow> retry_config_error option" where
  "linear_post_init c = first_error (template_checks c @
     [(lr_initial_delay_seconds c \<le> 0, BadDelay (lr_initial_delay_seconds c)),
      (lr_step_seconds c < 0, BadStep (lr_step_seconds c)), jitter_check (lr_jitter_factor c)])"

definition linear_delay :: "linear_retry \<Rightarrow> rat \<Rightarrow> int \<Rightarrow> rat" where
  "linear_delay c r attempts = apply_jitter (lr_jitter_factor c) r
     (lr_initial_delay_seconds c + lr_step_seconds c * of_int (max 0 (attempts - 1)))"

section \<open>Exponential delay\<close>

record exponential_retry = retry_template +
  er_initial_delay_seconds :: rat
  er_multiplier :: rat
  er_max_delay_seconds :: "rat option"
  er_jitter_factor :: rat

definition exponential_post_init :: "exponential_retry \<Rightarrow> retry_config_error option" where
  "exponential_post_init c = first_error (template_checks c @
     [(er_initial_delay_seconds c \<le> 0, BadDelay (er_initial_delay_seconds c)),
      (er_multiplier c \<le> 0, BadMultiplier (er_multiplier c)),
      (case er_max_delay_seconds c of Some d \<Rightarrow> d \<le> 0 | None \<Rightarrow> False,
       BadMaxDelay (the (er_max_delay_seconds c))), jitter_check (er_jitter_factor c)])"

text \<open>
  \<open>multiplier ** n\<close> on floats raises \<open>OverflowError\<close>, here \<open>None\<close>, when the result rounds beyond
  the largest double. The product with the initial delay may still exceed that bound; Python then
  yields infinity, which the final \<open>min\<close> maps to the same ceiling as the exact product.
\<close>

definition float_overflow_bound :: rat where
  "float_overflow_bound = 2 ^ 1024 - 2 ^ 970"

definition float_pow :: "rat \<Rightarrow> nat \<Rightarrow> rat option" where
  "float_pow m n = (if m ^ n < float_overflow_bound then Some (m ^ n) else None)"

definition exponential_base :: "exponential_retry \<Rightarrow> int \<Rightarrow> rat" where
  "exponential_base c attempts =
     (case float_pow (er_multiplier c) (nat (max 0 (attempts - 1))) of
        Some p \<Rightarrow> er_initial_delay_seconds c * p
      | None \<Rightarrow> max_delay_seconds_const)"

definition exponential_delay :: "exponential_retry \<Rightarrow> rat \<Rightarrow> int \<Rightarrow> rat" where
  "exponential_delay c r attempts =
     (let d = apply_jitter (er_jitter_factor c) r (exponential_base c attempts);
          d' = (case er_max_delay_seconds c of Some m \<Rightarrow> min d m | None \<Rightarrow> d)
      in min d' max_delay_seconds_const)"

definition default_retry_strategy :: exponential_retry where
  "default_retry_strategy =
     \<lparr>max_attempts = Some 10, max_total_delay_seconds = None, er_initial_delay_seconds = 1,
      er_multiplier = 2, er_max_delay_seconds = Some 300, er_jitter_factor = 1 / 5\<rparr>"

section \<open>Strategies as the message sees them\<close>

text \<open>
  A strategy object is what its \<open>get_next_attempt_delay\<close> does: from the first and the last attempt,
  the number of attempts and the exception to a delay or \<open>None\<close>, or an exception. A user's own
  strategy is any such function.
\<close>

type_synonym retry_fn = "time \<Rightarrow> time \<Rightarrow> int \<Rightarrow> exn option \<Rightarrow> exn + rat option"

definition constant_strategy :: "constant_retry \<Rightarrow> rat \<Rightarrow> retry_fn" where
  "constant_strategy c r first_at last_at attempts e =
     Inr (template_next_delay c (constant_delay c r) first_at last_at attempts)"

definition linear_strategy :: "linear_retry \<Rightarrow> rat \<Rightarrow> retry_fn" where
  "linear_strategy c r first_at last_at attempts e =
     Inr (template_next_delay c (linear_delay c r) first_at last_at attempts)"

definition exponential_strategy :: "exponential_retry \<Rightarrow> rat \<Rightarrow> retry_fn" where
  "exponential_strategy c r first_at last_at attempts e =
     Inr (template_next_delay c (exponential_delay c r) first_at last_at attempts)"

definition no_retry_strategy :: retry_fn where
  "no_retry_strategy first_at last_at attempts e =
     Inr (no_retry_next_delay first_at last_at attempts)"

section \<open>Facts\<close>

lemma uniform_bounds: "a \<le> b \<Longrightarrow> 0 \<le> r \<Longrightarrow> r < 1 \<Longrightarrow> a \<le> uniform a b r \<and> uniform a b r \<le> b"
  using mult_left_mono [of r 1 "b - a"] mult_nonneg_nonneg [of "b - a" r] by (simp add: uniform_def)

lemma jitter_factor_bounds:
  assumes "0 \<le> j" "0 \<le> r" "r < 1" "0 \<le> d"
  shows "d * (1 - j / 2) \<le> apply_jitter j r d \<and> apply_jitter j r d \<le> d * (1 + j / 2)"
proof -
  have "- j / 2 \<le> uniform (- j / 2) (j / 2) r" "uniform (- j / 2) (j / 2) r \<le> j / 2"
    using uniform_bounds [of "- j / 2" "j / 2" r] assms by auto
  then show ?thesis
    using assms by (auto simp: apply_jitter_def intro!: mult_left_mono)
qed

lemma apply_jitter_nonneg: "0 \<le> j \<Longrightarrow> j \<le> 2 \<Longrightarrow> 0 \<le> r \<Longrightarrow> r < 1 \<Longrightarrow> 0 \<le> d \<Longrightarrow> 0 \<le> apply_jitter j r d"
  using jitter_factor_bounds [of j r d] mult_nonneg_nonneg [of d "1 - j / 2"] by linarith

lemma template_next_delay_Some:
  "template_next_delay t delay f l a = Some d \<longleftrightarrow>
     d = delay a \<and> (\<forall>n. max_attempts t = Some n \<longrightarrow> a < n) \<and>
     (\<forall>cap. max_total_delay_seconds t = Some cap \<longrightarrow> (l - f) + d \<le> cap)"
  by (auto simp: template_next_delay_def Let_def split: option.splits)

lemma exponential_base_nonneg:
  "exponential_post_init c = None \<Longrightarrow> 0 \<le> exponential_base c a"
  by (auto simp: exponential_post_init_def first_error_append exponential_base_def float_pow_def
      max_delay_seconds_const_def split: option.splits if_splits)

lemma exponential_post_init_jitter:
  "exponential_post_init c = None \<Longrightarrow> 0 \<le> er_jitter_factor c \<and> er_jitter_factor c \<le> 2"
  by (auto simp: exponential_post_init_def first_error_append jitter_check_def max_jitter_factor_def
      split: option.splits if_splits)

lemma exponential_post_init_max_delay:
  "exponential_post_init c = None \<Longrightarrow> er_max_delay_seconds c = Some m \<Longrightarrow> 0 < m"
  by (auto simp: exponential_post_init_def first_error_append split: option.splits if_splits)

lemma exponential_delay_upper:
  "exponential_delay c r a \<le> max_delay_seconds_const \<and>
   (case er_max_delay_seconds c of Some m \<Rightarrow> exponential_delay c r a \<le> m | None \<Rightarrow> True)"
  by (auto simp: exponential_delay_def Let_def min_def split: option.split)

lemma exponential_delay_nonneg:
  assumes "exponential_post_init c = None" "0 \<le> r" "r < 1"
  shows "0 \<le> exponential_delay c r a"
proof -
  have "0 \<le> apply_jitter (er_jitter_factor c) r (exponential_base c a)"
    using assms exponential_post_init_jitter [OF assms(1)] exponential_base_nonneg [OF assms(1)]
    by (intro apply_jitter_nonneg) auto
  then show ?thesis using exponential_post_init_max_delay [OF assms(1)]
    by (auto simp: exponential_delay_def Let_def max_delay_seconds_const_def split: option.split)
qed

lemma linear_delay_nonneg:
  assumes "linear_post_init c = None" "0 \<le> r" "r < 1"
  shows "0 \<le> linear_delay c r a"
proof -
  have "0 < lr_initial_delay_seconds c" "0 \<le> lr_step_seconds c"
      "0 \<le> lr_jitter_factor c" "lr_jitter_factor c \<le> 2"
    using assms(1) by (auto simp: linear_post_init_def first_error_append jitter_check_def
        max_jitter_factor_def split: option.splits if_splits)
  then show ?thesis using assms(2,3) by (auto simp: linear_delay_def intro!: apply_jitter_nonneg)
qed

lemma constant_delay_nonneg:
  assumes "constant_post_init c = None" "0 \<le> r" "r < 1"
  shows "0 \<le> constant_delay c r a"
proof -
  have "0 < cr_delay_seconds c" "0 \<le> cr_jitter_factor c" "cr_jitter_factor c \<le> 2"
    using assms(1) by (auto simp: constant_post_init_def first_error_append jitter_check_def
        max_jitter_factor_def split: option.splits if_splits)
  then show ?thesis using assms(2,3) by (auto simp: constant_delay_def intro!: apply_jitter_nonneg)
qed

section \<open>Properties\<close>

text \<open>
  Property C30. No accepted configuration produces a negative delay, so a retry is never scheduled in
  the past, and an exponential delay never exceeds its own maximum nor the hundred-year ceiling that
  keeps it representable as an interval, whatever the attempt number, the jitter drawn and the
  overflow of the power.
\<close>

theorem retry_delay_bounds:
  assumes "constant_post_init cr = None" and "linear_post_init lr = None"
    and "exponential_post_init er = None" and "0 \<le> r" and "r < 1"
  shows "0 \<le> constant_delay cr r a \<and> 0 \<le> linear_delay lr r a \<and> 0 \<le> exponential_delay er r a \<and>
    exponential_delay er r a \<le> max_delay_seconds_const \<and>
    (case er_max_delay_seconds er of Some m \<Rightarrow> exponential_delay er r a \<le> m | None \<Rightarrow> True)"
  using constant_delay_nonneg [OF assms(1,4,5)] linear_delay_nonneg [OF assms(2,4,5)]
    exponential_delay_nonneg [OF assms(3-5)] exponential_delay_upper by simp

theorem retry_delay_bounds_witness:
  "0 \<le> exponential_delay default_retry_strategy (1 / 2) 2000 \<and>
   exponential_delay default_retry_strategy (1 / 2) 2000 \<le> max_delay_seconds_const"
proof -
  have "constant_post_init \<lparr>max_attempts = None, max_total_delay_seconds = None, cr_delay_seconds = 1,
      cr_jitter_factor = 0\<rparr> = None"
    by (simp add: constant_post_init_def template_checks_def jitter_check_def max_jitter_factor_def)
  moreover have "linear_post_init \<lparr>max_attempts = None, max_total_delay_seconds = None,
      lr_initial_delay_seconds = 1, lr_step_seconds = 2, lr_jitter_factor = 1\<rparr> = None"
    by (simp add: linear_post_init_def template_checks_def jitter_check_def max_jitter_factor_def)
  moreover have "exponential_post_init default_retry_strategy = None"
    by (simp add: exponential_post_init_def template_checks_def jitter_check_def max_jitter_factor_def
        default_retry_strategy_def)
  ultimately show ?thesis using retry_delay_bounds [of _ _ default_retry_strategy "1 / 2" 2000] by simp
qed

text \<open>
  Without jitter the exponential delays never shrink as attempts go on (for a multiplier
  of at least one): not even where \<open>multiplier ** n\<close> overflows and the ceiling takes over.
\<close>

theorem exponential_delay_mono:
  assumes "exponential_post_init c = None" and "er_jitter_factor c = 0" and "1 \<le> er_multiplier c"
    and "a \<le> b"
  shows "exponential_delay c r a \<le> exponential_delay c r' b"
proof -
  let ?m = "er_multiplier c" and ?n = "\<lambda>x. nat (max 0 (x - 1))"
  have init: "0 < er_initial_delay_seconds c"
    using assms(1) by (auto simp: exponential_post_init_def first_error_append split: option.splits if_splits)
  have pow: "?m ^ ?n a \<le> ?m ^ ?n b" using assms(3,4) by (intro power_increasing) auto
  have "min (exponential_base c a) max_delay_seconds_const \<le> min (exponential_base c b) max_delay_seconds_const"
  proof (cases "float_pow ?m (?n b)")
    case None
    then show ?thesis by (simp add: exponential_base_def)
  next
    case (Some p)
    then have "float_pow ?m (?n a) = Some (?m ^ ?n a)" "p = ?m ^ ?n b"
      using pow by (auto simp: float_pow_def split: if_splits)
    then have "exponential_base c a \<le> exponential_base c b"
      using Some pow init by (simp add: exponential_base_def mult_left_mono)
    then show ?thesis by (simp add: min.mono)
  qed
  then show ?thesis
    by (cases "er_max_delay_seconds c") (auto simp: exponential_delay_def apply_jitter_def assms(2) Let_def min_def split: if_splits)
qed

theorem exponential_delay_mono_witness:
  "exponential_delay (default_retry_strategy\<lparr>er_jitter_factor := 0\<rparr>) 0 3 \<le>
   exponential_delay (default_retry_strategy\<lparr>er_jitter_factor := 0\<rparr>) 0 3000"
  by (rule exponential_delay_mono)
    (simp_all add: exponential_post_init_def template_checks_def jitter_check_def max_jitter_factor_def
      default_retry_strategy_def)

text \<open>
  When a strategy gives up: each of the three bounded strategies answers with a delay
  exactly when the attempt is below the cap and the elapsed time plus that delay stays within the
  total budget; \<open>NoRetry\<close> never does. So a row nacked under \<open>max_attempts = n\<close> is retried at most
  \<open>n - 1\<close> times.
\<close>

theorem retry_gives_up:
  "(exponential_strategy c r f l a e = Inr (Some d) \<longleftrightarrow>
      d = exponential_delay c r a \<and> (case max_attempts c of Some n \<Rightarrow> a < n | None \<Rightarrow> True) \<and>
      (case max_total_delay_seconds c of Some cap \<Rightarrow> (l - f) + d \<le> cap | None \<Rightarrow> True)) \<and>
   (linear_strategy lc r f l a e = Inr (Some d) \<longleftrightarrow>
      d = linear_delay lc r a \<and> (case max_attempts lc of Some n \<Rightarrow> a < n | None \<Rightarrow> True) \<and>
      (case max_total_delay_seconds lc of Some cap \<Rightarrow> (l - f) + d \<le> cap | None \<Rightarrow> True)) \<and>
   (constant_strategy cc r f l a e = Inr (Some d) \<longleftrightarrow>
      d = constant_delay cc r a \<and> (case max_attempts cc of Some n \<Rightarrow> a < n | None \<Rightarrow> True) \<and>
      (case max_total_delay_seconds cc of Some cap \<Rightarrow> (l - f) + d \<le> cap | None \<Rightarrow> True)) \<and>
   no_retry_strategy f l a e = Inr None"
  by (auto simp: exponential_strategy_def linear_strategy_def constant_strategy_def no_retry_strategy_def
      no_retry_next_delay_def template_next_delay_Some split: option.splits)

text \<open>
  The documented default: with \<open>attempts\<close> from 1 to 9 the delay lies within ten percent
  of \<open>2 ^ (attempts - 1)\<close> seconds, and from the tenth attempt on there is none.
\<close>

theorem default_retry_schedule:
  assumes "0 \<le> r" and "r < 1"
  shows "(exponential_strategy default_retry_strategy r f l a e = Inr None \<longleftrightarrow> 10 \<le> a) \<and>
    (1 \<le> a \<and> a < 10 \<longrightarrow> (\<exists>d. exponential_strategy default_retry_strategy r f l a e = Inr (Some d) \<and>
       2 ^ nat (a - 1) * (9 / 10) \<le> d \<and> d \<le> 2 ^ nat (a - 1) * (11 / 10)))"
proof -
  let ?s = default_retry_strategy
  have none: "exponential_strategy ?s r f l a e = Inr None \<longleftrightarrow> 10 \<le> a"
    and some: "a < 10 \<Longrightarrow> exponential_strategy ?s r f l a e = Inr (Some (exponential_delay ?s r a))"
    by (auto simp: exponential_strategy_def template_next_delay_def default_retry_strategy_def Let_def)
  have "2 ^ nat (a - 1) * (9 / 10) \<le> exponential_delay ?s r a \<and>
      exponential_delay ?s r a \<le> 2 ^ nat (a - 1) * (11 / 10)" if "1 \<le> a" "a < 10"
  proof -
    have "nat (a - 1) \<le> 8" using that by linarith
    then have p: "(2::rat) ^ nat (a - 1) \<le> 2 ^ 8" by (intro power_increasing) auto
    then have "(2::rat) ^ nat (a - 1) < float_overflow_bound" by (simp add: float_overflow_bound_def)
    then have b: "exponential_base ?s a = 2 ^ nat (a - 1)"
      using that by (simp add: exponential_base_def float_pow_def default_retry_strategy_def)
    have j: "2 ^ nat (a - 1) * (9 / 10) \<le> apply_jitter (1 / 5) r (2 ^ nat (a - 1)) \<and>
        apply_jitter (1 / 5) r (2 ^ nat (a - 1)) \<le> 2 ^ nat (a - 1) * (11 / 10)"
      using jitter_factor_bounds [of "1 / 5" r "2 ^ nat (a - 1)"] assms by simp
    then have "apply_jitter (1 / 5) r (2 ^ nat (a - 1)) \<le> 300" using p by simp
    then have "exponential_delay ?s r a = apply_jitter (1 / 5) r (2 ^ nat (a - 1))"
      by (simp add: exponential_delay_def Let_def b) (simp add: default_retry_strategy_def max_delay_seconds_const_def)
    with j show ?thesis by simp
  qed
  with none some show ?thesis by auto
qed

theorem default_retry_schedule_witness:
  "exponential_strategy default_retry_strategy 0 0 0 10 None = Inr None \<and>
   exponential_strategy default_retry_strategy 0 0 0 9 None \<noteq> Inr None"
  using default_retry_schedule [of 0 0 0 10 None] default_retry_schedule [of 0 0 0 9 None] by simp

end
