(* ===== verification/Message.thy ===== *)
theory Message
  imports Schema Retry_Strategy
begin

text \<open>
  \<open>faststream_outbox/message.py\<close>: the in-memory copy of a claimed row and the delivery outcome
  that ack, nack and reject record on it. Methods that mutate the message return the new message;
  \<open>now\<close> is what \<open>utcnow()\<close> reads.
\<close>

section \<open>Outcomes\<close>

datatype dlq_failure_reason = MaxDeliveries | RetryTerminal | Rejected

fun reason_text :: "dlq_failure_reason \<Rightarrow> string" where
  "reason_text MaxDeliveries = ''max_deliveries''"
| "reason_text RetryTerminal = ''retry_terminal''"
| "reason_text Rejected = ''rejected''"

datatype outcome = Ack | Retry (delay_seconds: rat) | Terminal dlq_failure_reason

text \<open>The message: a row and the fields that live in memory only.\<close>

record inner_message = outbox_row +
  retry_strategy :: "retry_fn option"
  last_exception :: "exn option"
  outcome :: "outcome option"
  claimed_at_monotonic :: rat
  handler_duration_seconds :: "rat option"

definition state_set :: "inner_message \<Rightarrow> bool" where
  "state_set m \<longleftrightarrow> outcome m \<noteq> None"

definition terminal_failure_reason :: "inner_message \<Rightarrow> dlq_failure_reason option" where
  "terminal_failure_reason m = (case outcome m of Some (Terminal r) \<Rightarrow> Some r | _ \<Rightarrow> None)"

definition pending_delay_seconds :: "inner_message \<Rightarrow> rat option" where
  "pending_delay_seconds m = (case outcome m of Some (Retry d) \<Rightarrow> Some d | _ \<Rightarrow> None)"

text \<open>\<open>_row_to_message\<close> and \<open>_to_inner\<close>: the columns copied, the in-memory fields at their defaults.\<close>

definition row_to_message :: "rat \<Rightarrow> outbox_row \<Rightarrow> inner_message" where
  "row_to_message clk r = outbox_row.extend r
     (inner_message.fields None None None clk None)"

section \<open>Recording an outcome\<close>

definition record_attempt :: "time \<Rightarrow> inner_message \<Rightarrow> inner_message" where
  "record_attempt now m = m\<lparr>
     attempts_count := attempts_count m + 1,
     last_attempt_at := Some now,
     first_attempt_at := (case first_attempt_at m of None \<Rightarrow> Some now | Some t \<Rightarrow> Some t)\<rparr>"

definition msg_ack_raw :: "time \<Rightarrow> inner_message \<Rightarrow> inner_message" where
  "msg_ack_raw now m = (record_attempt now m)\<lparr>outcome := Some Ack\<rparr>"

text \<open>
  \<open>_nack\<close>: the strategy sees the attempt just recorded. A strategy that raises, a missing strategy
  and a \<open>None\<close> delay all end the row's life as \<open>retry_terminal\<close>.
\<close>

definition msg_nack_raw :: "time \<Rightarrow> inner_message \<Rightarrow> inner_message" where
  "msg_nack_raw now m0 =
     (let m = record_attempt now m0;
          answer = (case retry_strategy m of
             None \<Rightarrow> Inr None
           | Some f \<Rightarrow> f (the (first_attempt_at m)) (the (last_attempt_at m)) (attempts_count m)
               (last_exception m))
      in case answer of
           Inl e \<Rightarrow> m\<lparr>outcome := Some (Terminal RetryTerminal)\<rparr>
         | Inr None \<Rightarrow> m\<lparr>outcome := Some (Terminal RetryTerminal)\<rparr>
         | Inr (Some d) \<Rightarrow> m\<lparr>outcome := Some (Retry d)\<rparr>)"

definition msg_reject_raw :: "time \<Rightarrow> inner_message \<Rightarrow> inner_message" where
  "msg_reject_raw now m = (record_attempt now m)\<lparr>outcome := Some (Terminal Rejected)\<rparr>"

definition update_state_if_not_set ::
    "(inner_message \<Rightarrow> inner_message) \<Rightarrow> inner_message \<Rightarrow> inner_message" where
  "update_state_if_not_set f m = (if outcome m \<noteq> None then m else f m)"

definition msg_ack :: "time \<Rightarrow> inner_message \<Rightarrow> inner_message" where
  "msg_ack now = update_state_if_not_set (msg_ack_raw now)"

definition msg_nack :: "time \<Rightarrow> inner_message \<Rightarrow> inner_message" where
  "msg_nack now = update_state_if_not_set (msg_nack_raw now)"

definition msg_reject :: "time \<Rightarrow> inner_message \<Rightarrow> inner_message" where
  "msg_reject now = update_state_if_not_set (msg_reject_raw now)"

definition allow_delivery :: "int option \<Rightarrow> inner_message \<Rightarrow> bool \<times> inner_message" where
  "allow_delivery max_deliveries m =
     (case max_deliveries of
        Some n \<Rightarrow> if deliveries_count m > n
          then (False, m\<lparr>outcome := Some (Terminal MaxDeliveries)\<rparr>) else (True, m)
      | None \<Rightarrow> (True, m))"

text \<open>The fallback when the consume pipeline recorded nothing.\<close>

definition assert_state_set :: "time \<Rightarrow> inner_message \<Rightarrow> inner_message" where
  "assert_state_set now m =
     (if state_set m then m
      else if last_exception m \<noteq> None then msg_nack now m
      else msg_reject now m)"

section \<open>What the consume pipeline may do to a message\<close>

text \<open>
  The middlewares, the acknowledgement policy and the handler reach the message through these calls
  only: the acknowledgement methods, each at its own time, and the exception that
  \<open>_CaptureExceptionMiddleware\<close> stores. A pipeline's effect on the message is a list of them.
\<close>

datatype msg_call = CallAck time | CallNack time | CallReject time | Capture exn

fun apply_call :: "msg_call \<Rightarrow> inner_message \<Rightarrow> inner_message" where
  "apply_call (CallAck t) m = msg_ack t m"
| "apply_call (CallNack t) m = msg_nack t m"
| "apply_call (CallReject t) m = msg_reject t m"
| "apply_call (Capture e) m = m\<lparr>last_exception := Some e\<rparr>"

fun apply_calls :: "msg_call list \<Rightarrow> inner_message \<Rightarrow> inner_message" where
  "apply_calls [] m = m"
| "apply_calls (c # cs) m = apply_calls cs (apply_call c m)"

fun is_ack_call :: "msg_call \<Rightarrow> bool" where
  "is_ack_call (Capture e) = False"
| "is_ack_call c = True"

lemmas msg_defs = msg_ack_def msg_nack_def msg_reject_def update_state_if_not_set_def
  msg_ack_raw_def msg_nack_raw_def msg_reject_raw_def record_attempt_def state_set_def

subsection \<open>Columns the calls leave alone\<close>

text \<open>What identifies the row and its lease, and what a terminal write or an archive row copies.\<close>

definition row_ident :: "'a outbox_row_scheme \<Rightarrow>
    nat \<times> string \<times> bytes \<times> int \<times> token option \<times> time option \<times> string option" where
  "row_ident m = (row_id m, queue m, payload m, deliveries_count m, acquired_token m,
     acquired_at m, timer_id m)"

lemma row_ident_ext: "row_ident m = row_ident m' \<Longrightarrow>
    row_id m = row_id m' \<and> queue m = queue m' \<and> payload m = payload m' \<and>
    deliveries_count m = deliveries_count m' \<and> acquired_token m = acquired_token m' \<and>
    acquired_at m = acquired_at m' \<and> timer_id m = timer_id m'"
  by (simp add: row_ident_def)

lemma row_ident_apply_call [simp]: "row_ident (apply_call c m) = row_ident m"
  by (cases c) (auto simp: row_ident_def msg_defs Let_def split: sum.split option.split)

lemma row_ident_apply_calls [simp]: "row_ident (apply_calls cs m) = row_ident m"
  by (induction cs arbitrary: m) simp_all

lemma row_ident_assert_state_set [simp]: "row_ident (assert_state_set now m) = row_ident m"
  by (auto simp: assert_state_set_def row_ident_def msg_defs Let_def split: sum.split option.split)

lemma row_ident_allow_delivery [simp]: "row_ident (snd (allow_delivery md m)) = row_ident m"
  by (auto simp: allow_delivery_def row_ident_def split: option.split)

lemma handler_duration_apply_call [simp]:
  "handler_duration_seconds (apply_call c m) = handler_duration_seconds m"
  by (cases c) (auto simp: msg_defs Let_def split: sum.split option.split)

lemma handler_duration_apply_calls [simp]:
  "handler_duration_seconds (apply_calls cs m) = handler_duration_seconds m"
  by (induction cs arbitrary: m) simp_all

lemma handler_duration_assert_state_set [simp]:
  "handler_duration_seconds (assert_state_set now m) = handler_duration_seconds m"
  by (auto simp: assert_state_set_def msg_defs Let_def split: sum.split option.split)

subsection \<open>Once recorded, an outcome stays\<close>

lemma apply_call_outcome_set:
  "outcome m = Some out \<Longrightarrow> outcome (apply_call c m) = Some out \<and>
     attempts_count (apply_call c m) = attempts_count m"
  by (cases c) (auto simp: msg_defs)

lemma apply_calls_outcome_set:
  "outcome m = Some out \<Longrightarrow> outcome (apply_calls cs m) = Some out \<and>
     attempts_count (apply_calls cs m) = attempts_count m"
  by (induction cs arbitrary: m) (simp_all add: apply_call_outcome_set)

lemma apply_call_records:
  "outcome m = None \<Longrightarrow> is_ack_call c \<Longrightarrow>
     outcome (apply_call c m) \<noteq> None \<and> attempts_count (apply_call c m) = attempts_count m + 1"
  by (cases c) (auto simp: msg_defs Let_def split: sum.split option.split)

lemma apply_calls_unset:
  "outcome m = None \<Longrightarrow>
     (outcome (apply_calls cs m) = None \<longleftrightarrow> list_all (\<lambda>c. \<not> is_ack_call c) cs) \<and>
     attempts_count (apply_calls cs m) =
       attempts_count m + (if list_all (\<lambda>c. \<not> is_ack_call c) cs then 0 else 1)"
proof (induction cs arbitrary: m)
  case (Cons c cs)
  show ?case
  proof (cases "is_ack_call c")
    case True
    with Cons.prems have "outcome (apply_call c m) \<noteq> None"
      and n: "attempts_count (apply_call c m) = attempts_count m + 1"
      by (auto dest: apply_call_records)
    then obtain out where "outcome (apply_call c m) = Some out" by blast
    from apply_calls_outcome_set [OF this, of cs] n True show ?thesis by simp
  next
    case False
    then obtain e where c: "c = Capture e" by (cases c) auto
    then show ?thesis using Cons.IH [of "m\<lparr>last_exception := Some e\<rparr>"] Cons.prems by simp
  qed
qed simp

lemma assert_state_set_outcome: "outcome (assert_state_set now m) \<noteq> None"
  by (auto simp: assert_state_set_def msg_defs Let_def split: sum.split option.split)

lemma apply_calls_append: "apply_calls (cs @ ds) m = apply_calls ds (apply_calls cs m)"
  by (induction cs arbitrary: m) simp_all

lemma apply_calls_captures:
  "list_all (\<lambda>c. \<not> is_ack_call c) cs \<Longrightarrow> \<exists>e. apply_calls cs m = m\<lparr>last_exception := e\<rparr>"
proof (induction cs arbitrary: m)
  case (Cons c cs)
  then obtain e where c: "c = Capture e" by (cases c) auto
  then show ?case using Cons.IH [of "m\<lparr>last_exception := Some e\<rparr>"] Cons.prems by (auto simp: c)
next
  case Nil
  have "m = m\<lparr>last_exception := last_exception m\<rparr>" by simp
  then show ?case by (metis apply_calls.simps(1))
qed

text \<open>What a nack decides, in terms of the strategy's answer.\<close>

definition nack_answer :: "time \<Rightarrow> inner_message \<Rightarrow> exn + rat option" where
  "nack_answer now m = (case retry_strategy m of
     None \<Rightarrow> Inr None
   | Some f \<Rightarrow> f (case first_attempt_at m of None \<Rightarrow> now | Some t \<Rightarrow> t) now (attempts_count m + 1)
       (last_exception m))"

lemma msg_nack_outcome:
  "outcome m = None \<Longrightarrow> outcome (msg_nack now m) =
     (case nack_answer now m of Inr (Some d) \<Rightarrow> Some (Retry d) | _ \<Rightarrow> Some (Terminal RetryTerminal))"
  by (auto simp: msg_defs nack_answer_def Let_def split: option.split sum.split)

section \<open>Properties\<close>

text \<open>
  Property C29. The first intent wins and counts once: whatever acknowledgement calls follow the first
  one, from the handler, the acknowledgement middleware or the fallback, they change neither the
  outcome nor the attempt count, which has grown by exactly one.
\<close>

theorem first_intent_wins:
  assumes "outcome m = None" and "list_all (\<lambda>c. \<not> is_ack_call c) before" and "is_ack_call c"
  shows "outcome (assert_state_set now (apply_calls (before @ c # after) m)) =
      outcome (apply_call c (apply_calls before m)) \<and>
    outcome (apply_call c (apply_calls before m)) \<noteq> None \<and>
    attempts_count (assert_state_set now (apply_calls (before @ c # after) m)) = attempts_count m + 1"
proof -
  obtain e where b: "apply_calls before m = m\<lparr>last_exception := e\<rparr>"
    using apply_calls_captures [OF assms(2)] by blast
  let ?m = "apply_call c (apply_calls before m)"
  have "outcome ?m \<noteq> None \<and> attempts_count ?m = attempts_count m + 1"
    using apply_call_records [OF _ assms(3), of "apply_calls before m"] assms(1) by (simp add: b)
  moreover from this obtain out where "outcome ?m = Some out" by blast
  moreover from this have "outcome (apply_calls after ?m) = Some out \<and>
      attempts_count (apply_calls after ?m) = attempts_count ?m" by (rule apply_calls_outcome_set)
  ultimately show ?thesis by (simp add: apply_calls_append assert_state_set_def state_set_def)
qed

definition sample_message :: inner_message where
  "sample_message = row_to_message 0 \<lparr>row_id = 1, queue = ''q'', payload = [1], headers = None,
     attempts_count = 0, deliveries_count = 1, created_at = 0, next_attempt_at = 0,
     first_attempt_at = None, last_attempt_at = None, acquired_at = Some 5, acquired_token = Some 7,
     timer_id = None\<rparr>"

lemma sample_message_outcome [simp]: "outcome sample_message = None"
  by (simp add: sample_message_def row_to_message_def outbox_row.defs inner_message.defs)

theorem first_intent_wins_witness:
  "outcome (assert_state_set 9 (apply_calls ([Capture (py_exn ''E'' ''x'')] @ CallReject 6 # [CallAck 7])
     sample_message)) = Some (Terminal Rejected)"
  using first_intent_wins [of sample_message "[Capture (py_exn ''E'' ''x'')]" "CallReject 6" 9 "[CallAck 7]"]
  by (simp add: msg_defs)

text \<open>
  The fallback policy, when the pipeline recorded nothing: a message whose handler raised
  is treated as a nack, so the strategy decides between a retry and \<open>retry_terminal\<close>, and it is never
  \<open>rejected\<close>; one without an exception is \<open>rejected\<close>. A strategy that itself raises ends the row as
  \<open>retry_terminal\<close> instead of escaping.
\<close>

theorem fallback_outcome:
  assumes "outcome m = None"
  shows "outcome (assert_state_set now m) =
    (if last_exception m = None then Some (Terminal Rejected)
     else case nack_answer now m of
       Inl e \<Rightarrow> Some (Terminal RetryTerminal)
     | Inr None \<Rightarrow> Some (Terminal RetryTerminal)
     | Inr (Some d) \<Rightarrow> Some (Retry d)) \<and>
    attempts_count (assert_state_set now m) = attempts_count m + 1"
  using assms msg_nack_outcome [OF assms, of now]
  by (auto simp: assert_state_set_def msg_defs Let_def split: option.splits sum.splits)

theorem fallback_outcome_witness:
  "outcome (assert_state_set 9 (sample_message\<lparr>last_exception := Some (py_exn ''E'' ''x''),
      retry_strategy := Some no_retry_strategy\<rparr>)) = Some (Terminal RetryTerminal) \<and>
   outcome (assert_state_set 9 sample_message) = Some (Terminal Rejected)"
  using fallback_outcome [of "sample_message\<lparr>last_exception := Some (py_exn ''E'' ''x''),
      retry_strategy := Some no_retry_strategy\<rparr>" 9]
    fallback_outcome [of sample_message 9]
  by (simp add: nack_answer_def no_retry_strategy_def no_retry_next_delay_def sample_message_def row_to_message_def outbox_row.defs inner_message.defs)

text \<open>
  The delivery gate: a message passes exactly when its delivery count is within
  \<open>max_deliveries\<close> (or there is no maximum); a refused one ends as \<open>max_deliveries\<close> without counting
  an attempt, and a passed one is untouched.
\<close>

theorem delivery_gate:
  "(fst (allow_delivery md m) \<longleftrightarrow> (case md of None \<Rightarrow> True | Some n \<Rightarrow> deliveries_count m \<le> n)) \<and>
   snd (allow_delivery md m) =
     (if fst (allow_delivery md m) then m else m\<lparr>outcome := Some (Terminal MaxDeliveries)\<rparr>) \<and>
   attempts_count (snd (allow_delivery md m)) = attempts_count m"
  by (auto simp: allow_delivery_def split: option.split)

end
