(* ===== verification/Envelope.thy ===== *)
theory Envelope
  imports Message
begin

text \<open>
  \<open>faststream_outbox/envelope.py\<close> and \<open>parser/parser.py\<close>: the payload and the headers a published
  row carries, and what the parser reads back from a claimed row. FastStream's \<open>encode_message\<close> and
  \<open>gen_cor_id\<close> are arguments: the bytes and the content type the encoder returned, and a fresh id.
\<close>

definition content_type_header :: string where
  "content_type_header = ''content-type''"

definition correlation_id_header :: string where
  "correlation_id_header = ''correlation_id''"

definition envelope_managed_headers :: "string list" where
  "envelope_managed_headers = [content_type_header, correlation_id_header]"

lemma header_names_distinct [simp]:
  "content_type_header \<noteq> correlation_id_header" "correlation_id_header \<noteq> content_type_header"
  by (simp_all add: content_type_header_def correlation_id_header_def)

text \<open>The truth value of a \<open>str | None\<close>: neither \<open>None\<close> nor empty.\<close>

definition truthy :: "string option \<Rightarrow> bool" where
  "truthy s = (case s of None \<Rightarrow> False | Some t \<Rightarrow> t \<noteq> [])"

text \<open>\<open>a or b or c\<close>, with a string at the end.\<close>

definition str_or :: "string option \<Rightarrow> string \<Rightarrow> string" where
  "str_or a b = (if truthy a then the a else b)"

datatype envelope_error = ContentTypeConflict | CorrelationIdConflict

text \<open>\<open>_encode_payload\<close>. Both errors are \<open>ValueError\<close>s.\<close>

definition encode_payload ::
    "bytes \<times> string option \<Rightarrow> string \<Rightarrow> headers option \<Rightarrow> string option
     \<Rightarrow> envelope_error + (bytes \<times> headers)" where
  "encode_payload encoded fresh_id hdrs correlation_id =
     (let (body, content_type) = encoded;
          out0 = (case hdrs of None \<Rightarrow> [] | Some h \<Rightarrow> h)
      in if dict_has out0 content_type_header \<and> truthy content_type \<and>
            dict_get out0 content_type_header \<noteq> content_type
         then Inl ContentTypeConflict
         else let out1 = (if truthy content_type
                          then dict_set content_type_header (the content_type) out0 else out0);
                  header_cid = dict_get out1 correlation_id_header
              in if correlation_id \<noteq> None \<and> header_cid \<noteq> None \<and> correlation_id \<noteq> header_cid
                 then Inl CorrelationIdConflict
                 else Inr (body, dict_set correlation_id_header
                        (str_or correlation_id (str_or header_cid fresh_id)) out1))"

section \<open>The parser\<close>

text \<open>\<open>str(n)\<close> for a non-negative integer.\<close>

fun py_str_nat :: "nat \<Rightarrow> string" where
  "py_str_nat n = (if n < 10 then [char_of (48 + n)]
     else py_str_nat (n div 10) @ [char_of (48 + n mod 10)])"

declare py_str_nat.simps [simp del]

record stream_message =
  sm_body :: bytes
  sm_headers :: headers
  sm_content_type :: "string option"
  sm_message_id :: string
  sm_correlation_id :: string
  sm_reply_to :: string

definition parse_message :: "'a outbox_row_scheme \<Rightarrow> stream_message" where
  "parse_message m =
     (let h = (case headers m of None \<Rightarrow> [] | Some h \<Rightarrow> h)
      in \<lparr>sm_body = payload m, sm_headers = h, sm_content_type = dict_get h content_type_header,
          sm_message_id = py_str_nat (row_id m),
          sm_correlation_id = dict_get_default h correlation_id_header (py_str_nat (row_id m)),
          sm_reply_to = queue m\<rparr>)"

section \<open>Header propagation on a response\<close>

text \<open>
  \<open>_maybe_propagate_inbound_headers\<close>: a response without headers of its own takes the inbound ones;
  one that goes back through the outbox envelope drops the managed keys first.
\<close>

definition propagate_inbound_headers ::
    "bool \<Rightarrow> bool \<Rightarrow> headers \<Rightarrow> headers \<Rightarrow> headers" where
  "propagate_inbound_headers enabled is_outbox_response inbound own =
     (if \<not> (enabled \<and> own = []) then own
      else if is_outbox_response then fold dict_pop envelope_managed_headers inbound
      else inbound)"

section \<open>Facts\<close>

lemma encode_payload_Inr:
  assumes "encode_payload (b, ct) fresh hdrs cid = Inr (b', h')"
  defines "h0 \<equiv> (case hdrs of None \<Rightarrow> [] | Some h \<Rightarrow> h)"
  shows "b' = b"
    and "dict_get h' k =
      (if k = correlation_id_header
       then Some (str_or cid (str_or (dict_get h0 correlation_id_header) fresh))
       else if k = content_type_header \<and> truthy ct then ct
       else dict_get h0 k)"
  using assms
  by (auto simp: encode_payload_def Let_def truthy_def split: if_splits option.splits)

lemma fold_pop_managed:
  "dict_get (fold dict_pop envelope_managed_headers h) k =
     (if k \<in> set envelope_managed_headers then None else dict_get h k)"
  by (simp add: envelope_managed_headers_def)

text \<open>
  Property C31. What is published comes back: the parser reads from a row that stores an encoded
  envelope the encoder's bytes, the encoder's content type where it names one, the caller's
  correlation id (else the header's, else the generated one), and every other header unchanged.
\<close>

theorem envelope_roundtrip:
  assumes "encode_payload (b, ct) fresh hdrs cid = Inr (b', h')"
    and "payload r = b'" and "headers r = Some h'"
  defines "h0 \<equiv> (case hdrs of None \<Rightarrow> [] | Some h \<Rightarrow> h)"
  shows "sm_body (parse_message r) = b \<and>
    (truthy ct \<longrightarrow> sm_content_type (parse_message r) = ct) \<and>
    sm_correlation_id (parse_message r) =
      str_or cid (str_or (dict_get h0 correlation_id_header) fresh) \<and>
    (\<forall>k. k \<notin> set envelope_managed_headers \<longrightarrow>
       dict_get (sm_headers (parse_message r)) k = dict_get h0 k)"
  using encode_payload_Inr [OF assms(1)] assms(2,3)
  by (auto simp: parse_message_def Let_def dict_get_default_def h0_def envelope_managed_headers_def)

theorem envelope_roundtrip_witness:
  "encode_payload ([1, 2], Some ''text'') ''gen'' (Some [(''k'', ''v'')]) (Some ''cid'')
     = Inr ([1, 2], [(''k'', ''v''), (''content-type'', ''text''), (''correlation_id'', ''cid'')]) \<and>
   sm_correlation_id (parse_message
     \<lparr>row_id = 1, queue = ''q'', payload = [1, 2],
      headers = Some [(''k'', ''v''), (''content-type'', ''text''), (''correlation_id'', ''cid'')],
      attempts_count = 0, deliveries_count = 0, created_at = 0, next_attempt_at = 0,
      first_attempt_at = None, last_attempt_at = None, acquired_at = None, acquired_token = None,
      timer_id = None\<rparr>) = ''cid''"
proof -
  let ?h = "[(''k'', ''v''), (''content-type'', ''text''), (''correlation_id'', ''cid'')]"
  let ?r = "\<lparr>row_id = 1, queue = ''q'', payload = [1, 2], headers = Some ?h,
      attempts_count = 0, deliveries_count = 0, created_at = 0, next_attempt_at = 0,
      first_attempt_at = None, last_attempt_at = None, acquired_at = None, acquired_token = None,
      timer_id = None\<rparr> :: outbox_row"
  have e: "encode_payload ([1, 2], Some ''text'') ''gen'' (Some [(''k'', ''v'')]) (Some ''cid'')
      = Inr ([1, 2], ?h)"
    by (simp add: encode_payload_def Let_def truthy_def str_or_def dict_set_def
        content_type_header_def correlation_id_header_def)
  have "sm_correlation_id (parse_message ?r) =
      str_or (Some ''cid'') (str_or (dict_get [(''k'', ''v'')] correlation_id_header) ''gen'')"
    using envelope_roundtrip [OF e, of ?r] by simp
  then show ?thesis using e by (simp add: str_or_def truthy_def)
qed

text \<open>
  The correlation id given to publish can only be lost to an error: a mismatch with the
  header of the same name is rejected, and on success a non-empty one is what the row carries. The
  same holds for the content type the encoder reports.
\<close>

theorem envelope_conflicts:
  "(encode_payload (b, ct) fresh (Some h) cid = Inl ContentTypeConflict \<longleftrightarrow>
      dict_has h content_type_header \<and> truthy ct \<and> dict_get h content_type_header \<noteq> ct) \<and>
   (encode_payload (b, ct) fresh (Some h) cid = Inl CorrelationIdConflict \<longleftrightarrow>
      \<not> (dict_has h content_type_header \<and> truthy ct \<and> dict_get h content_type_header \<noteq> ct) \<and>
      cid \<noteq> None \<and> dict_has h correlation_id_header \<and> cid \<noteq> dict_get h correlation_id_header)"
  by (auto simp: encode_payload_def Let_def)

text \<open>
  A response that propagates the inbound headers can always be encoded again: with the
  managed keys dropped neither conflict can arise, whatever the new body's content type and
  whatever correlation id the response carries, and every other inbound header is kept.
\<close>

theorem propagated_headers_reencode:
  "(\<exists>h'. encode_payload (b, ct) fresh
        (Some (propagate_inbound_headers True True inbound [])) cid = Inr (b, h')) \<and>
   dict_get (propagate_inbound_headers True True inbound []) k =
     (if k \<in> set envelope_managed_headers then None else dict_get inbound k)"
  by (auto simp: propagate_inbound_headers_def fold_pop_managed encode_payload_def Let_def
      envelope_managed_headers_def)

end
