(* ===== verification/Client.thy ===== *)
theory Client
  imports Message Scheduling
begin

text \<open>
  \<open>OutboxClient\<close> and the statements it builds (\<open>faststream_outbox/client.py\<close>): the SQL effects on
  the rows of the two tables. A statement is atomic and \<open>now\<close> is the transaction's \<open>now()\<close> on the
  database clock. What Postgres decides is an argument: the value the id sequence hands out, the set
  of row ids that other transactions hold locked when \<open>SKIP LOCKED\<close> scans, and the order in which
  \<open>UPDATE ... RETURNING\<close> yields its rows.
\<close>

record outbox_db =
  db_rows :: "outbox_row list"
  db_dlq :: "dlq_row list"

section \<open>The fetch statement\<close>

text \<open>\<open>_claimable_branches\<close>: the lease predicates of the two scans.\<close>

definition unleased :: "'a outbox_row_scheme \<Rightarrow> bool" where
  "unleased r \<longleftrightarrow> acquired_token r = None"

definition lease_expired :: "time \<Rightarrow> 'a outbox_row_scheme \<Rightarrow> bool" where
  "lease_expired lease_cutoff r \<longleftrightarrow> acquired_token r \<noteq> None \<and>
     (case acquired_at r of Some t \<Rightarrow> t < lease_cutoff | None \<Rightarrow> False)"

text \<open>
  One \<open>LATERAL\<close> branch: for each distinct queue name an ordered scan that stops after \<open>lmt\<close> rows
  that no other transaction has locked.
\<close>

definition per_queue :: "time \<Rightarrow> nat \<Rightarrow> nat set \<Rightarrow> (outbox_row \<Rightarrow> bool) \<Rightarrow> outbox_row list \<Rightarrow>
    string \<Rightarrow> outbox_row list" where
  "per_queue now lmt locked lease_state rs q =
     top_by fetch_key lmt
       (filter (\<lambda>r. queue r = q \<and> next_attempt_at r \<le> now \<and> lease_state r \<and>
                    row_id r \<notin> locked) rs)"

definition branch :: "time \<Rightarrow> nat \<Rightarrow> nat set \<Rightarrow> (outbox_row \<Rightarrow> bool) \<Rightarrow> outbox_row list \<Rightarrow>
    string list \<Rightarrow> outbox_row list" where
  "branch now lmt locked lease_state rs qs =
     concat (map (per_queue now lmt locked lease_state rs) (remdups qs))"

text \<open>\<open>candidates\<close> is the union of the branches and \<open>ready\<close> its first \<open>lmt\<close> rows.\<close>

definition ready :: "time \<Rightarrow> rat \<Rightarrow> nat \<Rightarrow> nat set \<Rightarrow> string list \<Rightarrow> outbox_row list \<Rightarrow> outbox_row list" where
  "ready now ttl lmt locked qs rs =
     top_by fetch_key lmt
       (branch now lmt locked unleased rs qs @ branch now lmt locked (lease_expired (now - ttl)) rs qs)"

definition claim_row :: "time \<Rightarrow> token \<Rightarrow> 'a outbox_row_scheme \<Rightarrow> 'a outbox_row_scheme" where
  "claim_row now tok r = r\<lparr>acquired_at := Some now, acquired_token := Some tok,
     deliveries_count := deliveries_count r + 1\<rparr>"

definition claim_rows :: "time \<Rightarrow> token \<Rightarrow> nat set \<Rightarrow> outbox_row list \<Rightarrow> outbox_row list" where
  "claim_rows now tok ids rs = map (\<lambda>r. if row_id r \<in> ids then claim_row now tok r else r) rs"

definition fetch_stmt :: "time \<Rightarrow> rat \<Rightarrow> nat \<Rightarrow> token \<Rightarrow> nat set \<Rightarrow> string list \<Rightarrow> outbox_row list \<Rightarrow>
    outbox_row list \<times> outbox_row list" where
  "fetch_stmt now ttl lmt tok locked qs rs =
     (let ids = row_id ` set (ready now ttl lmt locked qs rs);
          rs' = claim_rows now tok ids rs
      in (rs', filter (\<lambda>r. row_id r \<in> ids) rs'))"

definition not_connected :: "string \<Rightarrow> exn" where
  "not_connected op = py_exn ''TypeError''
     (''OutboxClient.'' @ op @ '' requires a live AsyncConnection (got None)'')"

text \<open>
  The order in which a statement without ORDER BY yields its rows, coded as the positions picked one
  after the other: every list of numbers is an order, and every order has a list.
\<close>

fun arrange :: "nat list \<Rightarrow> 'a list \<Rightarrow> 'a list" where
  "arrange ns [] = []"
| "arrange [] xs = xs"
| "arrange (n # ns) (x # xs) =
     (let i = n mod length (x # xs)
      in (x # xs) ! i # arrange ns (take i (x # xs) @ drop (Suc i) (x # xs)))"

text \<open>\<open>OutboxClient.fetch\<close>. \<open>order\<close> is the order of the result set, \<open>clk\<close> the monotonic clock.\<close>

definition client_fetch :: "nat list \<Rightarrow> nat set \<Rightarrow> bool \<Rightarrow> time \<Rightarrow> rat \<Rightarrow>
    token \<Rightarrow> string list \<Rightarrow> nat \<Rightarrow> rat \<Rightarrow> outbox_db \<Rightarrow> outbox_db \<times> (exn + inner_message list)" where
  "client_fetch order locked conn now clk tok qs lmt ttl db =
     (if \<not> conn then (db, Inl (not_connected ''fetch''))
      else if qs = [] then (db, Inr [])
      else let (rs', claimed) = fetch_stmt now ttl lmt tok locked qs (db_rows db)
           in (db\<lparr>db_rows := rs'\<rparr>,
               Inr (sort_key fetch_key (map (row_to_message clk) (arrange order claimed)))))"

section \<open>Terminal writes\<close>

text \<open>\<open>WHERE id = :id AND acquired_token = :token\<close>. A NULL column never equals the bound token.\<close>

definition holds_lease :: "nat \<Rightarrow> token \<Rightarrow> 'a outbox_row_scheme \<Rightarrow> bool" where
  "holds_lease i tok r \<longleftrightarrow> row_id r = i \<and> acquired_token r = Some tok"

definition no_dlq_table_error :: exn where
  "no_dlq_table_error = py_exn ''RuntimeError''
     ''delete_with_lease received a dlq_payload but the client has no dlq_table; refusing to drop the audit row silently''"

text \<open>The DELETE-then-archive statement of \<open>_build_dlq_cte\<close>; the result is its row count.\<close>

definition dlq_cte :: "time \<Rightarrow> nat \<Rightarrow> token \<Rightarrow> dlq_injected \<Rightarrow> outbox_db \<Rightarrow> outbox_db \<times> nat" where
  "dlq_cte now i tok ctx db =
     (let deleted = filter (holds_lease i tok) (db_rows db)
      in (db\<lparr>db_rows := filter (\<lambda>r. \<not> holds_lease i tok r) (db_rows db),
             db_dlq := db_dlq db @ map (dlq_archive now ctx) deleted\<rparr>, length deleted))"

definition delete_stmt :: "nat \<Rightarrow> token \<Rightarrow> outbox_db \<Rightarrow> outbox_db \<times> nat" where
  "delete_stmt i tok db =
     (db\<lparr>db_rows := filter (\<lambda>r. \<not> holds_lease i tok r) (db_rows db)\<rparr>,
      length (filter (holds_lease i tok) (db_rows db)))"

definition client_delete_with_lease :: "bool \<Rightarrow> bool \<Rightarrow> time \<Rightarrow> nat \<Rightarrow> token \<Rightarrow> dlq_injected option \<Rightarrow>
    outbox_db \<Rightarrow> outbox_db \<times> (exn + bool)" where
  "client_delete_with_lease has_dlq conn now i tok ctx_opt db =
     (if \<not> conn then (db, Inl (not_connected ''delete_with_lease''))
      else case ctx_opt of
        Some ctx \<Rightarrow>
          if \<not> has_dlq then (db, Inl no_dlq_table_error)
          else let (db', n) = dlq_cte now i tok ctx db in (db', Inr (n > 0))
      | None \<Rightarrow> let (db', n) = delete_stmt i tok db in (db', Inr (n > 0)))"

definition client_delete_batch :: "bool \<Rightarrow> (nat \<times> token) list \<Rightarrow> outbox_db \<Rightarrow>
    outbox_db \<times> (exn + (nat \<times> token) set)" where
  "client_delete_batch conn pairs db =
     (if \<not> conn then (db, Inl (not_connected ''delete_batch_with_lease''))
      else if pairs = [] then (db, Inr {})
      else let hit = (\<lambda>r. list_ex (\<lambda>(i, tok). holds_lease i tok r) pairs)
           in (db\<lparr>db_rows := filter (\<lambda>r. \<not> hit r) (db_rows db)\<rparr>,
               Inr ((\<lambda>r. (row_id r, the (acquired_token r))) ` set (filter hit (db_rows db)))))"

text \<open>What \<open>mark_pending_with_lease\<close> writes back; \<open>max(0.0, delay_seconds)\<close> is bound as the delay.\<close>

record retry_write =
  rw_delay :: rat
  rw_attempts_count :: int
  rw_first_attempt_at :: "time option"
  rw_last_attempt_at :: "time option"

definition reschedule_row :: "time \<Rightarrow> retry_write \<Rightarrow> 'a outbox_row_scheme \<Rightarrow> 'a outbox_row_scheme" where
  "reschedule_row now w r = r\<lparr>next_attempt_at := now + max 0 (rw_delay w),
     attempts_count := rw_attempts_count w, first_attempt_at := rw_first_attempt_at w,
     last_attempt_at := rw_last_attempt_at w, acquired_at := None, acquired_token := None\<rparr>"

definition client_mark_pending :: "bool \<Rightarrow> time \<Rightarrow> nat \<Rightarrow> token \<Rightarrow> retry_write \<Rightarrow> outbox_db \<Rightarrow>
    outbox_db \<times> (exn + bool)" where
  "client_mark_pending conn now i tok w db =
     (if \<not> conn then (db, Inl (not_connected ''mark_pending_with_lease''))
      else (db\<lparr>db_rows := map (\<lambda>r. if holds_lease i tok r then reschedule_row now w r else r) (db_rows db)\<rparr>,
            Inr (length (filter (holds_lease i tok) (db_rows db)) > 0)))"

section \<open>Statements on the caller's session\<close>

datatype timer_conflict = Ignore | Extend

text \<open>The keyword arguments of \<open>insert\<close>.\<close>

record insert_args =
  ia_queue :: string
  ia_payload :: bytes
  ia_headers :: "headers option"
  ia_activate_in :: "rat option"
  ia_activate_at :: "time option"
  ia_timer_id :: "string option"
  ia_timer_conflict :: timer_conflict

text \<open>The \<open>next_attempt_at\<close> of the new row: the interval added to the server's clock, the given time,
  or the column's default.\<close>

definition server_next_attempt :: "time \<Rightarrow> rat option \<Rightarrow> time option \<Rightarrow> time" where
  "server_next_attempt now activate_in activate_at =
     (case activate_in of Some d \<Rightarrow> now + d
      | None \<Rightarrow> (case activate_at of Some t \<Rightarrow> t | None \<Rightarrow> now))"

definition new_row :: "nat \<Rightarrow> time \<Rightarrow> string \<Rightarrow> bytes \<Rightarrow> headers option \<Rightarrow> time \<Rightarrow> string option \<Rightarrow>
    outbox_row" where
  "new_row i now q body hdrs next_at tid =
     \<lparr>row_id = i, queue = q, payload = body, headers = hdrs, attempts_count = 0,
      deliveries_count = 0, created_at = now, next_attempt_at = next_at, first_attempt_at = None,
      last_attempt_at = None, acquired_at = None, acquired_token = None, timer_id = tid\<rparr>"

text \<open>The row that the partial unique index finds for \<open>(queue, timer_id)\<close>.\<close>

definition conflicting :: "string \<Rightarrow> string \<Rightarrow> 'a outbox_row_scheme \<Rightarrow> bool" where
  "conflicting q tid r \<longleftrightarrow> queue r = q \<and> timer_id r = Some tid"

text \<open>The SET clause of \<open>ON CONFLICT DO UPDATE\<close>: everything but the greatest only if \<open>later\<close>.\<close>

definition extend_row :: "bytes \<Rightarrow> headers option \<Rightarrow> time \<Rightarrow> 'a outbox_row_scheme \<Rightarrow>
    'a outbox_row_scheme" where
  "extend_row body hdrs next_at r =
     (if next_at > next_attempt_at r
      then r\<lparr>next_attempt_at := max (next_attempt_at r) next_at, payload := body, headers := hdrs,
             attempts_count := 0, first_attempt_at := None, last_attempt_at := None\<rparr>
      else r\<lparr>next_attempt_at := max (next_attempt_at r) next_at\<rparr>)"

text \<open>A value longer than \<open>String(255)\<close> fails the statement.\<close>

definition max_queue_length :: nat where
  "max_queue_length = 255"

definition too_long :: "string \<Rightarrow> string option \<Rightarrow> bool" where
  "too_long q tid \<longleftrightarrow> length q > max_queue_length \<or>
     (case tid of Some t \<Rightarrow> length t > max_queue_length | None \<Rightarrow> False)"

definition data_error :: exn where
  "data_error = py_exn ''DBAPIError'' ''value too long for type character varying(255)''"

text \<open>
  The single-row INSERT of \<open>_build_insert_stmts\<close>: \<open>conflict\<close> is \<open>None\<close> without a timer id. The result
  is the id that RETURNING yields.
\<close>

definition insert_stmt :: "nat \<Rightarrow> time \<Rightarrow> insert_args \<Rightarrow> outbox_db \<Rightarrow>
    outbox_db \<times> (exn + nat option)" where
  "insert_stmt new_id now a db =
     (let next_at = server_next_attempt now (ia_activate_in a) (ia_activate_at a);
          row = new_row new_id now (ia_queue a) (ia_payload a) (ia_headers a) next_at (ia_timer_id a);
          append = (db\<lparr>db_rows := db_rows db @ [row]\<rparr>, Inr (Some new_id))
      in if too_long (ia_queue a) (ia_timer_id a) then (db, Inl data_error)
         else case ia_timer_id a of
           None \<Rightarrow> append
         | Some tid \<Rightarrow>
             (case find (conflicting (ia_queue a) tid) (db_rows db) of
                None \<Rightarrow> append
              | Some r \<Rightarrow>
                  if ia_timer_conflict a = Ignore \<or> acquired_token r \<noteq> None then (db, Inr None)
                  else (db\<lparr>db_rows := map (\<lambda>s. if conflicting (ia_queue a) tid s
                           then extend_row (ia_payload a) (ia_headers a) next_at s else s) (db_rows db)\<rparr>,
                        Inr (Some (row_id r)))))"

text \<open>
  \<open>insert_batch\<close>: one \<open>executemany\<close>, all rows or none; \<open>client_now\<close> is the publisher's clock,
  \<open>ids\<close> what the sequence hands out.
\<close>

definition insert_batch_stmt :: "nat list \<Rightarrow> time \<Rightarrow> time \<Rightarrow> string \<Rightarrow> (bytes \<times> headers option) list \<Rightarrow>
    rat option \<Rightarrow> time option \<Rightarrow> outbox_db \<Rightarrow> outbox_db \<times> (exn + unit)" where
  "insert_batch_stmt ids client_now now q bodies activate_in activate_at db =
     (let next_at = resolve_next_attempt_client_side activate_in activate_at client_now
      in if too_long q None then (db, Inl data_error)
         else (db\<lparr>db_rows := db_rows db @
             map (\<lambda>(i, body, hdrs). new_row i now q body hdrs (case next_at of Some t \<Rightarrow> t | None \<Rightarrow> now) None)
               (zip ids bodies)\<rparr>, Inr ()))"

definition session_type_error :: "string \<Rightarrow> exn" where
  "session_type_error context = py_exn ''TypeError''
     (context @ '' requires an sqlalchemy.ext.asyncio.AsyncSession or AsyncConnection'')"

definition client_cancel_timer :: "bool \<Rightarrow> string \<Rightarrow> string \<Rightarrow> outbox_db \<Rightarrow> outbox_db \<times> (exn + bool)" where
  "client_cancel_timer is_session q tid db =
     (if \<not> is_session then (db, Inl (session_type_error ''OutboxClient.cancel_timer''))
      else let hit = (\<lambda>r. conflicting q tid r \<and> acquired_token r = None)
           in (db\<lparr>db_rows := filter (\<lambda>r. \<not> hit r) (db_rows db)\<rparr>,
               Inr (length (filter hit (db_rows db)) > 0)))"

definition limit_error :: exn where
  "limit_error = py_exn ''ValueError'' ''limit must be >= 1''"

definition client_fetch_unprocessed :: "bool \<Rightarrow> rat \<Rightarrow> string option \<Rightarrow> int \<Rightarrow> outbox_db \<Rightarrow>
    exn + inner_message list" where
  "client_fetch_unprocessed is_session clk q n db =
     (if \<not> is_session then Inl (session_type_error ''OutboxClient.fetch_unprocessed'')
      else if n < 1 then Inl limit_error
      else Inr (map (row_to_message clk) (top_by row_id (nat n)
             (filter (\<lambda>r. case q of Some name \<Rightarrow> queue r = name | None \<Rightarrow> True) (db_rows db)))))"

section \<open>What a fetch claims\<close>

text \<open>A row is available to a fetch: due, and its lease unset or expired.\<close>

definition available :: "time \<Rightarrow> rat \<Rightarrow> string list \<Rightarrow> 'a outbox_row_scheme \<Rightarrow> bool" where
  "available now ttl qs r \<longleftrightarrow> queue r \<in> set qs \<and> next_attempt_at r \<le> now \<and>
     (unleased r \<or> lease_expired (now - ttl) r)"

lemma mset_arrange [simp]: "mset (arrange ns xs) = mset xs"
proof (induction ns xs rule: arrange.induct)
  case (3 n ns x xs)
  let ?i = "n mod length (x # xs)" and ?l = "x # xs"
  have i: "?i < length ?l" by simp
  have "mset ?l = mset (take ?i ?l @ ?l ! ?i # drop (Suc ?i) ?l)"
    using id_take_nth_drop [OF i] by (rule arg_cong)
  with 3 [OF refl] show ?case by (simp add: Let_def)
qed simp_all

lemma arrange_surj: "mset ys = mset xs \<Longrightarrow> \<exists>ns. arrange ns xs = ys"
proof (induction ys arbitrary: xs)
  case (Cons y ys)
  then obtain i where i: "i < length xs" "xs ! i = y"
    by (metis in_set_conv_nth list.set_intros(1) mset_eq_setD)
  have split: "xs = take i xs @ y # drop (Suc i) xs" using id_take_nth_drop [OF i(1)] i(2) by simp
  have "mset ys = mset (take i xs @ drop (Suc i) xs)"
    using Cons.prems arg_cong [OF split, of mset] by simp
  then obtain ns where "arrange ns (take i xs @ drop (Suc i) xs) = ys" using Cons.IH by blast
  moreover obtain z zs where xs: "xs = z # zs" using i(1) by (cases xs) auto
  ultimately have "arrange (i # ns) xs = y # ys" using i by (simp add: Let_def)
  then show ?case by blast
qed simp

lemma unleased_not_expired [simp]: "unleased r \<Longrightarrow> \<not> lease_expired c r"
  by (simp add: unleased_def lease_expired_def)

lemma mset_filter_per_queue:
  "distinct qs \<Longrightarrow> mset (concat (map (\<lambda>q. filter (\<lambda>r. queue r = q \<and> P r) rs) qs)) =
     mset (filter (\<lambda>r. queue r \<in> set qs \<and> P r) rs)"
proof (induction qs)
  case (Cons q qs)
  have "mset (filter (\<lambda>r. queue r \<in> set (q # qs) \<and> P r) rs) =
      mset (filter (\<lambda>r. queue r = q \<and> P r) rs) + mset (filter (\<lambda>r. queue r \<in> set qs \<and> P r) rs)"
    using Cons.prems by (induction rs) auto
  with Cons show ?case by simp
qed simp

lemma mset_branches:
  assumes "distinct qs"
  shows "mset (concat (map (\<lambda>q. filter (\<lambda>r. queue r = q \<and> P r \<and> unleased r \<and> L r) rs) qs) @
       concat (map (\<lambda>q. filter (\<lambda>r. queue r = q \<and> P r \<and> lease_expired c r \<and> L r) rs) qs)) =
     mset (filter (\<lambda>r. queue r \<in> set qs \<and> P r \<and> (unleased r \<or> lease_expired c r) \<and> L r) rs)"
proof -
  have "mset (filter (\<lambda>r. Q r \<and> P r \<and> unleased r \<and> L r) rs) +
      mset (filter (\<lambda>r. Q r \<and> P r \<and> lease_expired c r \<and> L r) rs) =
      mset (filter (\<lambda>r. Q r \<and> P r \<and> (unleased r \<or> lease_expired c r) \<and> L r) rs)" for Q
    by (induction rs) auto
  then show ?thesis by (simp only: mset_append mset_filter_per_queue [OF assms])
qed

lemma ready_eq:
  assumes "distinct (map row_id rs)"
  shows "ready now ttl n locked qs rs =
     top_by fetch_key n (filter (\<lambda>r. available now ttl qs r \<and> row_id r \<notin> locked) rs)"
proof -
  let ?qs = "remdups qs" and ?c = "now - ttl"
  let ?f = "\<lambda>(ls, q). filter (\<lambda>r. queue r = q \<and> next_attempt_at r \<le> now \<and> ls r \<and> row_id r \<notin> locked) rs"
  let ?parts = "map (Pair unleased) ?qs @ map (Pair (lease_expired ?c)) ?qs"
  let ?all = "concat (map ?f ?parts)"
  let ?avail = "filter (\<lambda>r. available now ttl qs r \<and> row_id r \<notin> locked) rs"
  have "mset ?all = mset (filter (\<lambda>r. queue r \<in> set ?qs \<and> next_attempt_at r \<le> now \<and>
        (unleased r \<or> lease_expired ?c r) \<and> row_id r \<notin> locked) rs)"
    using mset_branches [of ?qs "\<lambda>r. next_attempt_at r \<le> now" "\<lambda>r. row_id r \<notin> locked" rs ?c]
    by (simp add: comp_def)
  then have m: "mset ?all = mset ?avail" by (simp add: available_def conj_assoc)
  have d: "distinct ?avail" using assms by (simp add: distinct_map)
  then have "distinct ?all" using mset_eq_imp_distinct_iff [OF m] by simp
  moreover have inj: "inj_on fetch_key (set ?avail)"
    using inj_fetch_key [OF assms] by (rule inj_on_subset) auto
  moreover from this have "inj_on fetch_key (set ?all)" using mset_eq_setD [OF m] by simp
  ultimately have "top_by fetch_key n (concat (map (\<lambda>p. top_by fetch_key n (?f p)) ?parts)) =
      top_by fetch_key n ?all"
    using top_by_concat_map [of fetch_key ?f ?parts n] by blast
  also have "\<dots> = top_by fetch_key n ?avail" by (rule top_by_mset_cong [OF m inj])
  finally show ?thesis by (simp add: ready_def branch_def per_queue_def [abs_def] comp_def)
qed

lemma claim_row_simps [simp]:
  "row_id (claim_row now tok r) = row_id r"
  "queue (claim_row now tok r) = queue r"
  "next_attempt_at (claim_row now tok r) = next_attempt_at r"
  "fetch_key (claim_row now tok r) = fetch_key r"
  "timer_key (claim_row now tok r) = timer_key r"
  "acquired_token (claim_row now tok r) = Some tok"
  "acquired_at (claim_row now tok r) = Some now"
  "deliveries_count (claim_row now tok r) = deliveries_count r + 1"
  "lease_ck (claim_row now tok r)"
  by (simp_all add: claim_row_def fetch_key_def timer_key_def lease_ck_def split: option.split)

lemma claim_rows_ids [simp]: "map row_id (claim_rows now tok ids rs) = map row_id rs"
  by (simp add: claim_rows_def)

lemma filter_claim_rows:
  "filter (\<lambda>r. row_id r \<in> ids) (claim_rows now tok ids rs) =
     map (claim_row now tok) (filter (\<lambda>r. row_id r \<in> ids) rs)"
  by (induction rs) (simp_all add: claim_rows_def)

lemma row_to_message_simps [simp]:
  "row_id (row_to_message clk r) = row_id r"
  "queue (row_to_message clk r) = queue r"
  "payload (row_to_message clk r) = payload r"
  "headers (row_to_message clk r) = headers r"
  "attempts_count (row_to_message clk r) = attempts_count r"
  "deliveries_count (row_to_message clk r) = deliveries_count r"
  "created_at (row_to_message clk r) = created_at r"
  "next_attempt_at (row_to_message clk r) = next_attempt_at r"
  "first_attempt_at (row_to_message clk r) = first_attempt_at r"
  "last_attempt_at (row_to_message clk r) = last_attempt_at r"
  "acquired_at (row_to_message clk r) = acquired_at r"
  "acquired_token (row_to_message clk r) = acquired_token r"
  "timer_id (row_to_message clk r) = timer_id r"
  "outcome (row_to_message clk r) = None"
  "last_exception (row_to_message clk r) = None"
  "retry_strategy (row_to_message clk r) = None"
  "claimed_at_monotonic (row_to_message clk r) = clk"
  "handler_duration_seconds (row_to_message clk r) = None"
  "fetch_key (row_to_message clk r) = fetch_key r"
  by (simp_all add: row_to_message_def outbox_row.defs inner_message.defs fetch_key_def)

text \<open>The rows with the ids of an ordered selection, in any order, sorted again.\<close>

lemma sort_selected:
  assumes "distinct (map row_id rs)" and "set sel \<subseteq> set rs" and "distinct sel"
    and "sorted (map fetch_key sel)"
    and "mset ys = mset (map g (filter (\<lambda>r. row_id r \<in> row_id ` set sel) rs))"
    and "\<And>r. fetch_key (g r) = fetch_key r"
  shows "sort_key fetch_key ys = map g sel"
proof -
  have "row_id r \<in> row_id ` set sel \<longleftrightarrow> r \<in> set sel" if "r \<in> set rs" for r
    using that assms(1,2) by (auto simp: distinct_map inj_on_def)
  then have "filter (\<lambda>r. row_id r \<in> row_id ` set sel) rs = filter (\<lambda>r. r \<in> set sel) rs"
    by (intro filter_cong) auto
  moreover have "mset (filter (\<lambda>r. r \<in> set sel) rs) = mset sel"
    using assms(1-3) by (intro set_eq_iff_mset_eq_distinct [THEN iffD1]) (auto simp: distinct_map)
  ultimately have m: "mset ys = mset (map g sel)" using assms(5) by simp
  have "inj_on fetch_key (set (map g sel))"
    using inj_on_subset [OF inj_fetch_key [OF assms(1)] assms(2)] assms(6)
    by (auto simp: inj_on_def)
  with m have "sort_key fetch_key ys = sort_key fetch_key (map g sel)" by (rule sort_key_mset_cong)
  also have "\<dots> = map g sel"
    using assms(4,6) by (intro sort_key_id_if_sorted) (simp add: comp_def)
  finally show ?thesis .
qed

definition claimed_now :: "time \<Rightarrow> rat \<Rightarrow> nat \<Rightarrow> nat set \<Rightarrow> string list \<Rightarrow> outbox_row list \<Rightarrow> outbox_row list" where
  "claimed_now now ttl n locked qs rs =
     top_by fetch_key n (filter (\<lambda>r. available now ttl qs r \<and> row_id r \<notin> locked) rs)"

lemma fetch_claims_eq:
  assumes "wf_rows (db_rows db)" and "qs \<noteq> []"
  shows "client_fetch order locked True now clk tok qs n ttl db =
    (let sel = claimed_now now ttl n locked qs (db_rows db)
     in (db\<lparr>db_rows := claim_rows now tok (row_id ` set sel) (db_rows db)\<rparr>,
         Inr (map (row_to_message clk \<circ> claim_row now tok) sel)))"
proof -
  let ?rs = "db_rows db"
  let ?sel = "claimed_now now ttl n locked qs ?rs"
  have d: "distinct (map row_id ?rs)" using assms(1) by (simp add: wf_rows_def)
  have r: "ready now ttl n locked qs ?rs = ?sel" by (simp add: ready_eq [OF d] claimed_now_def)
  let ?g = "row_to_message clk \<circ> claim_row now tok"
  let ?ys = "map (row_to_message clk) (arrange order (filter (\<lambda>r. row_id r \<in> row_id ` set ?sel)
      (claim_rows now tok (row_id ` set ?sel) ?rs)))"
  have "mset ?ys = mset (map ?g (filter (\<lambda>r. row_id r \<in> row_id ` set ?sel) ?rs))"
    by (simp only: mset_map mset_arrange filter_claim_rows multiset.map_comp)
  then have "sort_key fetch_key ?ys = map ?g ?sel"
  proof (rule sort_selected [OF d, rotated 3])
    show "set ?sel \<subseteq> set ?rs" using set_top_by by (fastforce simp: claimed_now_def)
    show "distinct ?sel" using d by (auto simp: claimed_now_def distinct_map intro!: distinct_top_by)
    show "sorted (map fetch_key ?sel)" by (simp add: claimed_now_def sorted_top_by)
  qed simp
  then show ?thesis using assms(2) by (simp add: client_fetch_def fetch_stmt_def r Let_def)
qed

text \<open>
  Property C18. The claim statement with its two LATERAL branches per queue and the client's re-sort
  of the unordered result amount to one ordered, limited scan: a fetch on a live connection claims
  exactly the first \<open>n\<close> available unlocked rows in the order of \<open>(next_attempt_at, id)\<close>, stamps the
  lease on them and touches nothing else, and returns them in that order. A row left behind is
  unavailable, locked, or due no earlier than every claimed one. Duplicate queue names do not matter.
\<close>

theorem fetch_claims_in_order:
  assumes "wf_rows (db_rows db)" and "qs \<noteq> []"
    and "client_fetch order locked True now clk tok qs n ttl db = (db', res)"
  shows "\<exists>sel. res = Inr (map (row_to_message clk \<circ> claim_row now tok) sel) \<and>
    db' = db\<lparr>db_rows := map (\<lambda>r. if r \<in> set sel then claim_row now tok r else r) (db_rows db)\<rparr> \<and>
    sorted_wrt (\<lambda>r s. (next_attempt_at r, row_id r) < (next_attempt_at s, row_id s)) sel \<and>
    set sel \<subseteq> {r \<in> set (db_rows db). available now ttl qs r \<and> row_id r \<notin> locked} \<and>
    length sel = min n (length (filter (\<lambda>r. available now ttl qs r \<and> row_id r \<notin> locked) (db_rows db))) \<and>
    (\<forall>r \<in> set (db_rows db). available now ttl qs r \<and> row_id r \<notin> locked \<and> r \<notin> set sel \<longrightarrow>
       (\<forall>s \<in> set sel. (next_attempt_at s, row_id s) < (next_attempt_at r, row_id r)))"
proof -
  let ?rs = "db_rows db" and ?P = "\<lambda>r. available now ttl qs r \<and> row_id r \<notin> locked"
  let ?sel = "claimed_now now ttl n locked qs ?rs"
  have d: "distinct (map row_id ?rs)" using assms(1) by (simp add: wf_rows_def)
  have sub: "set ?sel \<subseteq> {r \<in> set ?rs. ?P r}" by (auto simp: claimed_now_def dest: set_top_by [THEN subsetD])
  have inj: "inj_on fetch_key (set ?rs)" by (rule inj_fetch_key [OF d])
  have "distinct ?sel" using d by (auto simp: claimed_now_def distinct_map intro!: distinct_top_by)
  then have "distinct (map fetch_key ?sel)"
    using sub inj by (auto simp: distinct_map intro: inj_on_subset)
  then have "sorted_wrt (<) (map fetch_key ?sel)"
    by (simp add: claimed_now_def sorted_top_by strict_sorted_iff)
  then have srt: "sorted_wrt (\<lambda>r s. fetch_key r < fetch_key s) ?sel" by (simp add: sorted_wrt_map)
  have rest: "fetch_key s < fetch_key r" if "r \<in> set ?rs" "?P r" "r \<notin> set ?sel" "s \<in> set ?sel" for r s
  proof -
    have "fetch_key s \<le> fetch_key r" using that top_by_least [of s fetch_key n "filter ?P ?rs" r]
      by (simp add: claimed_now_def)
    moreover have "fetch_key s \<noteq> fetch_key r" using that sub inj by (metis (lifting) inj_onD mem_Collect_eq subsetD)
    ultimately show ?thesis by simp
  qed
  have "row_id r \<in> row_id ` set ?sel \<longleftrightarrow> r \<in> set ?sel" if "r \<in> set ?rs" for r
    using that sub inj_row_id [OF assms(1)] by blast
  then have "claim_rows now tok (row_id ` set ?sel) ?rs =
      map (\<lambda>r. if r \<in> set ?sel then claim_row now tok r else r) ?rs"
    by (simp add: claim_rows_def)
  then show ?thesis
    using fetch_claims_eq [OF assms(1,2), of order locked now clk tok n ttl] assms(3) sub srt rest
    by (intro exI [of _ ?sel]) (auto simp: Let_def fetch_key_def claimed_now_def length_top_by)
qed

section \<open>Every statement keeps the table well formed\<close>

lemma reschedule_row_simps [simp]:
  "row_id (reschedule_row now w r) = row_id r"
  "queue (reschedule_row now w r) = queue r"
  "payload (reschedule_row now w r) = payload r"
  "timer_key (reschedule_row now w r) = timer_key r"
  "acquired_token (reschedule_row now w r) = None"
  "deliveries_count (reschedule_row now w r) = deliveries_count r"
  "lease_ck (reschedule_row now w r)"
  by (simp_all add: reschedule_row_def timer_key_def lease_ck_def split: option.split)

lemma extend_row_simps [simp]:
  "row_id (extend_row body hdrs t r) = row_id r"
  "queue (extend_row body hdrs t r) = queue r"
  "timer_id (extend_row body hdrs t r) = timer_id r"
  "timer_key (extend_row body hdrs t r) = timer_key r"
  "acquired_token (extend_row body hdrs t r) = acquired_token r"
  "acquired_at (extend_row body hdrs t r) = acquired_at r"
  "lease_ck (extend_row body hdrs t r) = lease_ck r"
  "next_attempt_at (extend_row body hdrs t r) = max (next_attempt_at r) t"
  by (simp_all add: extend_row_def timer_key_def lease_ck_def split: option.split)

lemma new_row_simps [simp]:
  "row_id (new_row i now q body hdrs t tid) = i"
  "queue (new_row i now q body hdrs t tid) = q"
  "lease_ck (new_row i now q body hdrs t tid)"
  "acquired_token (new_row i now q body hdrs t tid) = None"
  "next_attempt_at (new_row i now q body hdrs t tid) = t"
  "timer_key (new_row i now q body hdrs t tid) = map_option (Pair q) tid"
  by (simp_all add: new_row_def lease_ck_def timer_key_def split: option.split)

lemma conflicting_timer_key: "conflicting q tid r \<longleftrightarrow> timer_key r = Some (q, tid)"
  by (auto simp: conflicting_def timer_key_def split: option.split)

lemma wf_claim_rows [wf_intros]: "wf_rows rs \<Longrightarrow> wf_rows (claim_rows now tok ids rs)"
  unfolding claim_rows_def by (rule wf_rows_map) auto

lemma wf_client_fetch [wf_intros]:
  "wf_rows (db_rows db) \<Longrightarrow>
     wf_rows (db_rows (fst (client_fetch order locked conn now clk tok qs n ttl db)))"
  by (auto simp: client_fetch_def fetch_stmt_def Let_def intro: wf_claim_rows)

lemma wf_client_delete [wf_intros]:
  "wf_rows (db_rows db) \<Longrightarrow>
     wf_rows (db_rows (fst (client_delete_with_lease has_dlq conn now i tok ctx db)))"
  by (auto simp: client_delete_with_lease_def dlq_cte_def delete_stmt_def Let_def
      intro: wf_rows_filter split: option.split)

lemma wf_client_delete_batch [wf_intros]:
  "wf_rows (db_rows db) \<Longrightarrow> wf_rows (db_rows (fst (client_delete_batch conn pairs db)))"
  by (auto simp: client_delete_batch_def Let_def intro: wf_rows_filter)

lemma wf_client_mark_pending [wf_intros]:
  "wf_rows (db_rows db) \<Longrightarrow> wf_rows (db_rows (fst (client_mark_pending conn now i tok w db)))"
  by (auto simp: client_mark_pending_def Let_def intro!: wf_rows_map)

lemma wf_client_cancel_timer [wf_intros]:
  "wf_rows (db_rows db) \<Longrightarrow> wf_rows (db_rows (fst (client_cancel_timer is_session q tid db)))"
  by (auto simp: client_cancel_timer_def Let_def intro: wf_rows_filter)

lemma wf_insert_stmt [wf_intros]:
  assumes "wf_rows (db_rows db)" and "new_id \<notin> row_id ` set (db_rows db)"
  shows "wf_rows (db_rows (fst (insert_stmt new_id now a db)))"
proof (cases "ia_timer_id a")
  case None
  then show ?thesis using assms by (auto simp: insert_stmt_def Let_def intro: wf_rows_append)
next
  case (Some tid)
  show ?thesis
  proof (cases "find (conflicting (ia_queue a) tid) (db_rows db)")
    case None
    then have "Some (ia_queue a, tid) \<notin> timer_key ` set (db_rows db)"
      by (auto simp: find_None_iff conflicting_timer_key)
    then show ?thesis using assms Some None
      by (auto simp: insert_stmt_def Let_def image_iff intro!: wf_rows_append)
  next
    case (Some r)
    then show ?thesis using assms \<open>ia_timer_id a = Some tid\<close>
      by (auto simp: insert_stmt_def Let_def intro!: wf_rows_map)
  qed
qed

lemma wf_append_new_rows:
  assumes "wf_rows rs" and "distinct (map fst xs)" and "fst ` set xs \<inter> row_id ` set rs = {}"
    and "\<And>x. row_id (f x) = fst x" and "\<And>x. lease_ck (f x)" and "\<And>x. timer_key (f x) = None"
  shows "wf_rows (rs @ map f xs)"
  using assms(2,3)
proof (induction xs rule: rev_induct)
  case Nil
  then show ?case using assms(1) by simp
next
  case (snoc x xs)
  then have "wf_rows (rs @ map f xs)" by auto
  then have "wf_rows ((rs @ map f xs) @ [f x])"
    using snoc.prems assms(4-6) by (intro wf_rows_append) (auto intro: rev_image_eqI)
  then show ?case by simp
qed

lemma wf_insert_batch [wf_intros]:
  assumes "wf_rows (db_rows db)" and "distinct ids" and "set ids \<inter> row_id ` set (db_rows db) = {}"
  shows "wf_rows (db_rows (fst (insert_batch_stmt ids cnow now q bodies ai aa db)))"
proof -
  have "distinct (map fst (zip ids bodies))" by (simp add: map_fst_zip_take assms(2))
  moreover have "fst ` set (zip ids bodies) \<inter> row_id ` set (db_rows db) = {}"
    using assms(3) set_zip_leftD by fastforce
  ultimately show ?thesis
    by (auto simp: insert_batch_stmt_def Let_def assms(1) intro!: wf_append_new_rows)
qed

section \<open>A sample table\<close>

text \<open>Two due rows of queue \<open>q\<close>, one of them leased since time 90, and one row due later.\<close>

definition sample_db :: outbox_db where
  "sample_db = \<lparr>db_rows = [new_row 1 0 ''q'' [1] None 5 (Some ''t''),
     claim_row 90 7 (new_row 2 0 ''q'' [2] None 3 None), new_row 3 0 ''q'' [3] None 200 None],
     db_dlq = []\<rparr>"

lemma sample_db_wf: "wf_rows (db_rows sample_db)"
  by (simp add: sample_db_def wf_rows_Cons)

theorem fetch_claims_in_order_witness:
  "wf_rows (db_rows sample_db) \<and> (\<exists>sel.
     snd (client_fetch [] {} True 100 0 8 [''q'', ''q''] 5 60 sample_db) =
       Inr (map (row_to_message 0 \<circ> claim_row 100 8) sel) \<and> length sel = 1)"
proof -
  have "filter (\<lambda>r. available 100 60 [''q'', ''q''] r \<and> row_id r \<notin> {}) (db_rows sample_db) =
      [new_row 1 0 ''q'' [1] None 5 (Some ''t'')]"
    by (simp add: sample_db_def available_def unleased_def lease_expired_def)
  then show ?thesis
    using fetch_claims_in_order [OF sample_db_wf _ prod.collapse [symmetric],
        of "[''q'', ''q'']" "[]" "{}" 100 0 8 5 60] sample_db_wf
    by auto
qed

end
