(* ===== verification/Client_Contract.thy ===== *)
theory Client_Contract
  imports Client
begin

text \<open>
  \<open>AbstractOutboxClient\<close> as a contract. The subscriber holds either the Postgres client or the
  in-memory one; both are a table of operations on a state of their own. The locale states what the
  subscriber relies on, over the rows the state holds: a fetch leases available rows and returns
  them, and a terminal write changes exactly the row that still carries the lease.
\<close>

record 's client_ops =
  op_fetch :: "bool \<Rightarrow> time \<Rightarrow> rat \<Rightarrow> token \<Rightarrow> string list \<Rightarrow> nat \<Rightarrow> rat \<Rightarrow> 's \<Rightarrow>
    's \<times> (exn + inner_message list)"
  op_delete :: "bool \<Rightarrow> time \<Rightarrow> nat \<Rightarrow> token \<Rightarrow> dlq_injected option \<Rightarrow> 's \<Rightarrow> 's \<times> (exn + bool)"
  op_delete_batch :: "bool \<Rightarrow> (nat \<times> token) list \<Rightarrow> 's \<Rightarrow> 's \<times> (exn + (nat \<times> token) set)"
  op_mark_pending :: "bool \<Rightarrow> time \<Rightarrow> nat \<Rightarrow> token \<Rightarrow> retry_write \<Rightarrow> 's \<Rightarrow> 's \<times> (exn + bool)"

text \<open>The effect of a deletion on rows and archive, shared by both clients.\<close>

definition held :: "(nat \<times> token) list \<Rightarrow> outbox_row list \<Rightarrow> outbox_row list" where
  "held pairs rs = filter (\<lambda>r. list_ex (\<lambda>(i, tok). holds_lease i tok r) pairs) rs"

definition not_held :: "(nat \<times> token) list \<Rightarrow> outbox_row list \<Rightarrow> outbox_row list" where
  "not_held pairs rs = filter (\<lambda>r. \<not> list_ex (\<lambda>(i, tok). holds_lease i tok r) pairs) rs"

definition archived :: "time \<Rightarrow> dlq_injected option \<Rightarrow> outbox_row list \<Rightarrow> dlq_row list" where
  "archived now ctx rs = (case ctx of None \<Rightarrow> [] | Some c \<Rightarrow> map (dlq_archive now c) rs)"

definition rescheduled :: "time \<Rightarrow> nat \<Rightarrow> token \<Rightarrow> retry_write \<Rightarrow> outbox_row list \<Rightarrow> outbox_row list" where
  "rescheduled now i tok w rs = map (\<lambda>r. if holds_lease i tok r then reschedule_row now w r else r) rs"

locale leased_store =
  fixes ops :: "'s client_ops"
    and rows :: "'s \<Rightarrow> outbox_row list"
    and dlqs :: "'s \<Rightarrow> dlq_row list"
    and inv :: "'s \<Rightarrow> bool"
    and live :: "bool \<Rightarrow> bool"
    and has_dlq :: bool
  assumes inv_wf: "inv s \<Longrightarrow> wf_rows (rows s)"
    and fetch_law: "inv s \<Longrightarrow> live c \<Longrightarrow> op_fetch ops c now clk tok qs n ttl s = (s', rf) \<Longrightarrow>
      inv s' \<and> dlqs s' = dlqs s \<and>
      (\<exists>sel. distinct sel \<and> set sel \<subseteq> {r \<in> set (rows s). available now ttl qs r} \<and> length sel \<le> n \<and>
         rows s' = claim_rows now tok (row_id ` set sel) (rows s) \<and>
         rf = Inr (map (row_to_message clk \<circ> claim_row now tok) sel))"
    and delete_law: "inv s \<Longrightarrow> live c \<Longrightarrow> ctx = None \<or> has_dlq \<Longrightarrow>
      op_delete ops c now i tok ctx s = (s', res) \<Longrightarrow>
      inv s' \<and> rows s' = not_held [(i, tok)] (rows s) \<and>
      dlqs s' = dlqs s @ archived now ctx (held [(i, tok)] (rows s)) \<and>
      res = Inr (held [(i, tok)] (rows s) \<noteq> [])"
    and delete_batch_law: "inv s \<Longrightarrow> live c \<Longrightarrow> op_delete_batch ops c pairs s = (s', rb) \<Longrightarrow>
      inv s' \<and> rows s' = not_held pairs (rows s) \<and> dlqs s' = dlqs s \<and>
      rb = Inr ((\<lambda>r. (row_id r, the (acquired_token r))) ` set (held pairs (rows s)))"
    and mark_pending_law: "inv s \<Longrightarrow> live c \<Longrightarrow> op_mark_pending ops c now i tok w s = (s', res) \<Longrightarrow>
      inv s' \<and> rows s' = rescheduled now i tok w (rows s) \<and> dlqs s' = dlqs s \<and>
      res = Inr (held [(i, tok)] (rows s) \<noteq> [])"
begin

text \<open>A write whose lease was reclaimed finds nothing, changes nothing and reports so.\<close>

lemma stale_delete:
  assumes "inv s" "live c" "ctx = None \<or> has_dlq" "held [(i, tok)] (rows s) = []"
    and "op_delete ops c now i tok ctx s = (s', res)"
  shows "rows s' = rows s \<and> dlqs s' = dlqs s \<and> res = Inr False"
  using delete_law [OF assms(1-3,5)] assms(4)
  by (auto simp: held_def not_held_def archived_def filter_empty_conv filter_id_conv
      split: option.split)

lemma stale_mark_pending:
  assumes "inv s" "live c" "held [(i, tok)] (rows s) = []"
    and "op_mark_pending ops c now i tok w s = (s', res)"
  shows "rows s' = rows s \<and> dlqs s' = dlqs s \<and> res = Inr False"
  using mark_pending_law [OF assms(1,2,4)] assms(3)
  by (auto simp: held_def rescheduled_def filter_empty_conv intro!: map_idI)

text \<open>The lease a fetch hands out is the one the row carries afterwards.\<close>

lemma fetched_hold_lease:
  assumes "inv s" "live c" "op_fetch ops c now clk tok qs n ttl s = (s', Inr ms)" and "m \<in> set ms"
  shows "acquired_token m = Some tok \<and> held [(row_id m, tok)] (rows s') \<noteq> []"
proof -
  obtain sel where sel: "set sel \<subseteq> {r \<in> set (rows s). available now ttl qs r}"
      "rows s' = claim_rows now tok (row_id ` set sel) (rows s)"
      "ms = map (row_to_message clk \<circ> claim_row now tok) sel"
    using fetch_law [OF assms(1-3)] by auto
  then obtain r where r: "r \<in> set sel" "m = row_to_message clk (claim_row now tok r)"
    using assms(4) by auto
  then have "claim_row now tok r \<in> set (rows s')" using sel(1,2) by (auto simp: claim_rows_def)
  moreover have "holds_lease (row_id m) tok (claim_row now tok r)" using r by (simp add: holds_lease_def)
  ultimately have "held [(row_id m, tok)] (rows s') \<noteq> []" by (auto simp: held_def filter_empty_conv)
  then show ?thesis using r by simp
qed

end

section \<open>The Postgres client keeps the contract\<close>

definition real_ops :: "nat list \<Rightarrow> nat set \<Rightarrow> bool \<Rightarrow> outbox_db client_ops" where
  "real_ops order locked has_dlq = \<lparr>op_fetch = client_fetch order locked,
     op_delete = client_delete_with_lease has_dlq, op_delete_batch = client_delete_batch,
     op_mark_pending = client_mark_pending\<rparr>"

definition db_inv :: "outbox_db \<Rightarrow> bool" where
  "db_inv db \<longleftrightarrow> wf_rows (db_rows db)"

lemma claimed_now_props:
  assumes "wf_rows rs"
  shows "distinct (claimed_now now ttl n locked qs rs) \<and>
    set (claimed_now now ttl n locked qs rs) \<subseteq> {r \<in> set rs. available now ttl qs r \<and> row_id r \<notin> locked} \<and>
    length (claimed_now now ttl n locked qs rs) \<le> n"
  using assms set_top_by [of fetch_key n "filter (\<lambda>r. available now ttl qs r \<and> row_id r \<notin> locked) rs"]
  by (auto simp: claimed_now_def length_top_by wf_rows_def distinct_map intro!: distinct_top_by)

lemma real_fetch_law:
  assumes "wf_rows (db_rows db)"
    and "client_fetch order locked True now clk tok qs n ttl db = (db', res)"
  shows "wf_rows (db_rows db') \<and> db_dlq db' = db_dlq db \<and>
    (\<exists>sel. distinct sel \<and> set sel \<subseteq> {r \<in> set (db_rows db). available now ttl qs r} \<and> length sel \<le> n \<and>
       db_rows db' = claim_rows now tok (row_id ` set sel) (db_rows db) \<and>
       res = Inr (map (row_to_message clk \<circ> claim_row now tok) sel))"
proof (cases "qs = []")
  case True
  with assms show ?thesis
    by (auto simp: client_fetch_def claim_rows_def intro!: exI [of _ "[]"])
next
  case False
  let ?sel = "claimed_now now ttl n locked qs (db_rows db)"
  have "db' = db\<lparr>db_rows := claim_rows now tok (row_id ` set ?sel) (db_rows db)\<rparr>"
    and "res = Inr (map (row_to_message clk \<circ> claim_row now tok) ?sel)"
    using fetch_claims_eq [OF assms(1) False, of order locked now clk tok n ttl] assms(2)
    by (simp_all add: Let_def)
  with claimed_now_props [OF assms(1), of now ttl n locked qs] show ?thesis
    by (intro conjI exI [of _ ?sel]) (auto intro: wf_claim_rows assms(1))
qed

interpretation real: leased_store "real_ops order locked d" db_rows db_dlq db_inv "\<lambda>c. c" d
  for order locked d
proof (unfold_locales, goal_cases)
  case (2 s c now clk tok qs n ttl s' res)
  then show ?case using real_fetch_law [of s order locked now clk tok qs n ttl s' res]
    by (simp add: db_inv_def real_ops_def)
next
  case (3 s c ctx now i tok s' res)
  then show ?case
    by (auto simp: db_inv_def real_ops_def client_delete_with_lease_def dlq_cte_def delete_stmt_def
        held_def not_held_def archived_def Let_def length_greater_0_conv [symmetric] wf_rows_filter
        simp del: length_greater_0_conv split: option.splits)
next
  case (4 s c pairs s' res)
  then show ?case
    by (cases "pairs = []")
      (auto simp: db_inv_def real_ops_def client_delete_batch_def held_def not_held_def Let_def wf_rows_filter)
next
  case (5 s c now i tok w s' res)
  then show ?case using wf_client_mark_pending [of s c now i tok w]
    by (auto simp: db_inv_def real_ops_def client_mark_pending_def held_def rescheduled_def)
qed (simp add: db_inv_def)

end
