(* ===== verification/Fake_Client.thy ===== *)
theory Fake_Client
  imports Client_Contract
begin

text \<open>
  \<open>FakeOutboxClient\<close> (\<open>faststream_outbox/testing.py\<close>): the in-memory client behind the test broker.
  Its rows are a Python list of mutable objects that no other variable keeps, so a loop that changes
  the first match in place is a function on the list. The main result is that, as long as no other
  transaction holds locks, every operation does to the rows what the SQL client does.
\<close>

record fake_state =
  fk_rows :: "outbox_row list"
  fk_next_id :: nat
  fk_dlq :: "dlq_row list"
  fk_dispatchable :: "(nat \<times> string) list"

definition fake_init :: fake_state where
  "fake_init = \<lparr>fk_rows = [], fk_next_id = 1, fk_dlq = [], fk_dispatchable = []\<rparr>"

section \<open>Scanning for the first match\<close>

text \<open>\<open>for row in rows: if P(row): change(row); break\<close>, and the same with \<open>del\<close>.\<close>

fun update_first :: "('a \<Rightarrow> bool) \<Rightarrow> ('a \<Rightarrow> 'a) \<Rightarrow> 'a list \<Rightarrow> 'a list" where
  "update_first P f [] = []"
| "update_first P f (x # xs) = (if P x then f x # xs else x # update_first P f xs)"

fun delete_first :: "('a \<Rightarrow> bool) \<Rightarrow> 'a list \<Rightarrow> 'a list" where
  "delete_first P [] = []"
| "delete_first P (x # xs) = (if P x then xs else x # delete_first P xs)"

definition lease_token_matches :: "token option \<Rightarrow> token option \<Rightarrow> bool" where
  "lease_token_matches row_token claim_token \<longleftrightarrow> claim_token \<noteq> None \<and> row_token = claim_token"

section \<open>Fetch\<close>

definition claim_fake_row :: "time \<Rightarrow> token \<Rightarrow> outbox_row \<Rightarrow> outbox_row" where
  "claim_fake_row now tok r = r\<lparr>acquired_at := Some now, acquired_token := Some tok,
     deliveries_count := deliveries_count r + 1\<rparr>"

definition to_inner :: "rat \<Rightarrow> outbox_row \<Rightarrow> inner_message" where
  "to_inner clk r = outbox_row.extend r (inner_message.fields None None None clk None)"

definition fake_eligible :: "time \<Rightarrow> rat \<Rightarrow> string list \<Rightarrow> outbox_row \<Rightarrow> bool" where
  "fake_eligible now ttl qs r \<longleftrightarrow> queue r \<in> set qs \<and> next_attempt_at r \<le> now \<and>
     (acquired_token r = None \<or> (case acquired_at r of Some t \<Rightarrow> t < now - ttl | None \<Rightarrow> False))"

text \<open>The loop over the slice: each row object is claimed in place and copied out.\<close>

fun claim_loop :: "time \<Rightarrow> token \<Rightarrow> rat \<Rightarrow> outbox_row list \<Rightarrow> outbox_row list \<Rightarrow> inner_message list \<Rightarrow>
    outbox_row list \<times> inner_message list" where
  "claim_loop now tok clk [] rs out = (rs, out)"
| "claim_loop now tok clk (r # sel) rs out =
     claim_loop now tok clk sel (update_first (\<lambda>x. row_id x = row_id r) (claim_fake_row now tok) rs)
       (out @ [to_inner clk (claim_fake_row now tok r)])"

definition fake_fetch :: "bool \<Rightarrow> time \<Rightarrow> rat \<Rightarrow> token \<Rightarrow> string list \<Rightarrow> nat \<Rightarrow> rat \<Rightarrow> fake_state \<Rightarrow>
    fake_state \<times> (exn + inner_message list)" where
  "fake_fetch conn now clk tok qs n ttl s =
     (if qs = [] then (s, Inr [])
      else let eligible = sort_key (\<lambda>r. (next_attempt_at r, row_id r))
                  (filter (fake_eligible now ttl qs) (fk_rows s));
               (rs', out) = claim_loop now tok clk (take n eligible) (fk_rows s) []
           in (s\<lparr>fk_rows := rs'\<rparr>, Inr out))"

section \<open>Terminal writes\<close>

definition fake_delete :: "bool \<Rightarrow> bool \<Rightarrow> time \<Rightarrow> nat \<Rightarrow> token \<Rightarrow> dlq_injected option \<Rightarrow> fake_state \<Rightarrow>
    fake_state \<times> (exn + bool)" where
  "fake_delete dlq_enabled conn now i tok ctx_opt s =
     (let hit = (\<lambda>r. row_id r = i \<and> lease_token_matches (acquired_token r) (Some tok))
      in case find hit (fk_rows s) of
           None \<Rightarrow> (s, Inr False)
         | Some r \<Rightarrow>
             (case ctx_opt of
                Some ctx \<Rightarrow>
                  if \<not> dlq_enabled then (s, Inl no_dlq_table_error)
                  else (s\<lparr>fk_rows := delete_first hit (fk_rows s),
                          fk_dlq := fk_dlq s @ [dlq_archive now ctx r]\<rparr>, Inr True)
              | None \<Rightarrow> (s\<lparr>fk_rows := delete_first hit (fk_rows s)\<rparr>, Inr True)))"

text \<open>\<open>delete_batch_with_lease\<close> scans the indices downwards, so a deletion moves no unscanned row.\<close>

fun delete_wanted :: "(nat \<times> token) set \<Rightarrow> nat \<Rightarrow> outbox_row list \<Rightarrow> (nat \<times> token) set \<Rightarrow>
    outbox_row list \<times> (nat \<times> token) set" where
  "delete_wanted wanted 0 rs deleted = (rs, deleted)"
| "delete_wanted wanted (Suc i) rs deleted =
     (case acquired_token (rs ! i) of
        Some tok \<Rightarrow>
          if (row_id (rs ! i), tok) \<in> wanted
          then delete_wanted wanted i (take i rs @ drop (Suc i) rs) (insert (row_id (rs ! i), tok) deleted)
          else delete_wanted wanted i rs deleted
      | None \<Rightarrow> delete_wanted wanted i rs deleted)"

definition fake_delete_batch :: "bool \<Rightarrow> (nat \<times> token) list \<Rightarrow> fake_state \<Rightarrow>
    fake_state \<times> (exn + (nat \<times> token) set)" where
  "fake_delete_batch conn pairs s =
     (let (rs', deleted) = delete_wanted (set pairs) (length (fk_rows s)) (fk_rows s) {}
      in (s\<lparr>fk_rows := rs'\<rparr>, Inr deleted))"

definition fake_mark_pending :: "bool \<Rightarrow> time \<Rightarrow> nat \<Rightarrow> token \<Rightarrow> retry_write \<Rightarrow> fake_state \<Rightarrow>
    fake_state \<times> (exn + bool)" where
  "fake_mark_pending conn now i tok w s =
     (let hit = (\<lambda>r. row_id r = i \<and> lease_token_matches (acquired_token r) (Some tok));
          write = (\<lambda>r. r\<lparr>next_attempt_at := now + max 0 (rw_delay w),
             attempts_count := rw_attempts_count w, first_attempt_at := rw_first_attempt_at w,
             last_attempt_at := rw_last_attempt_at w, acquired_at := None, acquired_token := None\<rparr>)
      in case find hit (fk_rows s) of
           None \<Rightarrow> (s, Inr False)
         | Some r \<Rightarrow> (s\<lparr>fk_rows := update_first hit write (fk_rows s)\<rparr>, Inr True))"

section \<open>Inserts\<close>

text \<open>\<open>_validate_like_postgres\<close>; headers of strings always serialise to JSON.\<close>

definition validate_like_postgres :: "string \<Rightarrow> string option \<Rightarrow> exn option" where
  "validate_like_postgres q tid = first_error
     [(length q > max_queue_length, py_exn ''ValueError'' ''queue must be at most 255 characters''),
      (case tid of Some t \<Rightarrow> length t > max_queue_length | None \<Rightarrow> False,
       py_exn ''ValueError'' ''timer_id must be at most 255 characters'')]"

definition fake_append :: "time \<Rightarrow> string \<Rightarrow> bytes \<Rightarrow> headers option \<Rightarrow> time option \<Rightarrow> string option \<Rightarrow>
    fake_state \<Rightarrow> fake_state \<times> outbox_row" where
  "fake_append now q body hdrs next_at tid s =
     (let row = \<lparr>row_id = fk_next_id s, queue = q, payload = body, headers = hdrs, attempts_count = 0,
            deliveries_count = 0, created_at = now,
            next_attempt_at = (case next_at of Some t \<Rightarrow> t | None \<Rightarrow> now), first_attempt_at = None,
            last_attempt_at = None, acquired_at = None, acquired_token = None, timer_id = tid\<rparr>
      in (s\<lparr>fk_rows := fk_rows s @ [row], fk_next_id := fk_next_id s + 1\<rparr>, row))"

definition fake_store :: "time \<Rightarrow> string \<Rightarrow> bytes \<Rightarrow> headers option \<Rightarrow> time option \<Rightarrow> string option \<Rightarrow>
    fake_state \<Rightarrow> fake_state \<times> outbox_row option" where
  "fake_store now q body hdrs next_at tid s =
     (if tid \<noteq> None \<and> list_ex (\<lambda>r. queue r = q \<and> timer_id r = tid) (fk_rows s) then (s, None)
      else let (s', row) = fake_append now q body hdrs next_at tid s in (s', Some row))"

definition fake_extend :: "bytes \<Rightarrow> headers option \<Rightarrow> time \<Rightarrow> outbox_row \<Rightarrow> outbox_row \<times> nat option" where
  "fake_extend body hdrs next_at r =
     (if acquired_token r \<noteq> None then (r, None)
      else (if next_at > next_attempt_at r
            then r\<lparr>next_attempt_at := next_at, payload := body, headers := hdrs, attempts_count := 0,
                   first_attempt_at := None, last_attempt_at := None\<rparr>
            else r, Some (row_id r)))"

definition fake_insert :: "time \<Rightarrow> insert_args \<Rightarrow> fake_state \<Rightarrow> fake_state \<times> (exn + nat option)" where
  "fake_insert now a s =
     (case validate_like_postgres (ia_queue a) (ia_timer_id a) of
        Some e \<Rightarrow> (s, Inl e)
      | None \<Rightarrow>
          let next_at = (case resolve_next_attempt_client_side (ia_activate_in a) (ia_activate_at a) now of
                Some t \<Rightarrow> t | None \<Rightarrow> now);
              same = (\<lambda>r. ia_timer_id a \<noteq> None \<and> queue r = ia_queue a \<and> timer_id r = ia_timer_id a)
          in case (find same (fk_rows s), ia_timer_conflict a) of
               (Some live, Extend) \<Rightarrow>
                 let (live', res) = fake_extend (ia_payload a) (ia_headers a) next_at live
                 in (s\<lparr>fk_rows := update_first same (\<lambda>_. live') (fk_rows s)\<rparr>, Inr res)
             | _ \<Rightarrow>
                 (case fake_store now (ia_queue a) (ia_payload a) (ia_headers a) (Some next_at) (ia_timer_id a) s of
                    (s', None) \<Rightarrow> (s', Inr None)
                  | (s', Some row) \<Rightarrow>
                      (s'\<lparr>fk_dispatchable := fk_dispatchable s' @ [(row_id row, queue row)]\<rparr>,
                       Inr (Some (row_id row)))))"

fun fake_append_all :: "time \<Rightarrow> string \<Rightarrow> time option \<Rightarrow> (bytes \<times> headers option) list \<Rightarrow> fake_state \<Rightarrow> fake_state" where
  "fake_append_all now q next_at [] s = s"
| "fake_append_all now q next_at ((body, hdrs) # bs) s =
     (let (s', row) = fake_append now q body hdrs next_at None s
      in fake_append_all now q next_at bs
           (s'\<lparr>fk_dispatchable := fk_dispatchable s' @ [(row_id row, queue row)]\<rparr>))"

definition fake_insert_batch :: "time \<Rightarrow> string \<Rightarrow> (bytes \<times> headers option) list \<Rightarrow> rat option \<Rightarrow>
    time option \<Rightarrow> fake_state \<Rightarrow> fake_state \<times> (exn + unit)" where
  "fake_insert_batch now q bodies activate_in activate_at s =
     (case (if bodies = [] then None else validate_like_postgres q None) of
        Some e \<Rightarrow> (s, Inl e)
      | None \<Rightarrow> (fake_append_all now q (resolve_next_attempt_client_side activate_in activate_at now) bodies s,
                 Inr ()))"

text \<open>\<open>feed\<close>; \<open>aware\<close> says whether the given time carries a timezone.\<close>

definition fake_feed :: "time \<Rightarrow> string \<Rightarrow> bytes \<Rightarrow> headers option \<Rightarrow> (time \<times> bool) option \<Rightarrow>
    string option \<Rightarrow> fake_state \<Rightarrow> fake_state \<times> (exn + nat option)" where
  "fake_feed now q body hdrs next_at tid s =
     (if (case next_at of Some (t, aware) \<Rightarrow> \<not> aware | None \<Rightarrow> False)
      then (s, Inl (py_exn ''ValueError'' ''feed() requires next_attempt_at to be timezone-aware''))
      else case validate_like_postgres q tid of
        Some e \<Rightarrow> (s, Inl e)
      | None \<Rightarrow> (case fake_store now q body hdrs (map_option fst next_at) tid s of
                   (s', row) \<Rightarrow> (s', Inr (map_option row_id row))))"

definition take_dispatchable :: "fake_state \<Rightarrow> fake_state \<times> (nat \<times> string) list" where
  "take_dispatchable s = (s\<lparr>fk_dispatchable := []\<rparr>, fk_dispatchable s)"

section \<open>Timers and inspection\<close>

definition fake_cancel_timer :: "bool \<Rightarrow> string \<Rightarrow> string \<Rightarrow> fake_state \<Rightarrow> fake_state \<times> (exn + bool)" where
  "fake_cancel_timer is_session q tid s =
     (if \<not> is_session then (s, Inl (session_type_error ''FakeOutboxClient.cancel_timer''))
      else let hit = (\<lambda>r. queue r = q \<and> timer_id r = Some tid \<and> acquired_token r = None)
           in case find hit (fk_rows s) of
                None \<Rightarrow> (s, Inr False)
              | Some r \<Rightarrow> (s\<lparr>fk_rows := delete_first hit (fk_rows s)\<rparr>, Inr True))"

definition fake_fetch_unprocessed :: "bool \<Rightarrow> rat \<Rightarrow> string option \<Rightarrow> int \<Rightarrow> fake_state \<Rightarrow>
    exn + inner_message list" where
  "fake_fetch_unprocessed is_session clk q n s =
     (if \<not> is_session then Inl (session_type_error ''FakeOutboxClient.fetch_unprocessed'')
      else if n < 1 then Inl limit_error
      else let rs = sort_key row_id (fk_rows s);
               rs' = (case q of Some name \<Rightarrow> filter (\<lambda>r. queue r = name) rs | None \<Rightarrow> rs)
           in Inr (map (to_inner clk) (take (nat n) rs')))"

section \<open>The in-memory client keeps the contract\<close>

definition fake_inv :: "fake_state \<Rightarrow> bool" where
  "fake_inv s \<longleftrightarrow> wf_rows (fk_rows s) \<and> (\<forall>r \<in> set (fk_rows s). row_id r < fk_next_id s)"

definition db_of :: "fake_state \<Rightarrow> outbox_db" where
  "db_of s = \<lparr>db_rows = fk_rows s, db_dlq = fk_dlq s\<rparr>"

lemma fake_inv_db_of: "fake_inv s \<Longrightarrow> wf_rows (db_rows (db_of s))"
  by (simp add: fake_inv_def db_of_def)

lemma claim_fake_row_eq [simp]: "claim_fake_row = claim_row"
  by (intro ext) (simp add: claim_fake_row_def claim_row_def)

lemma to_inner_eq [simp]: "to_inner = row_to_message"
  by (intro ext) (simp add: to_inner_def row_to_message_def)

lemma lease_token_matches_iff [simp]: "lease_token_matches t (Some tok) \<longleftrightarrow> t = Some tok"
  by (simp add: lease_token_matches_def)

lemma fake_eligible_eq: "lease_ck r \<Longrightarrow> fake_eligible now ttl qs r = available now ttl qs r"
  by (auto simp: fake_eligible_def available_def unleased_def lease_expired_def lease_ck_def
      split: option.splits)

text \<open>With at most one match, changing or deleting the first match is a map or a filter.\<close>

definition at_most_one :: "('a \<Rightarrow> bool) \<Rightarrow> 'a list \<Rightarrow> bool" where
  "at_most_one P xs \<longleftrightarrow> length (filter P xs) \<le> 1"

lemma at_most_one_Cons:
  "at_most_one P (x # xs) \<Longrightarrow> (if P x then \<forall>y \<in> set xs. \<not> P y else at_most_one P xs)"
  by (auto simp: at_most_one_def filter_empty_conv)

lemma update_first_map: "at_most_one P xs \<Longrightarrow> update_first P f xs = map (\<lambda>x. if P x then f x else x) xs"
  by (induction xs) (auto dest!: at_most_one_Cons split: if_splits intro!: map_idI [symmetric])

lemma delete_first_filter: "at_most_one P xs \<Longrightarrow> delete_first P xs = filter (\<lambda>x. \<not> P x) xs"
  by (induction xs) (auto dest!: at_most_one_Cons split: if_splits simp: filter_id_conv)

lemma at_most_one_find: "at_most_one P xs \<Longrightarrow> filter P xs = (case find P xs of None \<Rightarrow> [] | Some x \<Rightarrow> [x])"
  by (induction xs) (auto dest!: at_most_one_Cons split: if_splits simp: filter_empty_conv)

lemma at_most_one_id: "distinct (map row_id rs) \<Longrightarrow> at_most_one (\<lambda>r. row_id r = i \<and> P r) rs"
  unfolding at_most_one_def by (induction rs) (auto simp: filter_empty_conv image_iff)

lemma at_most_one_timer: "timer_uq rs \<Longrightarrow> at_most_one (\<lambda>r. queue r = q \<and> timer_id r = Some tid \<and> P r) rs"
proof -
  assume "timer_uq rs"
  then have "at_most_one (\<lambda>r. timer_key r = Some (q, tid) \<and> P r) rs"
    unfolding at_most_one_def by (induction rs) (auto simp: filter_empty_conv image_iff)
  then show ?thesis by (simp add: conflicting_timer_key [symmetric] conflicting_def conj_assoc)
qed

text \<open>Each operation, on the rows.\<close>

lemma claim_loop_eq:
  assumes "distinct (map row_id rs)" and "distinct (map row_id sel)"
  shows "claim_loop now tok clk sel rs out =
    (claim_rows now tok (row_id ` set sel) rs, out @ map (row_to_message clk \<circ> claim_row now tok) sel)"
  using assms
proof (induction sel arbitrary: rs out)
  case Nil
  then show ?case by (simp add: claim_rows_def)
next
  case (Cons r sel)
  have one: "at_most_one (\<lambda>x. row_id x = row_id r) rs"
    using at_most_one_id [OF Cons.prems(1), of "row_id r" "\<lambda>_. True"] by simp
  let ?rs = "map (\<lambda>x. if row_id x = row_id r then claim_row now tok x else x) rs"
  have "map row_id ?rs = map row_id rs" by simp
  then have "distinct (map row_id ?rs)" using Cons.prems(1) by metis
  moreover have "claim_rows now tok (row_id ` set sel) ?rs = claim_rows now tok (row_id ` set (r # sel)) rs"
    using Cons.prems(2) by (auto simp: claim_rows_def image_iff)
  ultimately show ?case using Cons by (simp add: update_first_map [OF one])
qed

lemma fake_fetch_eq:
  assumes "wf_rows (fk_rows s)"
  shows "fake_fetch conn now clk tok qs n ttl s =
    (let (db, res) = client_fetch order {} True now clk tok qs n ttl (db_of s)
     in (s\<lparr>fk_rows := db_rows db\<rparr>, res))"
proof (cases "qs = []")
  case True
  then show ?thesis by (simp add: fake_fetch_def client_fetch_def db_of_def)
next
  case False
  let ?sel = "claimed_now now ttl n {} qs (fk_rows s)"
  have "filter (fake_eligible now ttl qs) (fk_rows s) = filter (available now ttl qs) (fk_rows s)"
    using assms by (intro filter_cong) (auto simp: wf_rows_def fake_eligible_eq)
  then have "take n (sort_key (\<lambda>r. (next_attempt_at r, row_id r))
      (filter (fake_eligible now ttl qs) (fk_rows s))) = ?sel"
    by (simp add: claimed_now_def top_by_def fetch_key_def [abs_def])
  moreover have "distinct (map row_id (fk_rows s))" using assms by (simp add: wf_rows_def)
  moreover from this have "distinct (map row_id ?sel)"
    by (auto simp: claimed_now_def intro!: distinct_map_top_by distinct_map_filter)
  moreover have "wf_rows (db_rows (db_of s))" using assms by (simp add: db_of_def)
  ultimately show ?thesis using False
    by (simp add: fake_fetch_def claim_loop_eq fetch_claims_eq db_of_def Let_def)
qed

lemma at_most_one_lease: "wf_rows rs \<Longrightarrow> at_most_one (holds_lease i tok) rs"
  using at_most_one_id [of rs i "\<lambda>r. acquired_token r = Some tok"]
  by (simp add: wf_rows_def holds_lease_def [abs_def])

lemma fake_delete_eq:
  assumes "wf_rows (fk_rows s)" and "ctx = None \<or> d"
  shows "fake_delete d conn now i tok ctx s =
    (let (db, res) = client_delete_with_lease d True now i tok ctx (db_of s)
     in (s\<lparr>fk_rows := db_rows db, fk_dlq := db_dlq db\<rparr>, res))"
proof -
  have h: "(\<lambda>r. row_id r = i \<and> acquired_token r = Some tok) = holds_lease i tok"
    by (intro ext) (simp add: holds_lease_def)
  note one = at_most_one_lease [OF assms(1), of i tok]
  show ?thesis
  proof (cases "find (holds_lease i tok) (fk_rows s)")
    case None
    then have "filter (\<lambda>r. \<not> holds_lease i tok r) (fk_rows s) = fk_rows s"
      by (auto simp: find_None_iff filter_id_conv)
    with None at_most_one_find [OF one] assms(2) show ?thesis
      by (auto simp: fake_delete_def h client_delete_with_lease_def dlq_cte_def delete_stmt_def db_of_def
          Let_def split: option.split)
  next
    case (Some r)
    with at_most_one_find [OF one] assms(2) show ?thesis
      by (auto simp: fake_delete_def h client_delete_with_lease_def dlq_cte_def delete_stmt_def db_of_def
          Let_def delete_first_filter [OF one] split: option.split)
  qed
qed

lemma delete_wanted_eq:
  "i \<le> length rs \<Longrightarrow> delete_wanted wanted i rs deleted =
     (let hit = (\<lambda>r. case acquired_token r of Some tok \<Rightarrow> (row_id r, tok) \<in> wanted | None \<Rightarrow> False)
      in (filter (\<lambda>r. \<not> hit r) (take i rs) @ drop i rs,
          (\<lambda>r. (row_id r, the (acquired_token r))) ` set (filter hit (take i rs)) \<union> deleted))"
proof (induction wanted i rs deleted rule: delete_wanted.induct)
  case (2 wanted i rs deleted)
  let ?hit = "\<lambda>r. case acquired_token r of Some tok \<Rightarrow> (row_id r, tok) \<in> wanted | None \<Rightarrow> False"
  have t: "take (Suc i) rs = take i rs @ [rs ! i]" and d: "drop i rs = rs ! i # drop (Suc i) rs"
    using 2(4) by (simp_all add: take_Suc_conv_app_nth Cons_nth_drop_Suc)
  have tt: "take i (take i rs @ drop (Suc i) rs) = take i rs"
    and dd: "drop i (take i rs @ drop (Suc i) rs) = drop (Suc i) rs" using 2(4) by simp_all
  show ?case
  proof (cases "acquired_token (rs ! i)")
    case None
    with 2(1) 2(4) show ?thesis by (simp add: Let_def t d)
  next
    case (Some tok)
    with 2 show ?thesis
      by (cases "(row_id (rs ! i), tok) \<in> wanted") (simp_all add: Let_def t d tt dd del: take_append drop_append)
  qed
qed simp

lemma fake_delete_batch_eq:
  "fake_delete_batch conn pairs s =
    (let (db, res) = client_delete_batch True pairs (db_of s) in (s\<lparr>fk_rows := db_rows db\<rparr>, res))"
proof -
  have "(case acquired_token r of Some tok \<Rightarrow> (row_id r, tok) \<in> set pairs | None \<Rightarrow> False) \<longleftrightarrow>
      list_ex (\<lambda>(i, tok). holds_lease i tok r) pairs" for r
    by (auto simp: list_ex_iff holds_lease_def split: option.split)
  then show ?thesis
    by (auto simp: fake_delete_batch_def client_delete_batch_def delete_wanted_eq db_of_def Let_def)
qed

lemma fake_mark_pending_eq:
  assumes "wf_rows (fk_rows s)"
  shows "fake_mark_pending conn now i tok w s =
    (let (db, res) = client_mark_pending True now i tok w (db_of s) in (s\<lparr>fk_rows := db_rows db\<rparr>, res))"
proof -
  have h: "(\<lambda>r. row_id r = i \<and> acquired_token r = Some tok) = holds_lease i tok"
    by (intro ext) (simp add: holds_lease_def)
  note one = at_most_one_lease [OF assms(1), of i tok]
  have "find (holds_lease i tok) (fk_rows s) = None \<Longrightarrow>
      map (\<lambda>r. if holds_lease i tok r then reschedule_row now w r else r) (fk_rows s) = fk_rows s"
    by (auto simp: find_None_iff intro!: map_idI)
  then show ?thesis using at_most_one_find [OF one]
    by (auto simp: fake_mark_pending_def h client_mark_pending_def reschedule_row_def [abs_def] db_of_def
        Let_def update_first_map [OF one] split: option.split)
qed

lemma fake_inv_ops [wf_intros]:
  "fake_inv s \<Longrightarrow> fake_inv (fst (fake_fetch conn now clk tok qs n ttl s))"
  "fake_inv s \<Longrightarrow> ctx = None \<or> d \<Longrightarrow> fake_inv (fst (fake_delete d conn now i tok ctx s))"
  "fake_inv s \<Longrightarrow> fake_inv (fst (fake_delete_batch conn pairs s))"
  "fake_inv s \<Longrightarrow> fake_inv (fst (fake_mark_pending conn now i tok w s))"
proof -
  have c: "(\<forall>r \<in> set (claim_rows now tok ids rs). row_id r < n) \<longleftrightarrow> (\<forall>r \<in> set rs. row_id r < n)" for ids rs n
  proof -
    have "(\<forall>r \<in> set xs. row_id r < n) \<longleftrightarrow> list_all (\<lambda>i. i < n) (map row_id xs)"
      for xs :: "outbox_row list"
      by (simp add: list_all_iff)
    then show ?thesis by (simp only: claim_rows_ids)
  qed
  assume inv: "fake_inv s"
  then have wf: "wf_rows (fk_rows s)" and "\<forall>r \<in> set (fk_rows s). row_id r < fk_next_id s"
    by (simp_all add: fake_inv_def)
  note lt = this(2) [THEN bspec]
  show "fake_inv (fst (fake_fetch conn now clk tok qs n ttl s))"
    using wf_client_fetch [OF fake_inv_db_of [OF inv], of "[]" "{}" True now clk tok qs n ttl] lt
    by (auto simp: fake_fetch_eq [OF wf, where order = "[]"] fake_inv_def client_fetch_def fetch_stmt_def
        db_of_def Let_def dest: c [THEN iffD2, THEN bspec, rotated])
  show "fake_inv (fst (fake_delete d conn now i tok ctx s))" if "ctx = None \<or> d"
    using wf_client_delete [OF fake_inv_db_of [OF inv], of d True now i tok ctx] lt that
    by (auto simp: fake_delete_eq [OF wf that] fake_inv_def client_delete_with_lease_def dlq_cte_def
        delete_stmt_def db_of_def Let_def split: option.splits)
  show "fake_inv (fst (fake_delete_batch conn pairs s))"
    using wf_client_delete_batch [OF fake_inv_db_of [OF inv], of True pairs] lt
    by (auto simp: fake_delete_batch_eq fake_inv_def client_delete_batch_def db_of_def Let_def)
  show "fake_inv (fst (fake_mark_pending conn now i tok w s))"
    using wf_client_mark_pending [OF fake_inv_db_of [OF inv], of True now i tok w] lt
    by (auto simp: fake_mark_pending_eq [OF wf] fake_inv_def client_mark_pending_def db_of_def Let_def)
qed

definition fake_ops :: "bool \<Rightarrow> fake_state client_ops" where
  "fake_ops dlq_enabled = \<lparr>op_fetch = fake_fetch, op_delete = fake_delete dlq_enabled,
     op_delete_batch = fake_delete_batch, op_mark_pending = fake_mark_pending\<rparr>"

interpretation fake: leased_store "fake_ops d" fk_rows fk_dlq fake_inv "\<lambda>c. True" d
  for d
proof (unfold_locales, goal_cases)
  case (1 s)
  then show ?case by (simp add: fake_inv_def)
next
  case (2 s c now clk tok qs n ttl s' res)
  then have wf: "wf_rows (fk_rows s)" by (simp add: fake_inv_def)
  obtain db r where db: "client_fetch [] {} True now clk tok qs n ttl (db_of s) = (db, r)" by fastforce
  with 2 have "s' = s\<lparr>fk_rows := db_rows db\<rparr>" "res = r"
    by (auto simp: fake_ops_def fake_fetch_eq [OF wf, where order = "[]"])
  with real_fetch_law [OF fake_inv_db_of [OF 2(1)] db] fake_inv_ops(1) [OF 2(1), of c now clk tok qs n ttl] 2
  show ?case by (simp add: fake_ops_def db_of_def)
next
  case (3 s c ctx now i tok s' res)
  then have wf: "wf_rows (fk_rows s)" by (simp add: fake_inv_def)
  obtain db r where db: "client_delete_with_lease d True now i tok ctx (db_of s) = (db, r)" by fastforce
  with 3 have "s' = s\<lparr>fk_rows := db_rows db, fk_dlq := db_dlq db\<rparr>" "res = r"
    by (auto simp: fake_ops_def fake_delete_eq [OF wf 3(3)])
  with real.delete_law [of "db_of s" True ctx d "[]" "{}" now i tok db r] db
    fake_inv_ops(2) [OF 3(1,3), of c now i tok] 3 wf
  show ?case by (simp add: fake_ops_def real_ops_def db_of_def db_inv_def)
next
  case (4 s c pairs s' res)
  obtain db r where db: "client_delete_batch True pairs (db_of s) = (db, r)" by fastforce
  with 4 have "s' = s\<lparr>fk_rows := db_rows db\<rparr>" "res = r"
    by (auto simp: fake_ops_def fake_delete_batch_eq)
  with real.delete_batch_law [of "db_of s" True "[]" "{}" d pairs db r] db
    fake_inv_ops(3) [OF 4(1), of c pairs] 4
  show ?case by (simp add: fake_ops_def real_ops_def db_of_def db_inv_def fake_inv_def)
next
  case (5 s c now i tok w s' res)
  then have wf: "wf_rows (fk_rows s)" by (simp add: fake_inv_def)
  obtain db r where db: "client_mark_pending True now i tok w (db_of s) = (db, r)" by fastforce
  with 5 have "s' = s\<lparr>fk_rows := db_rows db\<rparr>" "res = r"
    by (auto simp: fake_ops_def fake_mark_pending_eq [OF wf])
  with real.mark_pending_law [of "db_of s" True "[]" "{}" d now i tok w db r] db
    fake_inv_ops(4) [OF 5(1), of c now i tok w] 5 wf
  show ?case by (simp add: fake_ops_def real_ops_def db_of_def db_inv_def)
qed

section \<open>Publishing into memory\<close>

text \<open>Same outcome: the same value, or an error on both sides (the exceptions' classes differ).\<close>

fun same_outcome :: "exn + 'a \<Rightarrow> exn + 'a \<Rightarrow> bool" where
  "same_outcome (Inr x) (Inr y) = (x = y)"
| "same_outcome (Inl _) (Inl _) = True"
| "same_outcome _ _ = False"

lemma validate_like_postgres_None: "validate_like_postgres q tid = None \<longleftrightarrow> \<not> too_long q tid"
  by (auto simp: validate_like_postgres_def too_long_def)

lemma extend_row_cong: "\<not> t > next_attempt_at r \<Longrightarrow> extend_row body hdrs t r = r"
  by (simp add: extend_row_def)

lemma fake_insert_eq:
  assumes "fake_inv s"
  shows "db_of (fst (fake_insert now a s)) = fst (insert_stmt (fk_next_id s) now a (db_of s)) \<and>
    same_outcome (snd (fake_insert now a s)) (snd (insert_stmt (fk_next_id s) now a (db_of s)))"
proof (cases "too_long (ia_queue a) (ia_timer_id a)")
  case True
  then obtain e where "validate_like_postgres (ia_queue a) (ia_timer_id a) = Some e"
    using validate_like_postgres_None [of "ia_queue a" "ia_timer_id a"] by auto
  with True show ?thesis by (simp add: fake_insert_def insert_stmt_def Let_def)
next
  case False
  then have v: "validate_like_postgres (ia_queue a) (ia_timer_id a) = None"
    by (simp add: validate_like_postgres_None)
  have next_at: "(case resolve_next_attempt_client_side (ia_activate_in a) (ia_activate_at a) now of
      None \<Rightarrow> now | Some t \<Rightarrow> t) = server_next_attempt now (ia_activate_in a) (ia_activate_at a)"
    by (simp add: resolve_next_attempt_client_side_def server_next_attempt_def split: option.split)
  show ?thesis
  proof (cases "ia_timer_id a")
    case None
    then have "find (\<lambda>r. ia_timer_id a \<noteq> None \<and> queue r = ia_queue a \<and> timer_id r = ia_timer_id a) (fk_rows s) = None"
      by (simp add: find_None_iff)
    with None False v show ?thesis
      by (simp add: fake_insert_def insert_stmt_def next_at fake_store_def fake_append_def new_row_def
          db_of_def Let_def)
  next
    case (Some tid)
    let ?same = "conflicting (ia_queue a) tid"
    have same: "(\<lambda>r. queue r = ia_queue a \<and> timer_id r = Some tid) = ?same"
      by (intro ext) (simp add: conflicting_def)
    have one: "at_most_one ?same (fk_rows s)"
      using at_most_one_timer [of "fk_rows s" "ia_queue a" tid "\<lambda>_. True"] assms
      by (simp add: same fake_inv_def wf_rows_def)
    show ?thesis
    proof (cases "find ?same (fk_rows s)")
      case None
      then have "\<not> list_ex ?same (fk_rows s)" by (auto simp: find_None_iff list_ex_iff)
      with Some None False v show ?thesis
        by (simp add: fake_insert_def insert_stmt_def next_at fake_store_def fake_append_def new_row_def
            db_of_def Let_def same)
    next
      case (Some r)
      then have ex: "list_ex ?same (fk_rows s)" and r: "r \<in> set (fk_rows s)" "?same r"
        by (auto simp: find_Some_iff list_ex_iff)
      have only: "x = r" if "x \<in> set (fk_rows s)" "?same x" for x
      proof -
        have "x \<in> set (filter ?same (fk_rows s))" using that by simp
        then show ?thesis using at_most_one_find [OF one] Some by simp
      qed
      have upd: "update_first ?same (\<lambda>_. y) (fk_rows s) = map (\<lambda>x. if ?same x then y else x) (fk_rows s)" for y
        by (rule update_first_map [OF one])
      have keep: "map (\<lambda>x. if ?same x then r else x) (fk_rows s) = fk_rows s"
        using only by (auto intro!: map_idI)
      let ?t = "server_next_attempt now (ia_activate_in a) (ia_activate_at a)"
      show ?thesis
        using Some \<open>ia_timer_id a = Some tid\<close> False v ex
        by (cases "ia_timer_conflict a"; cases "acquired_token r"; cases "?t > next_attempt_at r")
          (auto simp: fake_insert_def insert_stmt_def next_at fake_store_def fake_extend_def
            extend_row_def db_of_def Let_def same upd keep dest: only)
    qed
  qed
qed

lemma fake_append_all_eq:
  "fk_rows (fake_append_all now q next_at bodies s) = fk_rows s @
     map (\<lambda>(i, body, hdrs). new_row i now q body hdrs (case next_at of Some t \<Rightarrow> t | None \<Rightarrow> now) None)
       (zip [fk_next_id s ..< fk_next_id s + length bodies] bodies) \<and>
   fk_next_id (fake_append_all now q next_at bodies s) = fk_next_id s + length bodies \<and>
   fk_dlq (fake_append_all now q next_at bodies s) = fk_dlq s"
proof (induction now q next_at bodies s rule: fake_append_all.induct)
  case (2 now q next_at body hdrs bs s)
  obtain s' row where a: "fake_append now q body hdrs next_at None s = (s', row)" by fastforce
  moreover from a have "fk_rows s' = fk_rows s @ [row]" "fk_next_id s' = Suc (fk_next_id s)"
      "fk_dlq s' = fk_dlq s"
      "row = new_row (fk_next_id s) now q body hdrs (case next_at of Some t \<Rightarrow> t | None \<Rightarrow> now) None"
    by (auto simp: fake_append_def new_row_def Let_def)
  moreover have "[fk_next_id s ..< fk_next_id s + length ((body, hdrs) # bs)] =
      fk_next_id s # [Suc (fk_next_id s) ..< Suc (fk_next_id s) + length bs]"
    by (simp add: upt_rec)
  ultimately show ?case
    using 2 [OF a [symmetric] refl] by (simp add: Let_def)
qed simp

lemma fake_insert_batch_eq:
  assumes "bodies \<noteq> []"
  shows "db_of (fst (fake_insert_batch now q bodies ai aa s)) =
      fst (insert_batch_stmt [fk_next_id s ..< fk_next_id s + length bodies] now now q bodies ai aa (db_of s)) \<and>
    same_outcome (snd (fake_insert_batch now q bodies ai aa s))
      (snd (insert_batch_stmt [fk_next_id s ..< fk_next_id s + length bodies] now now q bodies ai aa (db_of s)))"
proof (cases "too_long q None")
  case True
  then obtain e where "validate_like_postgres q None = Some e"
    using validate_like_postgres_None [of q None] by auto
  with True assms show ?thesis by (simp add: fake_insert_batch_def insert_batch_stmt_def Let_def)
next
  case False
  then have "validate_like_postgres q None = None" by (simp add: validate_like_postgres_None)
  with False assms(1) show ?thesis
    by (simp add: fake_insert_batch_def insert_batch_stmt_def Let_def db_of_def fake_append_all_eq)
qed

lemma fake_cancel_timer_eq:
  assumes "wf_rows (fk_rows s)"
  shows "db_of (fst (fake_cancel_timer is_session q tid s)) = fst (client_cancel_timer is_session q tid (db_of s)) \<and>
    same_outcome (snd (fake_cancel_timer is_session q tid s)) (snd (client_cancel_timer is_session q tid (db_of s)))"
proof -
  let ?hit = "\<lambda>r. queue r = q \<and> timer_id r = Some tid \<and> acquired_token r = None"
  have one: "at_most_one ?hit (fk_rows s)"
    using at_most_one_timer [of "fk_rows s" q tid "\<lambda>r. acquired_token r = None"] assms
    by (simp add: wf_rows_def)
  have "find ?hit (fk_rows s) = None \<Longrightarrow> filter (\<lambda>r. \<not> ?hit r) (fk_rows s) = fk_rows s"
    by (auto simp: find_None_iff filter_id_conv)
  then show ?thesis using at_most_one_find [OF one]
    by (cases "find ?hit (fk_rows s)")
      (auto simp: fake_cancel_timer_def client_cancel_timer_def conflicting_def db_of_def Let_def
        delete_first_filter [OF one] conj_assoc)
qed

lemma fake_fetch_unprocessed_eq:
  assumes "wf_rows (fk_rows s)"
  shows "same_outcome (fake_fetch_unprocessed is_session clk q n s)
    (client_fetch_unprocessed is_session clk q n (db_of s))"
proof -
  have "sort_key row_id (filter P (fk_rows s)) = filter P (sort_key row_id (fk_rows s))" for P
    by (simp add: filter_sort)
  then show ?thesis
    by (auto simp: fake_fetch_unprocessed_def client_fetch_unprocessed_def db_of_def Let_def top_by_def
        split: option.split)
qed

section \<open>Properties\<close>

text \<open>
  Property C24. For the subscriber the in-memory client and the Postgres client are interchangeable as
  long as no other transaction holds row locks: on well-formed rows the loops of the fake's fetch,
  its three terminal writes and the SQL statements leave the same rows and the same archive and
  return the same values, whatever order the database returns its rows in. (A DLQ context is passed
  only to a client that has a DLQ table.)
\<close>

theorem fake_matches_postgres:
  assumes "wf_rows (fk_rows s)" and "ctx = None \<or> d"
  shows "fake_fetch conn now clk tok qs n ttl s =
      (let (db, r) = client_fetch order {} True now clk tok qs n ttl (db_of s)
       in (s\<lparr>fk_rows := db_rows db\<rparr>, r)) \<and>
    fake_delete d conn now i tok ctx s =
      (let (db, r) = client_delete_with_lease d True now i tok ctx (db_of s)
       in (s\<lparr>fk_rows := db_rows db, fk_dlq := db_dlq db\<rparr>, r)) \<and>
    fake_delete_batch conn pairs s =
      (let (db, r) = client_delete_batch True pairs (db_of s) in (s\<lparr>fk_rows := db_rows db\<rparr>, r)) \<and>
    fake_mark_pending conn now i tok w s =
      (let (db, r) = client_mark_pending True now i tok w (db_of s) in (s\<lparr>fk_rows := db_rows db\<rparr>, r))"
  using fake_fetch_eq [OF assms(1)] fake_delete_eq [OF assms] fake_delete_batch_eq
    fake_mark_pending_eq [OF assms(1)] by blast

definition sample_fake :: fake_state where
  "sample_fake = \<lparr>fk_rows = db_rows sample_db, fk_next_id = 4, fk_dlq = [], fk_dispatchable = []\<rparr>"

lemma sample_fake_wf: "wf_rows (fk_rows sample_fake)"
  using sample_db_wf by (simp add: sample_fake_def)

lemma sample_fake_inv: "fake_inv sample_fake"
  using sample_db_wf by (auto simp: fake_inv_def sample_fake_def sample_db_def)

theorem fake_matches_postgres_witness:
  "wf_rows (fk_rows sample_fake) \<and>
   snd (fake_delete True False 100 2 7 (Some \<lparr>inj_failure_reason = ''rejected'', inj_last_exception = None\<rparr>)
     sample_fake) = Inr True"
  using fake_matches_postgres [OF sample_fake_wf, of "Some \<lparr>inj_failure_reason = ''rejected'', inj_last_exception = None\<rparr>"
      True False 100 0 7 "[]" 0 0 "[]" 2 "[]" "\<lparr>rw_delay = 0, rw_attempts_count = 0, rw_first_attempt_at = None,
      rw_last_attempt_at = None\<rparr>"] sample_fake_wf
  by (simp add: client_delete_with_lease_def dlq_cte_def db_of_def sample_fake_def sample_db_def
      holds_lease_def Let_def)



text \<open>
  Where the two clients differ: given a DLQ context without a DLQ table, the Postgres
  client refuses before it looks at the row, while the in-memory one reports a lost lease when the
  row no longer holds the token and refuses only when it does.
\<close>

theorem dlq_refusal_differs:
  "snd (client_delete_with_lease False True now i tok (Some c) db) = Inl no_dlq_table_error \<and>
   snd (fake_delete False conn now i tok (Some c) s) =
     (if list_ex (holds_lease i tok) (fk_rows s) then Inl no_dlq_table_error else Inr False) \<and>
   fst (fake_delete False conn now i tok (Some c) s) = s"
proof -
  have h: "(\<lambda>r. row_id r = i \<and> acquired_token r = Some tok) = holds_lease i tok"
    by (intro ext) (simp add: holds_lease_def)
  have ex: "list_ex (holds_lease i tok) (fk_rows s) \<longleftrightarrow> find (holds_lease i tok) (fk_rows s) \<noteq> None"
    by (auto simp: find_None_iff list_ex_iff)
  show ?thesis
    by (cases "find (holds_lease i tok) (fk_rows s)")
      (simp_all add: client_delete_with_lease_def fake_delete_def h ex Let_def)
qed

end
