(* ===== verification/Dispatch.thy ===== *)
theory Dispatch
  imports Fake_Client
begin

text \<open>
  The dispatch of one claimed row (\<open>OutboxSubscriber\<close> in \<open>subscriber/usecase.py\<close>): the delivery
  gate, the consume pipeline, the write of the outcome with its DLQ copy, the buffer of batched
  deletes, and the metric event that closes each dispatch. The client is any table of operations;
  the lemmas are proved once from the contract \<open>leased_store\<close>. A write can fail at the connection,
  before or after the statement took effect.
\<close>

section \<open>Metric events\<close>

datatype tag = TStr string | TInt int | TFloat rat | TNone

type_synonym tags = "(string \<times> tag) list"
type_synonym metric_event = "string \<times> tags"

text \<open>The subscriber's configuration as far as a dispatch reads it.\<close>

record dispatch_config =
  dc_call_name :: string
  dc_retry_strategy :: "retry_fn option"
  dc_max_deliveries :: "int option"
  dc_terminal_flush_batch_size :: nat
  dc_dlq :: bool
  dc_renderer :: "(exn \<Rightarrow> exn + py_text option) option"
  dc_writer_conn :: bool

definition tag_option :: "('a \<Rightarrow> tag) \<Rightarrow> 'a option \<Rightarrow> tag" where
  "tag_option f v = (case v of None \<Rightarrow> TNone | Some x \<Rightarrow> f x)"

definition base_tags :: "dispatch_config \<Rightarrow> string \<Rightarrow> tags" where
  "base_tags cfg q = [(''queue'', TStr q), (''subscriber'', TStr (dc_call_name cfg))]"

definition with_exception_type :: "tags \<Rightarrow> inner_message \<Rightarrow> tags" where
  "with_exception_type tgs m = (case last_exception m of
     Some e \<Rightarrow> dict_set ''exception_type'' (TStr (exn_name e)) tgs | None \<Rightarrow> tgs)"

definition lease_lost_event :: "dispatch_config \<Rightarrow> inner_message \<Rightarrow> string \<Rightarrow> metric_event" where
  "lease_lost_event cfg m phase = (''lease_lost'',
     base_tags cfg (queue m) @ [(''phase'', TStr phase), (''row_id'', TInt (int (row_id m))),
       (''deliveries_count'', TInt (deliveries_count m))] @
     (case handler_duration_seconds m of Some d \<Rightarrow> [(''duration_seconds'', TFloat d)] | None \<Rightarrow> []))"

definition dispatch_abandoned_events :: "dispatch_config \<Rightarrow> inner_message \<Rightarrow> metric_event list" where
  "dispatch_abandoned_events cfg m = (case handler_duration_seconds m of
     None \<Rightarrow> []
   | Some d \<Rightarrow> [(''dispatch_abandoned'', base_tags cfg (queue m) @
       [(''deliveries_count'', TInt (deliveries_count m)), (''duration_seconds'', TFloat d)])])"

section \<open>The DLQ copy\<close>

definition last_exception_max_chars :: nat where
  "last_exception_max_chars = 8192"

text \<open>An ellipsis, U+2026, and \<open>[truncated]\<close>.\<close>

definition truncation_suffix :: py_text where
  "truncation_suffix = 8230 # code_points ''[truncated]''"

definition truncate_str :: "py_text \<Rightarrow> py_text" where
  "truncate_str s =
     (if length s \<le> last_exception_max_chars then s
      else take (last_exception_max_chars - length truncation_suffix) s @ truncation_suffix)"

definition render_last_exception :: "exn option \<Rightarrow> (exn \<Rightarrow> exn + py_text option) option \<Rightarrow>
    exn + py_text option" where
  "render_last_exception exc renderer =
     (case exc of
        None \<Rightarrow> Inr None
      | Some e \<Rightarrow>
          (case (case renderer of Some f \<Rightarrow> f e | None \<Rightarrow> Inr (Some (exn_repr e))) of
             Inl err \<Rightarrow> Inl err
           | Inr None \<Rightarrow> Inr None
           | Inr (Some s) \<Rightarrow> Inr (Some (truncate_str s))))"

definition terminal_has_dlq :: "dispatch_config \<Rightarrow> inner_message \<Rightarrow> bool" where
  "terminal_has_dlq cfg m \<longleftrightarrow> terminal_failure_reason m \<noteq> None \<and> dc_dlq cfg"

section \<open>State and faults\<close>

record pending_flush =
  pf_row :: inner_message
  pf_event :: string
  pf_tags :: tags

text \<open>
  The client's state, the events handed to the metrics recorder, the buffer of deletes waiting for
  their batch, and how often \<open>task_done\<close> was called on the in-flight queue.
\<close>

record 's dispatch_state =
  ds_store :: 's
  ds_events :: "metric_event list"
  ds_buffer :: "pending_flush list"
  ds_done :: nat

definition emit :: "metric_event list \<Rightarrow> 's dispatch_state \<Rightarrow> 's dispatch_state" where
  "emit evs st = st\<lparr>ds_events := ds_events st @ evs\<rparr>"

text \<open>
  \<open>_bounded\<close> around a statement: it completes, or the connection fails or times out before the
  statement took effect, or after it did but before the reply arrived.
\<close>

datatype fault = NoFault | FailBefore exn | FailAfter exn

fun bounded :: "fault \<Rightarrow> ('s \<Rightarrow> 's \<times> (exn + 'a)) \<Rightarrow> 's \<Rightarrow> 's \<times> (exn + 'a)" where
  "bounded NoFault statement s = statement s"
| "bounded (FailBefore e) statement s = (s, Inl e)"
| "bounded (FailAfter e) statement s = (fst (statement s), Inl e)"

section \<open>Writing an outcome\<close>

text \<open>The time on the database clock and the fate of the write.\<close>

record write_env =
  we_now :: time
  we_fault :: fault

text \<open>The context of the archive row, or no context where no archive row is due.\<close>

definition dlq_payload_of :: "dispatch_config \<Rightarrow> inner_message \<Rightarrow> exn + dlq_injected option" where
  "dlq_payload_of cfg m =
     (case terminal_failure_reason m of
        Some reason \<Rightarrow>
          if dc_dlq cfg
          then (case render_last_exception (last_exception m) (dc_renderer cfg) of
                  Inl e \<Rightarrow> Inl e
                | Inr s \<Rightarrow> Inr (Some \<lparr>inj_failure_reason = reason_text reason, inj_last_exception = s\<rparr>))
          else Inr None
      | None \<Rightarrow> Inr None)"

definition dlq_written_event :: "dispatch_config \<Rightarrow> inner_message \<Rightarrow> dlq_injected \<Rightarrow> metric_event" where
  "dlq_written_event cfg m ctx = (''dlq_written'', with_exception_type
     (base_tags cfg (queue m) @ [(''deliveries_count'', TInt (deliveries_count m)),
        (''failure_reason'', TStr (inj_failure_reason ctx))]) m)"

definition flush_terminal :: "'s client_ops \<Rightarrow> dispatch_config \<Rightarrow> write_env \<Rightarrow> inner_message \<Rightarrow>
    's dispatch_state \<Rightarrow> 's dispatch_state \<times> (exn + bool)" where
  "flush_terminal ops cfg env m st =
     (case acquired_token m of
        None \<Rightarrow> (st, Inr False)
      | Some tok \<Rightarrow>
          (case dlq_payload_of cfg m of
             Inl e \<Rightarrow> (st, Inl e)
           | Inr ctx \<Rightarrow>
               let (s', res) = bounded (we_fault env)
                     (op_delete ops (dc_writer_conn cfg) (we_now env) (row_id m) tok ctx) (ds_store st);
                   st' = st\<lparr>ds_store := s'\<rparr>
               in case res of
                    Inl e \<Rightarrow> (st', Inl e)
                  | Inr deleted \<Rightarrow>
                      if \<not> deleted then (emit [lease_lost_event cfg m ''terminal''] st', Inr False)
                      else (case ctx of
                              Some c \<Rightarrow> (emit [dlq_written_event cfg m c] st', Inr True)
                            | None \<Rightarrow> (st', Inr True))))"

definition flush_retry :: "'s client_ops \<Rightarrow> dispatch_config \<Rightarrow> write_env \<Rightarrow> inner_message \<Rightarrow>
    's dispatch_state \<Rightarrow> 's dispatch_state \<times> (exn + bool)" where
  "flush_retry ops cfg env m st =
     (case (acquired_token m, pending_delay_seconds m) of
        (Some tok, Some d) \<Rightarrow>
          let (s', res) = bounded (we_fault env)
                (op_mark_pending ops (dc_writer_conn cfg) (we_now env) (row_id m) tok
                   \<lparr>rw_delay = d, rw_attempts_count = attempts_count m,
                    rw_first_attempt_at = first_attempt_at m, rw_last_attempt_at = last_attempt_at m\<rparr>)
                (ds_store st);
              st' = st\<lparr>ds_store := s'\<rparr>
          in (case res of
                Inl e \<Rightarrow> (st', Inl e)
              | Inr updated \<Rightarrow>
                  if \<not> updated then (emit [lease_lost_event cfg m ''retry''] st', Inr False)
                  else (st', Inr True))
      | _ \<Rightarrow> (st, Inr False))"

definition safe_flush :: "'s client_ops \<Rightarrow> dispatch_config \<Rightarrow> write_env \<Rightarrow> bool \<Rightarrow> inner_message \<Rightarrow>
    's dispatch_state \<Rightarrow> 's dispatch_state \<times> (exn + bool)" where
  "safe_flush ops cfg env terminal m st =
     (let (st', res) = (if terminal then flush_terminal else flush_retry) ops cfg env m st
      in case res of
           Inr b \<Rightarrow> (st', Inr b)
         | Inl e \<Rightarrow>
             let st'' = emit (dispatch_abandoned_events cfg m) st'
             in if dc_writer_conn cfg \<or> \<not> is_exception e then (st'', Inl e) else (st'', Inr False))"

definition flush_or_buffer :: "'s client_ops \<Rightarrow> dispatch_config \<Rightarrow> write_env \<Rightarrow> bool \<Rightarrow> string \<Rightarrow> tags \<Rightarrow>
    inner_message \<Rightarrow> 's dispatch_state \<Rightarrow> 's dispatch_state \<times> (exn + bool)" where
  "flush_or_buffer ops cfg env use_buffer event tgs m st =
     (if use_buffer \<and> dc_terminal_flush_batch_size cfg > 1 \<and> \<not> terminal_has_dlq cfg m
      then (st\<lparr>ds_buffer := ds_buffer st @ [\<lparr>pf_row = m, pf_event = event, pf_tags = tgs\<rparr>]\<rparr>, Inr True)
      else let (st', res) = safe_flush ops cfg env True m st
           in case res of
                Inl e \<Rightarrow> (st', Inl e)
              | Inr landed \<Rightarrow> (if landed then emit [(event, tgs)] st' else st', Inr False))"

text \<open>\<open>_flush_buffer\<close>: one statement for all pairs, one event and one \<open>task_done\<close> per row.\<close>

definition buffer_pairs :: "pending_flush list \<Rightarrow> (nat \<times> token) list" where
  "buffer_pairs b = List.map_filter (\<lambda>p. map_option (Pair (row_id (pf_row p))) (acquired_token (pf_row p))) b"

definition pending_event :: "dispatch_config \<Rightarrow> (nat \<times> token) set \<Rightarrow> pending_flush \<Rightarrow> metric_event" where
  "pending_event cfg deleted p =
     (if (case acquired_token (pf_row p) of Some tok \<Rightarrow> (row_id (pf_row p), tok) \<in> deleted | None \<Rightarrow> False)
      then (pf_event p, pf_tags p) else lease_lost_event cfg (pf_row p) ''terminal'')"

definition flush_buffer :: "'s client_ops \<Rightarrow> dispatch_config \<Rightarrow> write_env \<Rightarrow> 's dispatch_state \<Rightarrow>
    's dispatch_state \<times> exn option" where
  "flush_buffer ops cfg env st =
     (if ds_buffer st = [] then (st, None)
      else let (s', res) = bounded (we_fault env)
                 (op_delete_batch ops (dc_writer_conn cfg) (buffer_pairs (ds_buffer st))) (ds_store st);
               st' = st\<lparr>ds_store := s', ds_buffer := [], ds_done := ds_done st + length (ds_buffer st)\<rparr>
           in case res of
                Inl e \<Rightarrow> (emit (concat (map (\<lambda>p. dispatch_abandoned_events cfg (pf_row p)) (ds_buffer st))) st',
                          Some e)
              | Inr deleted \<Rightarrow> (emit (map (pending_event cfg deleted) (ds_buffer st)) st', None))"

text \<open>
  \<open>_write_outcome\<close>, first its match on the recorded outcome. \<open>running\<close> is the subscriber's flag once
  consume has returned.
\<close>

definition outcome_tags :: "dispatch_config \<Rightarrow> inner_message \<Rightarrow> tags" where
  "outcome_tags cfg m = base_tags cfg (queue m) @ [(''deliveries_count'', TInt (deliveries_count m)),
     (''duration_seconds'', tag_option TFloat (handler_duration_seconds m))]"

definition write_settled :: "'s client_ops \<Rightarrow> dispatch_config \<Rightarrow> write_env \<Rightarrow> bool \<Rightarrow> inner_message \<Rightarrow>
    's dispatch_state \<Rightarrow> 's dispatch_state \<times> (exn + bool)" where
  "write_settled ops cfg env use_buffer m st =
     (case outcome m of
        Some (Terminal reason) \<Rightarrow>
          flush_or_buffer ops cfg env use_buffer ''nacked_terminal''
            (with_exception_type (outcome_tags cfg m @ [(''reason'', TStr (reason_text reason))]) m) m st
      | Some (Retry d) \<Rightarrow>
          (let (st', res) = safe_flush ops cfg env False m st
           in case res of
                Inl e \<Rightarrow> (st', Inl e)
              | Inr landed \<Rightarrow>
                  (if landed then emit [(''nacked_retried'',
                     with_exception_type (outcome_tags cfg m @ [(''next_delay_seconds'', TFloat d)]) m)] st'
                   else st', Inr False))
      | _ \<Rightarrow> flush_or_buffer ops cfg env use_buffer ''acked'' (outcome_tags cfg m) m st)"

definition write_outcome :: "'s client_ops \<Rightarrow> dispatch_config \<Rightarrow> write_env \<Rightarrow> bool \<Rightarrow> time \<Rightarrow> bool \<Rightarrow>
    inner_message \<Rightarrow> 's dispatch_state \<Rightarrow> 's dispatch_state \<times> (exn + bool)" where
  "write_outcome ops cfg env running now use_buffer m st =
     (if \<not> state_set m \<and> \<not> running then (emit (dispatch_abandoned_events cfg m) st, Inr False)
      else write_settled ops cfg env use_buffer (assert_state_set now m) st)"

section \<open>Consume and dispatch\<close>

text \<open>
  What the consume pipeline (middlewares, handler, response publishing) does: the calls it makes on
  the message and the exception it ends with; what \<open>_stop_from_handler\<close> raises when it is reached;
  the handler's duration; the clock when the outcome is settled.
\<close>

record consume_env =
  ce_calls :: "msg_call list"
  ce_exit :: "exn option"
  ce_stop :: "exn option"
  ce_duration :: rat
  ce_now :: time

text \<open>\<open>consume\<close>: the message afterwards and the exception it lets through.\<close>

definition consume :: "bool \<Rightarrow> consume_env \<Rightarrow> inner_message \<Rightarrow> inner_message \<times> exn option" where
  "consume running env m =
     (if \<not> running then (m, None)
      else (apply_calls (ce_calls env) m,
            case ce_exit env of
              None \<Rightarrow> None
            | Some e \<Rightarrow>
                (case exn_kind e of
                   OutboxConfigError \<Rightarrow> Some e
                 | StopConsume \<Rightarrow> ce_stop env
                 | SystemExit \<Rightarrow> ce_stop env
                 | CancelledError \<Rightarrow> Some e
                 | _ \<Rightarrow> None)))"

definition dispatched_event :: "dispatch_config \<Rightarrow> inner_message \<Rightarrow> metric_event" where
  "dispatched_event cfg m = (''dispatched'', base_tags cfg (queue m) @
     [(''deliveries_count'', TInt (deliveries_count m)), (''size_bytes'', TInt (int (length (payload m))))])"

definition max_deliveries_tags :: "dispatch_config \<Rightarrow> inner_message \<Rightarrow> tags" where
  "max_deliveries_tags cfg m = base_tags cfg (queue m) @
     [(''deliveries_count'', TInt (deliveries_count m)), (''reason'', TStr ''max_deliveries'')]"

text \<open>
  \<open>dispatch_one\<close>, first the part after the delivery gate, from \<open>consume\<close> on. \<open>running\<close> and \<open>running'\<close> are the
  subscriber's flag before and after consume; \<open>use_buffer\<close> says whether the caller passed a buffer.
\<close>

definition finish_pipeline :: "'s client_ops \<Rightarrow> dispatch_config \<Rightarrow> write_env \<Rightarrow> consume_env \<Rightarrow> bool \<Rightarrow> bool \<Rightarrow>
    bool \<Rightarrow> inner_message \<Rightarrow> 's dispatch_state \<Rightarrow> 's dispatch_state \<times> (exn + bool)" where
  "finish_pipeline ops cfg env cenv running running' use_buffer m st1 =
     (let (m1, raised) = consume running cenv m;
          m2 = m1\<lparr>handler_duration_seconds := Some (ce_duration cenv)\<rparr>
      in case raised of
           None \<Rightarrow> write_outcome ops cfg env running' (ce_now cenv) use_buffer m2 st1
         | Some e \<Rightarrow>
             if exn_kind e = OutboxConfigError
             then (case write_outcome ops cfg env running' (ce_now cenv) False m2 st1 of
                     (st2, Inl e') \<Rightarrow> (st2, Inl e')
                   | (st2, Inr b) \<Rightarrow> (st2, Inl e))
             else if is_exception e
             then (emit (dispatch_abandoned_events cfg m2) st1, Inr False)
             else (st1, Inl e))"

definition run_pipeline :: "'s client_ops \<Rightarrow> dispatch_config \<Rightarrow> write_env \<Rightarrow> consume_env \<Rightarrow> bool \<Rightarrow> bool \<Rightarrow>
    bool \<Rightarrow> inner_message \<Rightarrow> 's dispatch_state \<Rightarrow> 's dispatch_state \<times> (exn + bool)" where
  "run_pipeline ops cfg env cenv running running' use_buffer m st =
     finish_pipeline ops cfg env cenv running running' use_buffer m (emit [dispatched_event cfg m] st)"

definition dispatch_one :: "'s client_ops \<Rightarrow> dispatch_config \<Rightarrow> write_env \<Rightarrow> consume_env \<Rightarrow> bool \<Rightarrow> bool \<Rightarrow>
    bool \<Rightarrow> inner_message \<Rightarrow> 's dispatch_state \<Rightarrow> 's dispatch_state \<times> (exn + bool)" where
  "dispatch_one ops cfg env cenv running running' use_buffer row st =
     (let (allowed, m) = allow_delivery (dc_max_deliveries cfg) (row\<lparr>retry_strategy := dc_retry_strategy cfg\<rparr>)
      in if \<not> allowed
         then flush_or_buffer ops cfg env use_buffer ''nacked_terminal'' (max_deliveries_tags cfg m) m st
         else run_pipeline ops cfg env cenv running running' use_buffer m st)"

section \<open>Every dispatch is closed once\<close>

text \<open>
  An event that carries \<open>duration_seconds\<close> closes a dispatch for the recorders. The balance of a state
  is the number of dispatches neither closed by an event nor waiting in the buffer.
\<close>

definition closes :: "metric_event \<Rightarrow> bool" where
  "closes ev \<longleftrightarrow> dict_has (snd ev) ''duration_seconds''"

definition opens :: "metric_event \<Rightarrow> bool" where
  "opens ev \<longleftrightarrow> fst ev = ''dispatched''"

definition net :: "metric_event list \<Rightarrow> int" where
  "net evs = int (length (filter opens evs)) - int (length (filter closes evs))"

definition closing :: "inner_message \<Rightarrow> int" where
  "closing m = (if handler_duration_seconds m = None then 0 else 1)"

definition balance :: "'s dispatch_state \<Rightarrow> int" where
  "balance st = net (ds_events st) - sum_list (map (closing \<circ> pf_row) (ds_buffer st))"

text \<open>What the buffer holds: an event that closes exactly if its row was dispatched to the handler.\<close>

definition pending_ok :: "pending_flush \<Rightarrow> bool" where
  "pending_ok p \<longleftrightarrow> pf_event p \<noteq> ''dispatched'' \<and>
     (closes (pf_event p, pf_tags p) \<longleftrightarrow> handler_duration_seconds (pf_row p) \<noteq> None)"

lemma net_Nil [simp]: "net [] = 0"
  by (simp add: net_def)

lemma net_append [simp]: "net (xs @ ys) = net xs + net ys"
  by (simp add: net_def)

lemma emit_simps [simp]:
  "ds_store (emit evs st) = ds_store st" "ds_buffer (emit evs st) = ds_buffer st"
  "ds_done (emit evs st) = ds_done st" "ds_events (emit evs st) = ds_events st @ evs"
  by (simp_all add: emit_def)

lemma balance_emit [simp]: "balance (emit evs st) = balance st + net evs"
  by (simp add: balance_def)

lemma balance_store [simp]: "balance (st\<lparr>ds_store := s'\<rparr>) = balance st"
  by (simp add: balance_def)

lemma net_lease_lost [simp]: "net [lease_lost_event cfg m phase] = - closing m"
  by (cases "handler_duration_seconds m")
    (simp_all add: net_def lease_lost_event_def opens_def closes_def base_tags_def closing_def)

lemma net_abandoned [simp]: "net (dispatch_abandoned_events cfg m) = - closing m"
  by (cases "handler_duration_seconds m")
    (simp_all add: net_def dispatch_abandoned_events_def opens_def closes_def base_tags_def closing_def)

lemma closes_with_exception_type:
  "dict_has (with_exception_type tgs m) ''duration_seconds'' = dict_has tgs ''duration_seconds''"
  by (simp add: with_exception_type_def split: option.split)

lemma net_dlq_written [simp]: "net [dlq_written_event cfg m c] = 0"
  using closes_with_exception_type [of "base_tags cfg (queue m) @ [(''deliveries_count'', TInt (deliveries_count m)),
        (''failure_reason'', TStr (inj_failure_reason c))]" m]
  by (simp add: net_def dlq_written_event_def opens_def closes_def base_tags_def)

text \<open>An event that reports the fate of a row: any but \<open>dispatched\<close>, closing if the row was dispatched.\<close>

definition row_event :: "inner_message \<Rightarrow> string \<Rightarrow> tags \<Rightarrow> bool" where
  "row_event m event tgs \<longleftrightarrow> event \<noteq> ''dispatched'' \<and> (closes (event, tgs) \<longleftrightarrow> handler_duration_seconds m \<noteq> None)"

lemma net_row_event: "row_event m event tgs \<Longrightarrow> net [(event, tgs)] = - closing m"
  by (simp add: row_event_def net_def opens_def closing_def)

lemma row_event_tags:
  assumes "event \<noteq> ''dispatched''" and "handler_duration_seconds m = Some d"
  shows "row_event m event (outcome_tags cfg m)"
    and "k \<noteq> ''duration_seconds'' \<Longrightarrow> row_event m event (with_exception_type (outcome_tags cfg m @ [(k, w)]) m')"
  using assms closes_with_exception_type [of "outcome_tags cfg m @ [(k, w)]" m']
  by (simp_all add: row_event_def closes_def base_tags_def outcome_tags_def)

lemma flush_terminal_balance:
  "flush_terminal ops cfg env m st = (st', r) \<Longrightarrow> acquired_token m \<noteq> None \<Longrightarrow>
     balance st' = balance st - (if r = Inr False then closing m else 0) \<and>
     ds_buffer st' = ds_buffer st \<and> ds_done st' = ds_done st"
  by (auto simp: flush_terminal_def Let_def split: option.splits sum.splits prod.splits if_splits)

lemma flush_retry_balance:
  "flush_retry ops cfg env m st = (st', r) \<Longrightarrow> acquired_token m \<noteq> None \<Longrightarrow> pending_delay_seconds m \<noteq> None \<Longrightarrow>
     balance st' = balance st - (if r = Inr False then closing m else 0) \<and>
     ds_buffer st' = ds_buffer st \<and> ds_done st' = ds_done st"
  by (auto simp: flush_retry_def Let_def split: option.splits sum.splits prod.splits if_splits)

lemma safe_flush_balance:
  assumes "safe_flush ops cfg env terminal m st = (st', r)" and "acquired_token m \<noteq> None"
    and "\<not> terminal \<Longrightarrow> pending_delay_seconds m \<noteq> None"
  shows "balance st' = balance st - (if r = Inr True then 0 else closing m) \<and>
     ds_buffer st' = ds_buffer st \<and> ds_done st' = ds_done st"
proof -
  obtain st1 r1 where f: "(if terminal then flush_terminal else flush_retry) ops cfg env m st = (st1, r1)"
    by fastforce
  then have "balance st1 = balance st - (if r1 = Inr False then closing m else 0) \<and>
      ds_buffer st1 = ds_buffer st \<and> ds_done st1 = ds_done st"
    using flush_terminal_balance [of ops cfg env m st st1 r1] flush_retry_balance [of ops cfg env m st st1 r1]
      assms(2,3) by (cases terminal) auto
  with f assms(1) show ?thesis
    by (cases r1) (auto simp: safe_flush_def Let_def split: if_splits)
qed

lemma flush_or_buffer_balance:
  assumes "flush_or_buffer ops cfg env use_buffer event tgs m st = (st', r)"
    and "acquired_token m \<noteq> None" and "row_event m event tgs"
  shows "balance st' = balance st - closing m \<and> ds_done st' = ds_done st \<and>
    (\<forall>p \<in> set (ds_buffer st'). p \<in> set (ds_buffer st) \<or> pending_ok p)"
proof (cases "use_buffer \<and> dc_terminal_flush_batch_size cfg > 1 \<and> \<not> terminal_has_dlq cfg m")
  case True
  with assms show ?thesis
    by (auto simp: flush_or_buffer_def balance_def pending_ok_def row_event_def)
next
  case False
  obtain st1 r1 where f: "safe_flush ops cfg env True m st = (st1, r1)" by fastforce
  with False assms(1) safe_flush_balance [OF f assms(2)] net_row_event [OF assms(3)] show ?thesis
    by (cases r1) (auto simp: flush_or_buffer_def Let_def split: if_splits)
qed

lemma write_settled_balance:
  assumes "write_settled ops cfg env use_buffer m st = (st', r)"
    and tok: "acquired_token m \<noteq> None" and dur: "handler_duration_seconds m = Some d"
    and out: "outcome m \<noteq> None"
  shows "balance st' = balance st - 1 \<and> ds_done st' = ds_done st \<and>
    (\<forall>p \<in> set (ds_buffer st'). p \<in> set (ds_buffer st) \<or> pending_ok p)"
proof -
  have c: "closing m = 1" by (simp add: closing_def dur)
  obtain out' where out': "outcome m = Some out'" using out by blast
  show ?thesis
  proof (cases out')
    case (Retry d')
    obtain st1 r1 where f: "safe_flush ops cfg env False m st = (st1, r1)" by fastforce
    have "pending_delay_seconds m \<noteq> None" using out' Retry by (simp add: pending_delay_seconds_def)
    with f safe_flush_balance [OF f tok] have b: "balance st1 = balance st - (if r1 = Inr True then 0 else 1)"
      "ds_buffer st1 = ds_buffer st" "ds_done st1 = ds_done st" by (simp_all add: c)
    show ?thesis using f b assms(1) out' Retry
        net_row_event [OF row_event_tags(2) [OF _ dur], of "''nacked_retried''" "''next_delay_seconds''"]
      by (cases r1) (auto simp: write_settled_def c split: if_splits)
  next
    case Ack
    with assms(1) out' show ?thesis
      using flush_or_buffer_balance [OF _ tok row_event_tags(1) [OF _ dur]]
      by (fastforce simp: write_settled_def c)
  next
    case (Terminal reason)
    with assms(1) out' show ?thesis
      using flush_or_buffer_balance [OF _ tok row_event_tags(2) [OF _ dur]]
      by (fastforce simp: write_settled_def c)
  qed
qed

lemma write_outcome_balance:
  assumes "write_outcome ops cfg env running now use_buffer m st = (st', r)"
    and "acquired_token m \<noteq> None" and "handler_duration_seconds m = Some d"
  shows "balance st' = balance st - 1 \<and> ds_done st' = ds_done st \<and>
    (\<forall>p \<in> set (ds_buffer st'). p \<in> set (ds_buffer st) \<or> pending_ok p)"
proof (cases "\<not> state_set m \<and> \<not> running")
  case True
  have "closing m = 1" using assms(3) by (simp add: closing_def)
  with True assms(1) show ?thesis by (auto simp: write_outcome_def)
next
  case False
  have "acquired_token (assert_state_set now m) \<noteq> None"
    using assms(2) row_ident_ext [OF row_ident_assert_state_set [of now m]] by simp
  with False assms assert_state_set_outcome [of now m] show ?thesis
    by (intro write_settled_balance [of ops cfg env use_buffer "assert_state_set now m" st st' r d])
      (auto simp: write_outcome_def)
qed

text \<open>Consume lets an exception through that no \<open>except Exception\<close> of the dispatch catches.\<close>

definition interrupted :: "bool \<Rightarrow> consume_env \<Rightarrow> bool" where
  "interrupted running env \<longleftrightarrow> running \<and>
     (case ce_exit env of
        None \<Rightarrow> False
      | Some e \<Rightarrow>
          (case exn_kind e of
             CancelledError \<Rightarrow> True
           | StopConsume \<Rightarrow> (case ce_stop env of Some e' \<Rightarrow> \<not> is_exception e' | None \<Rightarrow> False)
           | SystemExit \<Rightarrow> (case ce_stop env of Some e' \<Rightarrow> \<not> is_exception e' | None \<Rightarrow> False)
           | _ \<Rightarrow> False))"

lemma interrupted_consume:
  "interrupted running env \<longleftrightarrow> (case snd (consume running env m) of Some e \<Rightarrow> \<not> is_exception e | None \<Rightarrow> False)"
  by (auto simp: interrupted_def consume_def is_exception_def split: option.split exn_class.splits)

definition passes_gate :: "dispatch_config \<Rightarrow> inner_message \<Rightarrow> bool" where
  "passes_gate cfg m \<longleftrightarrow> (case dc_max_deliveries cfg of None \<Rightarrow> True | Some n \<Rightarrow> deliveries_count m \<le> n)"

lemma run_pipeline_balance:
  assumes d: "run_pipeline ops cfg env cenv running running' use_buffer m st = (st', r)"
    and tok: "acquired_token m \<noteq> None"
  shows "balance st' = balance st + (if interrupted running cenv then 1 else 0) \<and>
    ds_done st' = ds_done st \<and>
    (\<forall>p \<in> set (ds_buffer st'). p \<in> set (ds_buffer st) \<or> pending_ok p)"
proof -
  obtain m1 raised where c: "consume running cenv m = (m1, raised)" by fastforce
  let ?m2 = "m1\<lparr>handler_duration_seconds := Some (ce_duration cenv)\<rparr>"
  let ?st1 = "emit [dispatched_event cfg m] st"
  have open1: "net [dispatched_event cfg m] = 1"
    by (simp add: dispatched_event_def net_def opens_def closes_def base_tags_def)
  have "row_ident m1 = row_ident m" using c by (auto simp: consume_def split: if_splits)
  from row_ident_ext [OF this] tok have tok2: "acquired_token ?m2 \<noteq> None" by simp
  have int: "interrupted running cenv \<longleftrightarrow> (case raised of Some e \<Rightarrow> \<not> is_exception e | None \<Rightarrow> False)"
    using interrupted_consume [of running cenv m] c by simp
  note w = write_outcome_balance [OF _ tok2, of ops cfg env running' "ce_now cenv" _ ?st1 _ _ "ce_duration cenv",
      simplified]
  show ?thesis
  proof (cases raised)
    case None
    with d c have "write_outcome ops cfg env running' (ce_now cenv) use_buffer ?m2 ?st1 = (st', r)"
      by (simp add: run_pipeline_def finish_pipeline_def Let_def)
    from w [OF this] int None open1 show ?thesis by simp
  next
    case (Some e)
    show ?thesis
    proof (cases "exn_kind e = OutboxConfigError")
      case True
      obtain st2 r2 where w2: "write_outcome ops cfg env running' (ce_now cenv) False ?m2 ?st1 = (st2, r2)"
        by fastforce
      with d c Some True have "st' = st2" by (cases r2) (auto simp: run_pipeline_def finish_pipeline_def Let_def)
      with w [OF w2] int Some True open1 show ?thesis by (simp add: is_exception_def)
    next
      case False
      have "closing ?m2 = 1" by (simp add: closing_def)
      with d c False int Some open1 show ?thesis by (auto simp: run_pipeline_def finish_pipeline_def Let_def split: if_splits)
    qed
  qed
qed

lemma dispatch_one_balance:
  assumes d: "dispatch_one ops cfg env cenv running running' use_buffer m st = (st', r)"
    and tok: "acquired_token m \<noteq> None" and fresh: "handler_duration_seconds m = None"
  shows "balance st' = balance st + (if passes_gate cfg m \<and> interrupted running cenv then 1 else 0) \<and>
    ds_done st' = ds_done st \<and>
    (\<forall>p \<in> set (ds_buffer st'). p \<in> set (ds_buffer st) \<or> pending_ok p)"
proof -
  obtain ok m0 where al: "allow_delivery (dc_max_deliveries cfg) (m\<lparr>retry_strategy := dc_retry_strategy cfg\<rparr>) = (ok, m0)"
    by fastforce
  then have id0: "acquired_token m0 \<noteq> None" "handler_duration_seconds m0 = None"
    and ok: "ok = passes_gate cfg m"
    using tok fresh by (auto simp: allow_delivery_def passes_gate_def split: option.splits if_splits)
  show ?thesis
  proof (cases ok)
    case False
    have e: "row_event m0 ''nacked_terminal'' (max_deliveries_tags cfg m0)"
      by (simp add: row_event_def closes_def base_tags_def max_deliveries_tags_def id0)
    have "flush_or_buffer ops cfg env use_buffer ''nacked_terminal'' (max_deliveries_tags cfg m0) m0 st = (st', r)"
      using d False by (simp add: dispatch_one_def al)
    from flush_or_buffer_balance [OF this id0(1) e] False ok id0(2) show ?thesis by (simp add: closing_def)
  next
    case True
    then have "run_pipeline ops cfg env cenv running running' use_buffer m0 st = (st', r)"
      using d by (simp add: dispatch_one_def al)
    from run_pipeline_balance [OF this id0(1)] True ok show ?thesis by simp
  qed
qed

lemma flush_buffer_balance:
  assumes "flush_buffer ops cfg env st = (st', r)" and "\<forall>p \<in> set (ds_buffer st). pending_ok p"
  shows "balance st' = balance st \<and> ds_done st' = ds_done st + length (ds_buffer st) \<and> ds_buffer st' = []"
proof -
  have one: "net [pending_event cfg del p] = - closing (pf_row p)" if "pending_ok p" for del p
    using that net_lease_lost [of cfg "pf_row p" "''terminal''"]
    by (auto simp: pending_event_def pending_ok_def net_def opens_def closing_def)
  have "net (map (pending_event cfg del) b) = - sum_list (map (closing \<circ> pf_row) b)"
    if "\<forall>p \<in> set b. pending_ok p" for del b
    using that
  proof (induction b)
    case (Cons p b)
    then show ?case using one [of p del] net_append [of "[pending_event cfg del p]"] by simp
  qed simp
  moreover have "net (concat (map (\<lambda>p. dispatch_abandoned_events cfg (pf_row p)) b)) =
      - sum_list (map (closing \<circ> pf_row) b)" for b
    by (induction b) simp_all
  ultimately show ?thesis using assms
    by (auto simp: flush_buffer_def balance_def Let_def split: if_splits sum.splits prod.splits)
qed

section \<open>What a dispatch does to the table\<close>

text \<open>The message on which the dispatch settles, or \<open>None\<close> if it leaves the row to lease expiry.\<close>

definition settled :: "dispatch_config \<Rightarrow> consume_env \<Rightarrow> bool \<Rightarrow> bool \<Rightarrow> inner_message \<Rightarrow>
    inner_message option" where
  "settled cfg cenv running running' row =
     (let (allowed, m) = allow_delivery (dc_max_deliveries cfg) (row\<lparr>retry_strategy := dc_retry_strategy cfg\<rparr>)
      in if \<not> allowed then Some m
         else let (m1, raised) = consume running cenv m;
                  m2 = m1\<lparr>handler_duration_seconds := Some (ce_duration cenv)\<rparr>
              in if (case raised of None \<Rightarrow> True | Some e \<Rightarrow> exn_kind e = OutboxConfigError) \<and>
                    (state_set m2 \<or> running')
                 then Some (assert_state_set (ce_now cenv) m2) else None)"

text \<open>The write that the outcome of a settled message asks for: on the rows, and on the archive.\<close>

definition retry_write_of :: "inner_message \<Rightarrow> rat \<Rightarrow> retry_write" where
  "retry_write_of m d = \<lparr>rw_delay = d, rw_attempts_count = attempts_count m,
     rw_first_attempt_at = first_attempt_at m, rw_last_attempt_at = last_attempt_at m\<rparr>"

definition decided_rows :: "time \<Rightarrow> token \<Rightarrow> inner_message \<Rightarrow> outbox_row list \<Rightarrow> outbox_row list" where
  "decided_rows now tok m rs = (case outcome m of
     Some (Retry d) \<Rightarrow> rescheduled now (row_id m) tok (retry_write_of m d) rs
   | _ \<Rightarrow> not_held [(row_id m, tok)] rs)"

definition decided_archive :: "dispatch_config \<Rightarrow> time \<Rightarrow> token \<Rightarrow> inner_message \<Rightarrow> outbox_row list \<Rightarrow>
    dlq_row list" where
  "decided_archive cfg now tok m rs = (case dlq_payload_of cfg m of
     Inr ctx \<Rightarrow> archived now ctx (held [(row_id m, tok)] rs) | Inl e \<Rightarrow> [])"

definition decided :: "dispatch_config \<Rightarrow> write_env \<Rightarrow> inner_message \<Rightarrow>
    outbox_row list \<times> dlq_row list \<Rightarrow> outbox_row list \<times> dlq_row list" where
  "decided cfg env m c = (decided_rows (we_now env) (the (acquired_token m)) m (fst c),
     snd c @ decided_archive cfg (we_now env) (the (acquired_token m)) m (fst c))"

definition lease_live :: "inner_message \<Rightarrow> outbox_row list \<Rightarrow> bool" where
  "lease_live m rs \<longleftrightarrow> held [(row_id m, the (acquired_token m))] rs \<noteq> []"

lemma dlq_payload_of_retry: "outcome m = Some (Retry d) \<Longrightarrow> dlq_payload_of cfg m = Inr None"
  by (simp add: dlq_payload_of_def terminal_failure_reason_def)

lemma dlq_payload_of_dlq: "dlq_payload_of cfg m = Inr ctx \<Longrightarrow> ctx = None \<or> dc_dlq cfg"
  by (auto simp: dlq_payload_of_def split: option.splits sum.splits if_splits)

lemma settled_ident:
  "settled cfg cenv running running' m = Some mf \<Longrightarrow> row_ident mf = row_ident m \<and> outcome mf \<noteq> None"
proof -
  assume s: "settled cfg cenv running running' m = Some mf"
  let ?m = "m\<lparr>retry_strategy := dc_retry_strategy cfg\<rparr>"
  obtain ok m0 where al: "allow_delivery (dc_max_deliveries cfg) ?m = (ok, m0)" by fastforce
  then have "row_ident m0 = row_ident ?m" using row_ident_allow_delivery [of "dc_max_deliveries cfg" ?m] by simp
  then have id0: "row_ident m0 = row_ident m" by (simp add: row_ident_def)
  show ?thesis
  proof (cases ok)
    case False
    with al have "outcome m0 \<noteq> None" by (auto simp: allow_delivery_def split: option.splits if_splits)
    with s al False id0 show ?thesis by (simp add: settled_def)
  next
    case True
    obtain m1 raised where c: "consume running cenv m0 = (m1, raised)" by fastforce
    then have "row_ident m1 = row_ident m0" by (auto simp: consume_def split: if_splits)
    then have "row_ident (m1\<lparr>handler_duration_seconds := Some (ce_duration cenv)\<rparr>) = row_ident m"
      using id0 by (simp add: row_ident_def)
    with s al True c assert_state_set_outcome [of "ce_now cenv" "m1\<lparr>handler_duration_seconds := Some (ce_duration cenv)\<rparr>"]
    show ?thesis by (auto simp: settled_def Let_def split: if_splits)
  qed
qed

context leased_store
begin

text \<open>
  One write: whatever the fault, the store is either as before or as the outcome decides, and without
  a fault it is as decided and the result says whether the lease was still held.
\<close>

lemma bounded_wrote:
  assumes "inv s" and "bounded f statement s = (s', res)"
    and "\<And>s1 r1. statement s = (s1, r1) \<Longrightarrow>
      inv s1 \<and> (rows s1, dlqs s1) = decided cfg env m (rows s, dlqs s) \<and> r1 = Inr b"
  shows "inv s' \<and> (rows s', dlqs s') \<in> {(rows s, dlqs s), decided cfg env m (rows s, dlqs s)} \<and>
    (f = NoFault \<longrightarrow> (rows s', dlqs s') = decided cfg env m (rows s, dlqs s) \<and> res = Inr b) \<and>
    (\<forall>b'. res = Inr b' \<longrightarrow> f = NoFault)"
proof -
  obtain s1 r1 where st: "statement s = (s1, r1)" by fastforce
  from assms(3) [OF this] assms(1,2) st show ?thesis by (cases f) auto
qed

lemma flush_terminal_effect:
  assumes f: "flush_terminal ops cfg env m st = (st', r)" and i: "inv (ds_store st)"
    and c: "live (dc_writer_conn cfg)" and d: "dc_dlq cfg \<longrightarrow> has_dlq"
    and t: "acquired_token m = Some tok" and out: "\<And>x. outcome m \<noteq> Some (Retry x)"
  defines "c0 \<equiv> (rows (ds_store st), dlqs (ds_store st))"
  defines "c1 \<equiv> (rows (ds_store st'), dlqs (ds_store st'))"
  shows "inv (ds_store st') \<and> c1 \<in> {c0, decided cfg env m c0} \<and>
    (we_fault env = NoFault \<longrightarrow> (\<forall>ctx. dlq_payload_of cfg m = Inr ctx \<longrightarrow>
       c1 = decided cfg env m c0 \<and> r = Inr (lease_live m (fst c0)))) \<and>
    (r = Inr True \<longrightarrow> c1 = decided cfg env m c0 \<and> lease_live m (fst c0))"
proof (cases "dlq_payload_of cfg m")
  case (Inl e)
  then show ?thesis using f t i by (auto simp: flush_terminal_def c0_def c1_def)
next
  case (Inr ctx)
  let ?op = "op_delete ops (dc_writer_conn cfg) (we_now env) (row_id m) tok ctx"
  have rows: "decided_rows (we_now env) tok m rs = not_held [(row_id m, tok)] rs" for rs
    using out by (auto simp: decided_rows_def split: option.split outcome.split)
  have full: "inv s1 \<and> (rows s1, dlqs s1) = decided cfg env m (rows (ds_store st), dlqs (ds_store st)) \<and>
      r1 = Inr (lease_live m (rows (ds_store st)))"
    if "?op (ds_store st) = (s1, r1)" for s1 r1
    using delete_law [OF i c _ that] dlq_payload_of_dlq [OF Inr] d
    by (auto simp: decided_def rows decided_archive_def Inr t lease_live_def)
  obtain s' res where b: "bounded (we_fault env) ?op (ds_store st) = (s', res)" by fastforce
  note w = bounded_wrote [OF i b full]
  have "ds_store st' = s' \<and> r = res"
    using f by (auto simp: flush_terminal_def t Inr b Let_def split: sum.splits option.splits if_splits)
  with w show ?thesis by (cases res) (auto simp: c0_def c1_def)
qed

lemma flush_retry_effect:
  assumes f: "flush_retry ops cfg env m st = (st', r)" and i: "inv (ds_store st)"
    and c: "live (dc_writer_conn cfg)"
    and t: "acquired_token m = Some tok" and out: "outcome m = Some (Retry d)"
  defines "c0 \<equiv> (rows (ds_store st), dlqs (ds_store st))"
  defines "c1 \<equiv> (rows (ds_store st'), dlqs (ds_store st'))"
  shows "inv (ds_store st') \<and> c1 \<in> {c0, decided cfg env m c0} \<and>
    (we_fault env = NoFault \<longrightarrow> c1 = decided cfg env m c0 \<and> r = Inr (lease_live m (fst c0))) \<and>
    (r = Inr True \<longrightarrow> c1 = decided cfg env m c0 \<and> lease_live m (fst c0))"
proof -
  let ?op = "op_mark_pending ops (dc_writer_conn cfg) (we_now env) (row_id m) tok (retry_write_of m d)"
  have full: "inv s1 \<and> (rows s1, dlqs s1) = decided cfg env m (rows (ds_store st), dlqs (ds_store st)) \<and>
      r1 = Inr (lease_live m (rows (ds_store st)))"
    if "?op (ds_store st) = (s1, r1)" for s1 r1
    using mark_pending_law [OF i c that]
    by (auto simp: decided_def decided_rows_def decided_archive_def out t lease_live_def
        dlq_payload_of_retry archived_def)
  obtain s' res where b: "bounded (we_fault env) ?op (ds_store st) = (s', res)" by fastforce
  note w = bounded_wrote [OF i b full]
  have "pending_delay_seconds m = Some d" by (simp add: pending_delay_seconds_def out)
  then have "ds_store st' = s' \<and> r = res"
    using f b by (auto simp: flush_retry_def t retry_write_of_def Let_def split: sum.splits if_splits)
  with w show ?thesis by (cases res) (auto simp: c0_def c1_def)
qed

lemma safe_flush_effect:
  assumes f: "safe_flush ops cfg env terminal m st = (st', r)" and i: "inv (ds_store st)"
    and c: "live (dc_writer_conn cfg)" and d: "dc_dlq cfg \<longrightarrow> has_dlq"
    and t: "acquired_token m \<noteq> None" and out: "terminal \<longleftrightarrow> (\<forall>x. outcome m \<noteq> Some (Retry x))"
  defines "c0 \<equiv> (rows (ds_store st), dlqs (ds_store st))"
  defines "c1 \<equiv> (rows (ds_store st'), dlqs (ds_store st'))"
  shows "inv (ds_store st') \<and> c1 \<in> {c0, decided cfg env m c0} \<and> ds_buffer st' = ds_buffer st \<and>
    (we_fault env = NoFault \<longrightarrow> (\<forall>ctx. dlq_payload_of cfg m = Inr ctx \<longrightarrow>
       c1 = decided cfg env m c0 \<and> r = Inr (lease_live m (fst c0)))) \<and>
    (r = Inr True \<longrightarrow> c1 = decided cfg env m c0 \<and> lease_live m (fst c0))"
proof -
  obtain tok where tok: "acquired_token m = Some tok" using t by blast
  obtain st1 r1 where f1: "(if terminal then flush_terminal else flush_retry) ops cfg env m st = (st1, r1)"
    by fastforce
  let ?c1 = "(rows (ds_store st1), dlqs (ds_store st1))"
  have e: "inv (ds_store st1) \<and> ?c1 \<in> {c0, decided cfg env m c0} \<and>
    (we_fault env = NoFault \<longrightarrow> (\<forall>ctx. dlq_payload_of cfg m = Inr ctx \<longrightarrow>
       ?c1 = decided cfg env m c0 \<and> r1 = Inr (lease_live m (fst c0)))) \<and>
    (r1 = Inr True \<longrightarrow> ?c1 = decided cfg env m c0 \<and> lease_live m (fst c0))"
  proof (cases terminal)
    case True
    with f1 have "flush_terminal ops cfg env m st = (st1, r1)" by simp
    from flush_terminal_effect [OF this i c d tok] True out show ?thesis unfolding c0_def by blast
  next
    case False
    with f1 have f2: "flush_retry ops cfg env m st = (st1, r1)" by simp
    from False out obtain x where "outcome m = Some (Retry x)" by blast
    from flush_retry_effect [OF f2 i c tok this] show ?thesis unfolding c0_def by blast
  qed
  moreover have "ds_buffer st1 = ds_buffer st"
    using flush_terminal_balance [of ops cfg env m st st1 r1] flush_retry_balance [of ops cfg env m st st1 r1]
      f1 t out by (cases terminal) (auto simp: pending_delay_seconds_def)
  moreover have "ds_store st' = ds_store st1 \<and> ds_buffer st' = ds_buffer st1 \<and>
      (r = Inr True \<longleftrightarrow> r1 = Inr True) \<and> (\<forall>b. r1 = Inr b \<longrightarrow> r = r1)"
    using f f1 by (cases r1) (auto simp: safe_flush_def Let_def split: if_splits)
  ultimately show ?thesis unfolding c1_def by force
qed

text \<open>A settled message is either left in the buffer, the table untouched, or written at once.\<close>

lemma flush_or_buffer_effect:
  assumes f: "flush_or_buffer ops cfg env use_buffer event tgs m st = (st', r)" and i: "inv (ds_store st)"
    and c: "live (dc_writer_conn cfg)" and d: "dc_dlq cfg \<longrightarrow> has_dlq"
    and t: "acquired_token m \<noteq> None" and out: "\<forall>x. outcome m \<noteq> Some (Retry x)"
  defines "c0 \<equiv> (rows (ds_store st), dlqs (ds_store st))"
  defines "c1 \<equiv> (rows (ds_store st'), dlqs (ds_store st'))"
  shows "inv (ds_store st') \<and> c1 \<in> {c0, decided cfg env m c0} \<and>
    (r = Inr True \<longrightarrow> use_buffer \<and> c1 = c0 \<and> (\<exists>p. pf_row p = m \<and> ds_buffer st' = ds_buffer st @ [p]) \<and>
       (\<forall>x. outcome m \<noteq> Some (Retry x)) \<and> dlq_payload_of cfg m = Inr None) \<and>
    (r \<noteq> Inr True \<longrightarrow> ds_buffer st' = ds_buffer st \<and>
       (we_fault env = NoFault \<longrightarrow> (\<forall>ctx. dlq_payload_of cfg m = Inr ctx \<longrightarrow> c1 = decided cfg env m c0)))"
proof (cases "use_buffer \<and> dc_terminal_flush_batch_size cfg > 1 \<and> \<not> terminal_has_dlq cfg m")
  case True
  with f out i show ?thesis
    by (auto simp: flush_or_buffer_def c0_def c1_def terminal_has_dlq_def dlq_payload_of_def split: option.split)
next
  case no: False
  obtain st1 r1 where f2: "safe_flush ops cfg env True m st = (st1, r1)" by fastforce
  from safe_flush_effect [OF f2 i c d t] out f f2 no show ?thesis
    by (cases r1) (auto simp: flush_or_buffer_def c0_def c1_def Let_def split: if_splits)
qed

lemma write_settled_effect:
  assumes f: "write_settled ops cfg env use_buffer m st = (st', r)" and i: "inv (ds_store st)"
    and c: "live (dc_writer_conn cfg)" and d: "dc_dlq cfg \<longrightarrow> has_dlq"
    and t: "acquired_token m \<noteq> None" and out: "outcome m \<noteq> None"
  defines "c0 \<equiv> (rows (ds_store st), dlqs (ds_store st))"
  defines "c1 \<equiv> (rows (ds_store st'), dlqs (ds_store st'))"
  shows "inv (ds_store st') \<and> c1 \<in> {c0, decided cfg env m c0} \<and>
    (r = Inr True \<longrightarrow> use_buffer \<and> c1 = c0 \<and> (\<exists>p. pf_row p = m \<and> ds_buffer st' = ds_buffer st @ [p]) \<and>
       (\<forall>x. outcome m \<noteq> Some (Retry x)) \<and> dlq_payload_of cfg m = Inr None) \<and>
    (r \<noteq> Inr True \<longrightarrow> ds_buffer st' = ds_buffer st \<and>
       (we_fault env = NoFault \<longrightarrow> (\<forall>ctx. dlq_payload_of cfg m = Inr ctx \<longrightarrow> c1 = decided cfg env m c0)))"
proof (cases "\<exists>x. outcome m = Some (Retry x)")
  case True
  then obtain x where x: "outcome m = Some (Retry x)" by blast
  obtain st1 r1 where f1: "safe_flush ops cfg env False m st = (st1, r1)" by fastforce
  from safe_flush_effect [OF f1 i c d t] True f f1 x show ?thesis
    by (cases r1) (auto simp: write_settled_def c0_def c1_def split: if_splits)
next
  case False
  then obtain event tgs where "flush_or_buffer ops cfg env use_buffer event tgs m st = (st', r)"
    using f out by (auto simp: write_settled_def split: outcome.splits)
  from flush_or_buffer_effect [OF this i c d t] False show ?thesis unfolding c0_def c1_def by blast
qed

lemma dispatch_effect:
  assumes f: "dispatch_one ops cfg env cenv running running' use_buffer m st = (st', r)"
    and i: "inv (ds_store st)" and c: "live (dc_writer_conn cfg)" and d: "dc_dlq cfg \<longrightarrow> has_dlq"
    and t: "acquired_token m \<noteq> None"
  defines "c0 \<equiv> (rows (ds_store st), dlqs (ds_store st))"
  defines "c1 \<equiv> (rows (ds_store st'), dlqs (ds_store st'))"
  shows "inv (ds_store st') \<and>
    (case settled cfg cenv running running' m of
       None \<Rightarrow> c1 = c0 \<and> ds_buffer st' = ds_buffer st \<and> r \<noteq> Inr True
     | Some mf \<Rightarrow> c1 \<in> {c0, decided cfg env mf c0} \<and>
         (r = Inr True \<longrightarrow> use_buffer \<and> c1 = c0 \<and> (\<exists>p. pf_row p = mf \<and> ds_buffer st' = ds_buffer st @ [p]) \<and>
            (\<forall>x. outcome mf \<noteq> Some (Retry x)) \<and> dlq_payload_of cfg mf = Inr None) \<and>
         (r \<noteq> Inr True \<longrightarrow> ds_buffer st' = ds_buffer st \<and>
            (we_fault env = NoFault \<longrightarrow> (\<forall>ctx. dlq_payload_of cfg mf = Inr ctx \<longrightarrow> c1 = decided cfg env mf c0))))"
proof -
  obtain ok m0 where al: "allow_delivery (dc_max_deliveries cfg) (m\<lparr>retry_strategy := dc_retry_strategy cfg\<rparr>) = (ok, m0)"
    by fastforce
  show ?thesis
  proof (cases ok)
    case False
    with al have out: "\<forall>x. outcome m0 \<noteq> Some (Retry x)" and tok: "acquired_token m0 \<noteq> None"
      using t by (auto simp: allow_delivery_def split: option.splits if_splits)
    from f False al have "flush_or_buffer ops cfg env use_buffer ''nacked_terminal'' (max_deliveries_tags cfg m0) m0 st = (st', r)"
      by (simp add: dispatch_one_def)
    from flush_or_buffer_effect [OF this i c d tok out] show ?thesis
      using False by (simp add: settled_def al c0_def c1_def)
  next
    case True
    obtain m1 raised where con: "consume running cenv m0 = (m1, raised)" by fastforce
    let ?m2 = "m1\<lparr>handler_duration_seconds := Some (ce_duration cenv)\<rparr>"
    let ?mf = "assert_state_set (ce_now cenv) ?m2"
    let ?st1 = "emit [dispatched_event cfg m0] st"
    let ?writes = "(case raised of None \<Rightarrow> True | Some e \<Rightarrow> exn_kind e = OutboxConfigError) \<and> (state_set ?m2 \<or> running')"
    have run: "run_pipeline ops cfg env cenv running running' use_buffer m0 st = (st', r)"
      using f True al by (simp add: dispatch_one_def)
    show ?thesis
    proof (cases ?writes)
      case False
      then show ?thesis using run con True al i
        by (auto simp: run_pipeline_def finish_pipeline_def write_outcome_def settled_def Let_def c0_def c1_def split: option.splits if_splits)
    next
      case w: True
      then have s: "settled cfg cenv running running' m = Some ?mf"
        using True al con by (auto simp: settled_def Let_def)
      let ?ub = "use_buffer \<and> raised = None"
      obtain st2 r2 where w2: "write_settled ops cfg env ?ub ?mf ?st1 = (st2, r2)" by fastforce
      have same: "st' = st2" and r: "if raised = None then r = r2 else r \<noteq> Inr True"
        using run con w w2
        by (auto simp: run_pipeline_def finish_pipeline_def write_outcome_def Let_def split: option.splits prod.splits sum.splits)
      have "row_ident ?mf = row_ident m" and out: "outcome ?mf \<noteq> None" using settled_ident [OF s] by auto
      then have tok: "acquired_token ?mf \<noteq> None" using row_ident_ext t by fastforce
      from write_settled_effect [OF w2 _ c d tok out] i r show ?thesis
        by (auto simp: s same c0_def c1_def split: if_splits)
    qed
  qed
qed

text \<open>The buffered deletes, one statement.\<close>

lemma flush_buffer_effect:
  assumes f: "flush_buffer ops cfg env st = (st', r)" and i: "inv (ds_store st)"
    and c: "live (dc_writer_conn cfg)"
  defines "pairs \<equiv> buffer_pairs (ds_buffer st)"
  shows "inv (ds_store st') \<and> dlqs (ds_store st') = dlqs (ds_store st) \<and>
    rows (ds_store st') \<in> {rows (ds_store st), not_held pairs (rows (ds_store st))} \<and>
    (we_fault env = NoFault \<longrightarrow> r = None \<and> rows (ds_store st') = not_held pairs (rows (ds_store st)) \<and>
       ds_events st' = ds_events st @ map (pending_event cfg
         ((\<lambda>x. (row_id x, the (acquired_token x))) ` set (held pairs (rows (ds_store st))))) (ds_buffer st))"
proof (cases "ds_buffer st = []")
  case True
  then show ?thesis using f i
    by (auto simp: flush_buffer_def pairs_def buffer_pairs_def not_held_def map_filter_simps)
next
  case False
  obtain s1 r1 where op: "op_delete_batch ops (dc_writer_conn cfg) pairs (ds_store st) = (s1, r1)" by fastforce
  from delete_batch_law [OF i c op] f False op show ?thesis
    by (cases "we_fault env") (auto simp: flush_buffer_def pairs_def i)
qed

end

section \<open>Reports and the table\<close>

text \<open>The events that report a fate: they must come with the write they report.\<close>

definition reports :: "metric_event \<Rightarrow> bool" where
  "reports ev \<longleftrightarrow> fst ev \<in> {''acked'', ''nacked_terminal'', ''nacked_retried''}"

definition report_count :: "'s dispatch_state \<Rightarrow> nat" where
  "report_count st = length (filter reports (ds_events st))"

lemma not_reports [simp]:
  "\<not> reports (lease_lost_event cfg m phase)" "\<not> reports (dlq_written_event cfg m c)"
  "\<not> reports (dispatched_event cfg m)" "filter reports (dispatch_abandoned_events cfg m) = []"
  by (simp_all add: reports_def lease_lost_event_def dlq_written_event_def dispatched_event_def
      dispatch_abandoned_events_def split: option.split)

lemma report_count_emit [simp]: "report_count (emit evs st) = report_count st + length (filter reports evs)"
  by (simp add: report_count_def)

lemma report_count_store [simp]: "report_count (st\<lparr>ds_store := s\<rparr>) = report_count st"
  by (simp add: report_count_def)

lemma report_count_flush:
  "flush_terminal ops cfg env m st = (st', r) \<Longrightarrow> report_count st' = report_count st"
  "flush_retry ops cfg env m st = (st', r) \<Longrightarrow> report_count st' = report_count st"
  by (auto simp: flush_terminal_def flush_retry_def Let_def split: option.splits sum.splits prod.splits if_splits)

lemma report_count_safe_flush:
  "safe_flush ops cfg env terminal m st = (st', r) \<Longrightarrow> report_count st' = report_count st"
  using report_count_flush [of ops cfg env m st]
  by (cases terminal) (auto simp: safe_flush_def Let_def split: prod.splits sum.splits if_splits)

context leased_store
begin

lemma flush_or_buffer_reports:
  assumes f: "flush_or_buffer ops cfg env use_buffer event tgs m st = (st', r)" and i: "inv (ds_store st)"
    and c: "live (dc_writer_conn cfg)" and d: "dc_dlq cfg \<longrightarrow> has_dlq"
    and t: "acquired_token m \<noteq> None" and out: "\<forall>x. outcome m \<noteq> Some (Retry x)"
    and n: "report_count st' \<noteq> report_count st"
  shows "(rows (ds_store st'), dlqs (ds_store st')) =
      decided cfg env m (rows (ds_store st), dlqs (ds_store st)) \<and> lease_live m (rows (ds_store st))"
proof -
  obtain st1 r1 where f2: "safe_flush ops cfg env True m st = (st1, r1)" by fastforce
  then have "r1 = Inr True \<and> ds_store st' = ds_store st1"
    using f n report_count_safe_flush [OF f2]
    by (cases r1) (auto simp: flush_or_buffer_def report_count_def split: if_splits)
  with safe_flush_effect [OF f2 i c d t] out show ?thesis by auto
qed

lemma write_settled_reports:
  assumes f: "write_settled ops cfg env use_buffer m st = (st', r)" and i: "inv (ds_store st)"
    and c: "live (dc_writer_conn cfg)" and d: "dc_dlq cfg \<longrightarrow> has_dlq"
    and t: "acquired_token m \<noteq> None" and out: "outcome m \<noteq> None"
    and n: "report_count st' \<noteq> report_count st"
  shows "(rows (ds_store st'), dlqs (ds_store st')) =
      decided cfg env m (rows (ds_store st), dlqs (ds_store st)) \<and> lease_live m (rows (ds_store st))"
proof (cases "\<exists>x. outcome m = Some (Retry x)")
  case True
  then obtain x where x: "outcome m = Some (Retry x)" by blast
  obtain st1 r1 where f1: "safe_flush ops cfg env False m st = (st1, r1)" by fastforce
  then have "r1 = Inr True \<and> ds_store st' = ds_store st1"
    using f n x report_count_safe_flush [OF f1]
    by (cases r1) (auto simp: write_settled_def split: if_splits)
  with safe_flush_effect [OF f1 i c d t] True show ?thesis by auto
next
  case False
  then obtain event tgs where "flush_or_buffer ops cfg env use_buffer event tgs m st = (st', r)"
    using f out by (auto simp: write_settled_def split: outcome.splits)
  from flush_or_buffer_reports [OF this i c d t _ n] False show ?thesis by blast
qed

lemma dispatch_reports:
  assumes f: "dispatch_one ops cfg env cenv running running' use_buffer m st = (st', r)"
    and i: "inv (ds_store st)" and c: "live (dc_writer_conn cfg)" and d: "dc_dlq cfg \<longrightarrow> has_dlq"
    and t: "acquired_token m \<noteq> None" and n: "report_count st' \<noteq> report_count st"
  shows "\<exists>mf. settled cfg cenv running running' m = Some mf \<and>
    (rows (ds_store st'), dlqs (ds_store st')) =
      decided cfg env mf (rows (ds_store st), dlqs (ds_store st)) \<and> lease_live mf (rows (ds_store st))"
proof -
  obtain ok m0 where al: "allow_delivery (dc_max_deliveries cfg) (m\<lparr>retry_strategy := dc_retry_strategy cfg\<rparr>) = (ok, m0)"
    by fastforce
  show ?thesis
  proof (cases ok)
    case False
    with al have out: "\<forall>x. outcome m0 \<noteq> Some (Retry x)" and tok: "acquired_token m0 \<noteq> None"
      using t by (auto simp: allow_delivery_def split: option.splits if_splits)
    from f False al have "flush_or_buffer ops cfg env use_buffer ''nacked_terminal'' (max_deliveries_tags cfg m0) m0 st = (st', r)"
      by (simp add: dispatch_one_def)
    from flush_or_buffer_reports [OF this i c d tok out n] show ?thesis using False by (simp add: settled_def al)
  next
    case True
    obtain m1 raised where con: "consume running cenv m0 = (m1, raised)" by fastforce
    let ?m2 = "m1\<lparr>handler_duration_seconds := Some (ce_duration cenv)\<rparr>"
    let ?mf = "assert_state_set (ce_now cenv) ?m2"
    let ?st1 = "emit [dispatched_event cfg m0] st"
    let ?writes = "(case raised of None \<Rightarrow> True | Some e \<Rightarrow> exn_kind e = OutboxConfigError) \<and> (state_set ?m2 \<or> running')"
    have run: "run_pipeline ops cfg env cenv running running' use_buffer m0 st = (st', r)"
      using f True al by (simp add: dispatch_one_def)
    then have w: ?writes using con n
      by (auto simp: run_pipeline_def finish_pipeline_def write_outcome_def Let_def split: option.splits if_splits)
    then have s: "settled cfg cenv running running' m = Some ?mf"
      using True al con by (auto simp: settled_def Let_def)
    let ?ub = "use_buffer \<and> raised = None"
    obtain st2 r2 where w2: "write_settled ops cfg env ?ub ?mf ?st1 = (st2, r2)" by fastforce
    have same: "st' = st2"
      using run con w w2
      by (auto simp: run_pipeline_def finish_pipeline_def write_outcome_def Let_def split: option.splits prod.splits sum.splits)
    have "row_ident ?mf = row_ident m" and out: "outcome ?mf \<noteq> None" using settled_ident [OF s] by auto
    then have tok: "acquired_token ?mf \<noteq> None" using row_ident_ext t by fastforce
    have "report_count st2 \<noteq> report_count ?st1" using n same by simp
    from write_settled_reports [OF w2 _ c d tok out this] i s same show ?thesis by simp
  qed
qed

end

end
