(* ===== verification/Dispatch_Properties.thy ===== *)
theory Dispatch_Properties
  imports Dispatch
begin

text \<open>
  The properties of a dispatch over the Postgres client, from the facts of its interpretation: which
  rows it may touch, that its write is all or nothing and is the one the outcome asks for, that the
  metrics agree with the table, and that each dispatch is closed once.
\<close>

section \<open>A sample dispatch\<close>

definition sample_config :: dispatch_config where
  "sample_config = \<lparr>dc_call_name = ''h'', dc_retry_strategy = Some no_retry_strategy, dc_max_deliveries = Some 5,
     dc_terminal_flush_batch_size = 2, dc_dlq = True, dc_renderer = None, dc_writer_conn = True\<rparr>"

definition sample_leased :: inner_message where
  "sample_leased = row_to_message 0 (claim_row 90 7 (new_row 2 0 ''q'' [2] None 3 None))"

definition sample_state :: "outbox_db dispatch_state" where
  "sample_state = \<lparr>ds_store = sample_db, ds_events = [], ds_buffer = [], ds_done = 0\<rparr>"

definition sample_reject :: consume_env where
  "sample_reject = \<lparr>ce_calls = [CallReject 95], ce_exit = None, ce_stop = None, ce_duration = 1, ce_now = 96\<rparr>"

definition sample_cancel :: consume_env where
  "sample_cancel = \<lparr>ce_calls = [], ce_exit = Some \<lparr>exn_kind = CancelledError, exn_name = ''CancelledError'',
     exn_repr = []\<rparr>, ce_stop = None, ce_duration = 1, ce_now = 96\<rparr>"

definition sample_write :: write_env where
  "sample_write = \<lparr>we_now = 97, we_fault = NoFault\<rparr>"

lemmas sample_defs = sample_config_def sample_leased_def sample_state_def sample_reject_def
  sample_write_def sample_db_def sample_cancel_def

lemma sample_leased_token [simp]: "acquired_token sample_leased = Some 7" "row_id sample_leased = 2"
    "handler_duration_seconds sample_leased = None"
  by (simp_all add: sample_leased_def)

lemma sample_settled: "\<exists>mf. settled sample_config sample_reject True True sample_leased = Some mf \<and>
    outcome mf = Some (Terminal Rejected) \<and> acquired_token mf = Some 7 \<and> row_id mf = 2 \<and>
    last_exception mf = None"
  by (auto simp: settled_def sample_defs allow_delivery_def consume_def msg_defs assert_state_set_def Let_def
      new_row_def claim_row_def row_to_message_def outbox_row.defs inner_message.defs)

section \<open>Properties\<close>

text \<open>
  Property C19. What a dispatch does to the tables, for every handler, outcome and fault: if it settles
  on no outcome it changes nothing; otherwise the tables are either as before or exactly as the
  outcome decides (the leased row rescheduled, or deleted and, for a failure with a DLQ, archived in
  the same step), never half of it; without a fault an inline write is the decided one; and a row
  left for the batch has an outcome that deletes without archiving.
\<close>

theorem dispatch_all_or_nothing:
  assumes "wf_rows (db_rows (ds_store st))" and "dc_writer_conn cfg" and "acquired_token m \<noteq> None"
    and "dispatch_one (real_ops order locked (dc_dlq cfg)) cfg env cenv running running' use_buffer m st = (st', r)"
  defines "c0 \<equiv> (db_rows (ds_store st), db_dlq (ds_store st))"
    and "c1 \<equiv> (db_rows (ds_store st'), db_dlq (ds_store st'))"
  shows "case settled cfg cenv running running' m of
      None \<Rightarrow> c1 = c0 \<and> ds_buffer st' = ds_buffer st \<and> r \<noteq> Inr True
    | Some mf \<Rightarrow> c1 \<in> {c0, decided cfg env mf c0} \<and>
        (r = Inr True \<longrightarrow> use_buffer \<and> c1 = c0 \<and> (\<exists>p. pf_row p = mf \<and> ds_buffer st' = ds_buffer st @ [p]) \<and>
           (\<forall>d. outcome mf \<noteq> Some (Retry d)) \<and> dlq_payload_of cfg mf = Inr None) \<and>
        (r \<noteq> Inr True \<longrightarrow> ds_buffer st' = ds_buffer st \<and>
           (we_fault env = NoFault \<longrightarrow> (\<forall>ctx. dlq_payload_of cfg mf = Inr ctx \<longrightarrow> c1 = decided cfg env mf c0)))"
  using real.dispatch_effect [OF assms(4)] assms(1-3) unfolding c0_def c1_def db_inv_def by simp

theorem dispatch_all_or_nothing_witness:
  "\<exists>mf. settled sample_config sample_reject True True sample_leased = Some mf \<and>
     (let st' = fst (dispatch_one (real_ops [] {} True) sample_config sample_write sample_reject True True False
            sample_leased sample_state)
      in (db_rows (ds_store st'), db_dlq (ds_store st')) \<in>
         {(db_rows sample_db, []), decided sample_config sample_write mf (db_rows sample_db, [])})"
proof -
  obtain mf where mf: "settled sample_config sample_reject True True sample_leased = Some mf"
    using sample_settled by blast
  have "wf_rows (db_rows (ds_store sample_state))" "ds_store sample_state = sample_db"
      "dc_writer_conn sample_config" "dc_dlq sample_config"
    using sample_db_wf by (simp_all add: sample_state_def sample_config_def)
  with dispatch_all_or_nothing [OF _ _ _ prod.collapse [symmetric], of sample_state sample_config sample_leased
      "[]" "{}" sample_write sample_reject True True False] mf
  show ?thesis by (auto simp: Let_def sample_db_def)
qed

text \<open>
  Property C20. The lease guards the write: a dispatch, whatever happens in it, leaves every row that
  does not carry its lease exactly as it is, and if no row carries it any more (a newer fetch
  reclaimed the row) it changes neither table. A row disappears only when the outcome is an
  acknowledgement or a final failure, never for a retry, and the archive grows only by the copy of
  that row.
\<close>

theorem dispatch_respects_lease:
  assumes "wf_rows (db_rows (ds_store st))" and "dc_writer_conn cfg" and "acquired_token m = Some tok"
    and "dispatch_one (real_ops order locked (dc_dlq cfg)) cfg env cenv running running' use_buffer m st = (st', r)"
  shows "filter (\<lambda>x. row_id x \<noteq> row_id m) (db_rows (ds_store st')) =
      filter (\<lambda>x. row_id x \<noteq> row_id m) (db_rows (ds_store st)) \<and>
    (held [(row_id m, tok)] (db_rows (ds_store st)) = [] \<longrightarrow>
       db_rows (ds_store st') = db_rows (ds_store st) \<and> db_dlq (ds_store st') = db_dlq (ds_store st)) \<and>
    (row_id m \<in> row_id ` set (db_rows (ds_store st)) \<and> row_id m \<notin> row_id ` set (db_rows (ds_store st')) \<longrightarrow>
       (\<exists>mf. settled cfg cenv running running' m = Some mf \<and>
          (outcome mf = Some Ack \<and> db_dlq (ds_store st') = db_dlq (ds_store st) \<or>
           (\<exists>reason. outcome mf = Some (Terminal reason)) \<and> db_dlq (ds_store st') =
             db_dlq (ds_store st) @ decided_archive cfg (we_now env) tok mf (db_rows (ds_store st)))))"
proof -
  let ?i = "row_id m" and ?rs = "db_rows (ds_store st)"
  have eff: "case settled cfg cenv running running' m of
      None \<Rightarrow> db_rows (ds_store st') = ?rs \<and> db_dlq (ds_store st') = db_dlq (ds_store st)
    | Some mf \<Rightarrow> (db_rows (ds_store st'), db_dlq (ds_store st')) \<in>
        {(?rs, db_dlq (ds_store st)), decided cfg env mf (?rs, db_dlq (ds_store st))}"
    using real.dispatch_effect [OF assms(4)] assms(1-3) by (auto simp: db_inv_def split: option.splits)
  have other: "filter (\<lambda>x. row_id x \<noteq> ?i) (rescheduled now ?i tok w rs) = filter (\<lambda>x. row_id x \<noteq> ?i) rs"
    "filter (\<lambda>x. row_id x \<noteq> ?i) (not_held [(?i, tok)] rs) = filter (\<lambda>x. row_id x \<noteq> ?i) rs" for now w rs
    by (induction rs) (auto simp: rescheduled_def not_held_def holds_lease_def)
  have none: "rescheduled now ?i tok w ?rs = ?rs \<and> not_held [(?i, tok)] ?rs = ?rs"
    if "held [(?i, tok)] ?rs = []" for now w
    using that by (auto simp: held_def rescheduled_def not_held_def filter_empty_conv filter_id_conv intro!: map_idI)
  show ?thesis
  proof (cases "settled cfg cenv running running' m")
    case None
    with eff show ?thesis by simp
  next
    case (Some mf)
    have "row_ident mf = row_ident m" and out: "outcome mf \<noteq> None" using settled_ident [OF Some] by auto
    then have mf: "row_id mf = ?i" "acquired_token mf = Some tok" using row_ident_ext assms(3) by fastforce+
    have keep: "row_id ` set (rescheduled now ?i tok w ?rs) = row_id ` set ?rs" for now w
      unfolding rescheduled_def set_map image_image by (rule image_cong) auto
    have ack: "decided_archive cfg now tok mf rs = []" if "outcome mf = Some Ack" for now rs
      using that by (simp add: decided_archive_def dlq_payload_of_def terminal_failure_reason_def archived_def)
    have stale: "decided_archive cfg now tok mf ?rs = []" if "held [(?i, tok)] ?rs = []" for now
      using that by (simp add: decided_archive_def archived_def mf split: sum.split option.split)
    show ?thesis using eff Some out other none ack stale keep
      by (cases "the (outcome mf)") (auto simp: decided_def decided_rows_def mf)
  qed
qed

theorem dispatch_respects_lease_witness:
  "filter (\<lambda>x. row_id x \<noteq> 2) (db_rows (ds_store (fst (dispatch_one (real_ops [] {} True) sample_config sample_write
     sample_reject True True False sample_leased sample_state)))) =
   [new_row 1 0 ''q'' [1] None 5 (Some ''t''), new_row 3 0 ''q'' [3] None 200 None]"
  using dispatch_respects_lease [OF _ _ _ prod.collapse [symmetric], of sample_state sample_config sample_leased 7
      "[]" "{}" sample_write sample_reject True True False] sample_db_wf
  by (simp add: sample_state_def sample_config_def) (simp add: sample_db_def)


lemma sample_dispatch: "\<exists>st'. dispatch_one (real_ops [] {} True) sample_config sample_write sample_reject True True False
    sample_leased sample_state = (st', Inr False) \<and> report_count st' = 1"
  by (simp add: dispatch_one_def run_pipeline_def finish_pipeline_def write_outcome_def write_settled_def flush_or_buffer_def
      safe_flush_def flush_terminal_def dlq_payload_of_def render_last_exception_def terminal_failure_reason_def
      real_ops_def client_delete_with_lease_def dlq_cte_def holds_lease_def consume_def allow_delivery_def
      terminal_has_dlq_def sample_defs msg_defs assert_state_set_def Let_def new_row_def claim_row_def
      row_to_message_def outbox_row.defs inner_message.defs emit_def report_count_def reports_def
      dispatched_event_def dlq_written_event_def)


text \<open>
  Property C22. Every dispatch is closed exactly once: for every handler, outcome, fault and client, the
  events that carry a duration keep pace with the \<open>dispatched\<close> events, counting the rows waiting in
  the buffer. The one exception is a handler interrupted by cancellation (or another
  \<open>BaseException\<close>): its dispatch stays open for ever.
\<close>

theorem dispatch_closed_once:
  assumes "dispatch_one ops cfg env cenv running running' use_buffer m st = (st', r)"
    and "acquired_token m \<noteq> None" and "handler_duration_seconds m = None"
  shows "balance st' = balance st + (if passes_gate cfg m \<and> interrupted running cenv then 1 else 0)"
  using dispatch_one_balance [OF assms] by simp

theorem dispatch_closed_once_witness:
  "balance (fst (dispatch_one (real_ops [] {} True) sample_config sample_write sample_reject True True True
     sample_leased sample_state)) = 0 \<and>
   balance (fst (dispatch_one (real_ops [] {} True) sample_config sample_write sample_cancel True True True
     sample_leased sample_state)) = 1"
proof -
  have b: "balance sample_state = 0" by (simp add: sample_state_def balance_def)
  have "\<not> interrupted True sample_reject" "interrupted True sample_cancel"
    by (simp_all add: interrupted_def sample_reject_def sample_cancel_def)
  moreover have "passes_gate sample_config sample_leased"
    by (simp add: passes_gate_def sample_config_def sample_leased_def) (simp add: new_row_def)
  ultimately show ?thesis
    using dispatch_closed_once [OF prod.collapse [symmetric], of sample_leased "real_ops [] {} True" sample_config
        sample_write sample_reject True True True sample_state]
      dispatch_closed_once [OF prod.collapse [symmetric], of sample_leased "real_ops [] {} True" sample_config
        sample_write sample_cancel True True True sample_state] b by simp
qed

text \<open>
  Property C23. The batched flush: one statement deletes exactly the buffered rows that still carry
  their lease (or, on a connection fault, possibly none of them), leaves the archive alone, calls
  \<open>task_done\<close> once for every buffered row even when it fails, empties the buffer and closes each
  buffered dispatch with one event: the row's own event if its delete landed, \<open>lease_lost\<close> if not.
\<close>

theorem flush_buffer_exact:
  assumes "wf_rows (db_rows (ds_store st))" and "dc_writer_conn cfg"
    and "\<forall>p \<in> set (ds_buffer st). pending_ok p"
    and "flush_buffer (real_ops order locked d) cfg env st = (st', r)"
  shows "db_rows (ds_store st') \<in> {db_rows (ds_store st), not_held (buffer_pairs (ds_buffer st)) (db_rows (ds_store st))} \<and>
    db_dlq (ds_store st') = db_dlq (ds_store st) \<and>
    ds_done st' = ds_done st + length (ds_buffer st) \<and> ds_buffer st' = [] \<and> balance st' = balance st \<and>
    (we_fault env = NoFault \<longrightarrow> r = None \<and>
       db_rows (ds_store st') = not_held (buffer_pairs (ds_buffer st)) (db_rows (ds_store st)) \<and>
       ds_events st' = ds_events st @ map (\<lambda>p.
         if (\<exists>tok. acquired_token (pf_row p) = Some tok \<and> held [(row_id (pf_row p), tok)] (db_rows (ds_store st)) \<noteq> [])
         then (pf_event p, pf_tags p) else lease_lost_event cfg (pf_row p) ''terminal'') (ds_buffer st))"
proof -
  let ?rs = "db_rows (ds_store st)" and ?b = "ds_buffer st"
  let ?del = "(\<lambda>x. (row_id x, the (acquired_token x))) ` set (held (buffer_pairs ?b) ?rs)"
  have pairs: "(i, tok) \<in> set (buffer_pairs ?b) \<longleftrightarrow>
      (\<exists>p \<in> set ?b. row_id (pf_row p) = i \<and> acquired_token (pf_row p) = Some tok)" for i tok
  proof -
    have "(i, tok) \<in> set (buffer_pairs b) \<longleftrightarrow>
      (\<exists>p \<in> set b. row_id (pf_row p) = i \<and> acquired_token (pf_row p) = Some tok)" for b
      unfolding buffer_pairs_def by (induction b) (auto simp: map_filter_simps split: option.split)
    then show ?thesis .
  qed
  have "pending_event cfg ?del p =
      (if (\<exists>tok. acquired_token (pf_row p) = Some tok \<and> held [(row_id (pf_row p), tok)] ?rs \<noteq> [])
       then (pf_event p, pf_tags p) else lease_lost_event cfg (pf_row p) ''terminal'')" if "p \<in> set ?b" for p
  proof (cases "acquired_token (pf_row p)")
    case (Some tok)
    then have "(row_id (pf_row p), tok) \<in> set (buffer_pairs ?b)" using that pairs by auto
    then have "(row_id (pf_row p), tok) \<in> ?del \<longleftrightarrow> (\<exists>r \<in> set ?rs. holds_lease (row_id (pf_row p)) tok r)"
      by (auto simp: held_def list_ex_iff holds_lease_def image_iff) force+
    then show ?thesis using Some by (auto simp: pending_event_def held_def filter_empty_conv)
  qed (simp add: pending_event_def)
  then have ev: "map (pending_event cfg ?del) ?b = map (\<lambda>p.
      if (\<exists>tok. acquired_token (pf_row p) = Some tok \<and> held [(row_id (pf_row p), tok)] ?rs \<noteq> [])
      then (pf_event p, pf_tags p) else lease_lost_event cfg (pf_row p) ''terminal'') ?b" by simp
  show ?thesis
    using real.flush_buffer_effect [OF assms(4)] flush_buffer_balance [OF assms(4,3)] assms(1,2)
    by (simp add: db_inv_def ev)
qed

definition sample_buffered :: "outbox_db dispatch_state" where
  "sample_buffered = sample_state\<lparr>ds_buffer := [\<lparr>pf_row = sample_leased, pf_event = ''acked'', pf_tags = []\<rparr>]\<rparr>"

theorem flush_buffer_exact_witness:
  "ds_done (fst (flush_buffer (real_ops [] {} True) sample_config sample_write sample_buffered)) = 1 \<and>
   map row_id (db_rows (ds_store (fst (flush_buffer (real_ops [] {} True) sample_config sample_write sample_buffered)))) = [1, 3]"
proof -
  have "\<forall>p \<in> set (ds_buffer sample_buffered). pending_ok p"
    by (simp add: sample_buffered_def pending_ok_def closes_def)
  moreover have "wf_rows (db_rows (ds_store sample_buffered))" "dc_writer_conn sample_config"
    using sample_db_wf by (simp_all add: sample_buffered_def sample_state_def sample_config_def)
  ultimately have "let st' = fst (flush_buffer (real_ops [] {} True) sample_config sample_write sample_buffered) in
      ds_done st' = ds_done sample_buffered + length (ds_buffer sample_buffered) \<and>
      db_rows (ds_store st') = not_held (buffer_pairs (ds_buffer sample_buffered)) (db_rows (ds_store sample_buffered))"
    using flush_buffer_exact [OF _ _ _ prod.collapse [symmetric], of sample_buffered sample_config "[]" "{}" True sample_write]
    by (simp add: Let_def sample_write_def)
  then show ?thesis
    by (simp add: Let_def sample_buffered_def sample_state_def buffer_pairs_def map_filter_simps not_held_def holds_lease_def)
      (simp add: sample_db_def)
qed

end
