(* ===== verification/Subscriber_Loop.thy ===== *)
theory Subscriber_Loop
  imports Dispatch
begin

text \<open>
  The loops of one subscriber in one process (\<open>subscriber/usecase.py\<close>): the fetch loop that claims
  rows into the in-flight queue, the workers that take, dispatch and flush them, the reconnects, and
  \<open>stop\<close>. The tasks of the event loop interleave at their awaits: a step is what a task does between
  two of them. The client's state changes under the loops' feet whenever another process writes, and
  every write may fail.
\<close>

section \<open>Backoff\<close>

definition backoff_exp_cap :: nat where
  "backoff_exp_cap = 30"

definition backoff_max_seconds :: rat where
  "backoff_max_seconds = 30"

definition backoff_reset_threshold_seconds :: rat where
  "backoff_reset_threshold_seconds = 60"

text \<open>\<open>u\<close> is what \<open>random.uniform(0.5, 1.5)\<close> drew.\<close>

definition compute_backoff :: "nat \<Rightarrow> rat \<Rightarrow> rat \<Rightarrow> rat \<Rightarrow> rat" where
  "compute_backoff attempt upper base u = min (base * 2 ^ (attempt - 1) * u) upper"

text \<open>
  The iterations of \<open>_run_with_reconnect\<close>: the inner loop returned, gave up a stale writer, or failed.
  A failure carries how long the connection had been live (\<open>None\<close> if it never opened) and the draw.
\<close>

datatype iteration = Returned | StaleWriter | Failed "rat option" rat

fun run_with_reconnect :: "bool \<Rightarrow> iteration list \<Rightarrow> nat \<Rightarrow> nat \<Rightarrow> rat list \<times> nat \<times> nat" where
  "run_with_reconnect recycle [] attempt generation = ([], attempt, generation)"
| "run_with_reconnect recycle (Returned # its) attempt generation =
     run_with_reconnect recycle its attempt generation"
| "run_with_reconnect recycle (StaleWriter # its) attempt generation =
     run_with_reconnect recycle its attempt generation"
| "run_with_reconnect recycle (Failed healthy u # its) attempt generation =
     (let generation' = (if recycle then generation + 1 else generation);
          attempt0 = (case healthy of
             Some d \<Rightarrow> if d \<ge> backoff_reset_threshold_seconds then 0 else attempt | None \<Rightarrow> attempt);
          attempt' = min (attempt0 + 1) backoff_exp_cap;
          (sleeps, a, g) = run_with_reconnect recycle its attempt' generation'
      in (compute_backoff attempt' backoff_max_seconds 1 u # sleeps, a, g))"

text \<open>The fetch loop's idle counter: reset by a fetch that claimed rows, capped otherwise.\<close>

definition next_idle_count :: "nat \<Rightarrow> nat \<Rightarrow> nat" where
  "next_idle_count claimed idle = (if claimed > 0 then 0 else min (idle + 1) backoff_exp_cap)"

lemma compute_backoff_bounds:
  "1/2 \<le> u \<Longrightarrow> u \<le> 3/2 \<Longrightarrow> 0 < base \<Longrightarrow> 0 < upper \<Longrightarrow>
     0 < compute_backoff n upper base u \<and> compute_backoff n upper base u \<le> upper"
  by (simp add: compute_backoff_def)

text \<open>Every failure sleeps once, positively and at most the upper, and the counters stay capped.\<close>

fun draw_ok :: "iteration \<Rightarrow> bool" where
  "draw_ok (Failed h u) \<longleftrightarrow> 1/2 \<le> u \<and> u \<le> 3/2"
| "draw_ok it \<longleftrightarrow> True"

fun is_failure :: "iteration \<Rightarrow> bool" where
  "is_failure (Failed h u) = True"
| "is_failure it = False"

lemma run_with_reconnect_bounds:
  assumes "run_with_reconnect recycle its a g = (sleeps, a', g')" and "list_all draw_ok its"
    and "a \<le> backoff_exp_cap"
  shows "list_all (\<lambda>d. 0 < d \<and> d \<le> backoff_max_seconds) sleeps \<and> a' \<le> backoff_exp_cap \<and>
    length sleeps = length (filter is_failure its) \<and>
    g' = g + (if recycle then length (filter is_failure its) else 0)"
  using assms
proof (induction recycle its a g arbitrary: sleeps a' g' rule: run_with_reconnect.induct)
  case (4 recycle healthy u its a g)
  let ?g = "if recycle then g + 1 else g"
  let ?a0 = "case healthy of Some d \<Rightarrow> if d \<ge> backoff_reset_threshold_seconds then 0 else a | None \<Rightarrow> a"
  let ?a = "min (?a0 + 1) backoff_exp_cap"
  obtain sl a2 g2 where r: "run_with_reconnect recycle its ?a ?g = (sl, a2, g2)" using prod_cases3 by blast
  have "0 < compute_backoff ?a backoff_max_seconds 1 u \<and> compute_backoff ?a backoff_max_seconds 1 u \<le> backoff_max_seconds"
    using 4(3) by (intro compute_backoff_bounds) (auto simp: backoff_max_seconds_def)
  moreover have "sleeps = compute_backoff ?a backoff_max_seconds 1 u # sl" "a' = a2" "g' = g2"
    using 4(2) r by (simp_all add: Let_def)
  ultimately show ?case using 4(1) [OF refl refl refl r] 4(3) by auto
qed auto

section \<open>The state of the loops\<close>

record loop_config =
  lc_dispatch :: dispatch_config
  lc_queues :: "string list"
  lc_fetch_batch_size :: nat
  lc_lease_ttl_seconds :: rat

definition refill_at :: "loop_config \<Rightarrow> nat" where
  "refill_at cfg = max 1 (lc_fetch_batch_size cfg div 2)"

text \<open>
  A worker is between connections, waits for a row (with its buffer and the fetch generation its
  writer connection dates from), or dispatches one.
\<close>

datatype worker = Disconnected | Waiting nat "pending_flush list" | Busy nat "pending_flush list" inner_message

text \<open>
  What the tasks share. \<open>ls_claim\<close> is the limit of the claim that is running, \<open>ls_unfinished\<close> the
  counter behind \<open>_inflight.join()\<close>.
\<close>

record 's loop_state =
  ls_store :: 's
  ls_events :: "metric_event list"
  ls_inflight :: "inner_message list"
  ls_unfinished :: nat
  ls_claim :: "nat option"
  ls_generation :: nat
  ls_notify :: bool
  ls_stopping :: bool
  ls_running :: bool
  ls_workers :: "worker list"

definition free_slots :: "loop_config \<Rightarrow> 's loop_state \<Rightarrow> nat" where
  "free_slots cfg s = lc_fetch_batch_size cfg - length (ls_inflight s)"

section \<open>The fetch loop\<close>

text \<open>
  One round of \<open>_fetch_inner\<close> up to the claim: wait while the queue is too full, else clear the event
  and start a claim of the free slots.
\<close>

definition fetch_begin :: "loop_config \<Rightarrow> 's loop_state \<Rightarrow> 's loop_state" where
  "fetch_begin cfg s =
     (if \<not> ls_running s \<or> ls_stopping s \<or> ls_claim s \<noteq> None then s
      else if free_slots cfg s < refill_at cfg then s\<lparr>ls_notify := False\<rparr>
      else s\<lparr>ls_notify := False, ls_claim := Some (free_slots cfg s)\<rparr>)"

definition primary_queue :: "loop_config \<Rightarrow> string" where
  "primary_queue cfg = (case lc_queues cfg of q # qs \<Rightarrow> q | [] \<Rightarrow> [])"

definition fetched_event :: "loop_config \<Rightarrow> nat \<Rightarrow> metric_event" where
  "fetched_event cfg n = (''fetched'', base_tags (lc_dispatch cfg) (primary_queue cfg) @ [(''count'', TInt (int n))])"

text \<open>\<open>put_nowait\<close> on a full queue raises; here it is \<open>None\<close>.\<close>

definition put_nowait :: "loop_config \<Rightarrow> inner_message \<Rightarrow> 's loop_state \<Rightarrow> 's loop_state option" where
  "put_nowait cfg m s =
     (if length (ls_inflight s) \<ge> lc_fetch_batch_size cfg then None
      else Some (s\<lparr>ls_inflight := ls_inflight s @ [m], ls_unfinished := ls_unfinished s + 1\<rparr>))"

fun put_all :: "loop_config \<Rightarrow> inner_message list \<Rightarrow> 's loop_state \<Rightarrow> 's loop_state option" where
  "put_all cfg [] s = Some s"
| "put_all cfg (m # ms) s = (case put_nowait cfg m s of None \<Rightarrow> None | Some s' \<Rightarrow> put_all cfg ms s')"

text \<open>
  The claim itself: a stop that came first ends the loop, a failure bumps the generation (the claimed
  rows, if the statement took effect, wait for lease expiry), success queues the rows.
\<close>

definition fetch_end :: "'s client_ops \<Rightarrow> loop_config \<Rightarrow> fault \<Rightarrow> time \<Rightarrow> rat \<Rightarrow> token \<Rightarrow> 's loop_state \<Rightarrow>
    's loop_state option" where
  "fetch_end ops cfg f now clk tok s =
     (case ls_claim s of
        None \<Rightarrow> Some s
      | Some n \<Rightarrow>
          if ls_stopping s then Some (s\<lparr>ls_claim := None\<rparr>)
          else let (store, res) = bounded f (op_fetch ops (dc_writer_conn (lc_dispatch cfg)) now clk tok
                      (lc_queues cfg) n (lc_lease_ttl_seconds cfg)) (ls_store s);
                   s' = s\<lparr>ls_store := store, ls_claim := None\<rparr>
               in case res of
                    Inl e \<Rightarrow> Some (s'\<lparr>ls_generation := ls_generation s + 1\<rparr>)
                  | Inr ms \<Rightarrow> (case put_all cfg ms s' of
                        None \<Rightarrow> None
                      | Some s'' \<Rightarrow> Some (s''\<lparr>ls_events := ls_events s'' @ [fetched_event cfg (length ms)]\<rparr>)))"

section \<open>The workers\<close>

text \<open>A dispatch runs on the shared store and events and on the worker's own buffer.\<close>

definition worker_view :: "'s loop_state \<Rightarrow> pending_flush list \<Rightarrow> 's dispatch_state" where
  "worker_view s b = \<lparr>ds_store = ls_store s, ds_events = ls_events s, ds_buffer = b, ds_done = 0\<rparr>"

text \<open>Back from the view; \<open>extra\<close> is the \<open>task_done\<close> of a row that was not buffered.\<close>

definition merge_view :: "nat \<Rightarrow> worker \<Rightarrow> 's dispatch_state \<Rightarrow> nat \<Rightarrow> 's loop_state \<Rightarrow> 's loop_state" where
  "merge_view i w st extra s = s\<lparr>ls_store := ds_store st, ls_events := ds_events st,
     ls_unfinished := ls_unfinished s - ds_done st - extra, ls_workers := (ls_workers s)[i := w]\<rparr>"

definition worker_connect :: "nat \<Rightarrow> 's loop_state \<Rightarrow> 's loop_state" where
  "worker_connect i s = (if ls_running s \<and> i < length (ls_workers s) \<and> ls_workers s ! i = Disconnected
     then s\<lparr>ls_workers := (ls_workers s)[i := Waiting (ls_generation s) []]\<rparr> else s)"

text \<open>A waiting worker with a buffer and nothing to take flushes; a failure ends its connection.\<close>

definition worker_idle_flush :: "'s client_ops \<Rightarrow> loop_config \<Rightarrow> write_env \<Rightarrow> nat \<Rightarrow> 's loop_state \<Rightarrow>
    's loop_state" where
  "worker_idle_flush ops cfg env i s =
     (if i < length (ls_workers s) \<and> ls_running s \<and> ls_inflight s = [] then
        (case ls_workers s ! i of
           Waiting g b \<Rightarrow>
             (case flush_buffer ops (lc_dispatch cfg) env (worker_view s b) of
                (st, None) \<Rightarrow> merge_view i (Waiting g []) st 0 s
              | (st, Some e) \<Rightarrow> merge_view i Disconnected st 0 s)
         | _ \<Rightarrow> s)
      else s)"

text \<open>
  Taking a row. A worker whose writer connection predates a fetch error puts the row back, flushes
  what it has and reconnects; otherwise the row is dispatched, and the fetch loop is woken once
  enough slots are free.
\<close>

definition worker_take :: "'s client_ops \<Rightarrow> loop_config \<Rightarrow> write_env \<Rightarrow> nat \<Rightarrow> 's loop_state \<Rightarrow>
    's loop_state option" where
  "worker_take ops cfg env i s =
     (if i < length (ls_workers s) \<and> ls_running s then
        (case (ls_workers s ! i, ls_inflight s) of
           (Waiting g b, m # ms) \<Rightarrow>
             let s1 = s\<lparr>ls_inflight := ms\<rparr>
             in if dc_writer_conn (lc_dispatch cfg) \<and> ls_generation s \<noteq> g
                then (case put_nowait cfg m s1 of
                        None \<Rightarrow> None
                      | Some s2 \<Rightarrow>
                          let st = fst (flush_buffer ops (lc_dispatch cfg) env (worker_view s2 b))
                          in Some (merge_view i Disconnected st 1 s2))
                else Some (s1\<lparr>ls_workers := (ls_workers s1)[i := Busy g b m],
                              ls_notify := ls_notify s1 \<or> free_slots cfg s1 \<ge> refill_at cfg\<rparr>)
         | _ \<Rightarrow> Some s)
      else Some s)"

text \<open>The bounded best-effort flush in the \<open>finally\<close> of \<open>_worker_inner\<close>; its failure is suppressed.\<close>

definition exit_flush :: "'s client_ops \<Rightarrow> loop_config \<Rightarrow> write_env \<Rightarrow> 's dispatch_state \<Rightarrow> 's dispatch_state" where
  "exit_flush ops cfg env st = fst (flush_buffer ops (lc_dispatch cfg) env st)"

text \<open>
  The end of a dispatch: a configuration error is logged, any other exception ends the connection; the
  buffer is flushed when it is full or its oldest row is half a lease old, by the clock \<open>mono\<close>.
\<close>

definition buffer_due :: "loop_config \<Rightarrow> rat \<Rightarrow> pending_flush list \<Rightarrow> bool" where
  "buffer_due cfg mono_now b = (case b of
     [] \<Rightarrow> False
   | p # ps \<Rightarrow> length b \<ge> dc_terminal_flush_batch_size (lc_dispatch cfg) \<or>
       mono_now - claimed_at_monotonic (pf_row p) \<ge> lc_lease_ttl_seconds cfg / 2)"

record finish_env =
  fe_write :: write_env
  fe_flush :: write_env
  fe_exit :: write_env
  fe_consume :: consume_env
  fe_running_after :: bool
  fe_mono :: rat

definition after_dispatch :: "'s client_ops \<Rightarrow> loop_config \<Rightarrow> finish_env \<Rightarrow> nat \<Rightarrow>
    's dispatch_state \<times> (exn + bool) \<Rightarrow> worker \<times> 's dispatch_state" where
  "after_dispatch ops cfg env g res =
     (let (st, r) = res;
          fatal = (case r of Inl e \<Rightarrow> exn_kind e \<noteq> OutboxConfigError | Inr b \<Rightarrow> False)
      in if fatal then (Disconnected, exit_flush ops cfg (fe_exit env) st)
         else if buffer_due cfg (fe_mono env) (ds_buffer st)
         then (case flush_buffer ops (lc_dispatch cfg) (fe_flush env) st of
                 (st', None) \<Rightarrow> (Waiting g (ds_buffer st'), st')
               | (st', Some e) \<Rightarrow> (Disconnected, exit_flush ops cfg (fe_exit env) st'))
         else (Waiting g (ds_buffer st), st))"

definition worker_finish :: "'s client_ops \<Rightarrow> loop_config \<Rightarrow> finish_env \<Rightarrow> nat \<Rightarrow> 's loop_state \<Rightarrow>
    's loop_state" where
  "worker_finish ops cfg env i s =
     (if i < length (ls_workers s) then
        (case ls_workers s ! i of
           Busy g b m \<Rightarrow>
             let (st, r) = dispatch_one ops (lc_dispatch cfg) (fe_write env) (fe_consume env) (ls_running s)
                   (fe_running_after env) True m (worker_view s b);
                 (w, st') = after_dispatch ops cfg env g (st, r)
             in merge_view i w st' (if r = Inr True then 0 else 1) s
         | _ \<Rightarrow> s)
      else s)"

text \<open>A waiting worker whose loop ends, because \<open>running\<close> fell or the task was cancelled.\<close>

definition worker_exit :: "'s client_ops \<Rightarrow> loop_config \<Rightarrow> write_env \<Rightarrow> nat \<Rightarrow> 's loop_state \<Rightarrow> 's loop_state" where
  "worker_exit ops cfg env i s =
     (if i < length (ls_workers s) \<and> \<not> ls_running s then
        (case ls_workers s ! i of
           Waiting g b \<Rightarrow> merge_view i Disconnected (exit_flush ops cfg env (worker_view s b)) 0 s
         | _ \<Rightarrow> s)
      else s)"

section \<open>Start and stop\<close>

definition loop_start :: "nat \<Rightarrow> 's loop_state \<Rightarrow> 's loop_state" where
  "loop_start max_workers s = s\<lparr>ls_stopping := False, ls_running := True,
     ls_workers := replicate max_workers Disconnected\<rparr>"

definition stop_begin :: "'s loop_state \<Rightarrow> 's loop_state" where
  "stop_begin s = s\<lparr>ls_stopping := True, ls_notify := True\<rparr>"

text \<open>What \<open>stop\<close> waits for: no claim runs and \<open>_inflight.join()\<close> returns.\<close>

definition drained :: "'s loop_state \<Rightarrow> bool" where
  "drained s \<longleftrightarrow> ls_claim s = None \<and> ls_unfinished s = 0"

definition drain_timeout_event :: "loop_config \<Rightarrow> rat \<Rightarrow> metric_event" where
  "drain_timeout_event cfg t = (''drain_timeout'',
     base_tags (lc_dispatch cfg) (primary_queue cfg) @ [(''drain_timeout_seconds'', TFloat t)])"

definition default_drain_timeout_seconds :: rat where
  "default_drain_timeout_seconds = 15"

definition drain_timeout_of :: "rat option \<Rightarrow> rat" where
  "drain_timeout_of graceful_timeout = (case graceful_timeout of
     None \<Rightarrow> default_drain_timeout_seconds | Some t \<Rightarrow> t)"

text \<open>The drain is over, by completion or by timeout; the tasks are cancelled next.\<close>

definition stop_cancel :: "loop_config \<Rightarrow> rat option \<Rightarrow> bool \<Rightarrow> 's loop_state \<Rightarrow> 's loop_state" where
  "stop_cancel cfg graceful_timeout timed_out s =
     s\<lparr>ls_running := False,
       ls_events := ls_events s @ (if timed_out then [drain_timeout_event cfg (drain_timeout_of graceful_timeout)] else [])\<rparr>"

text \<open>A claim cancelled while its statement runs: it took effect or not, and no row is queued.\<close>

definition fetch_cancel :: "'s client_ops \<Rightarrow> loop_config \<Rightarrow> fault \<Rightarrow> time \<Rightarrow> rat \<Rightarrow> token \<Rightarrow> 's loop_state \<Rightarrow>
    's loop_state" where
  "fetch_cancel ops cfg f now clk tok s =
     (case (ls_claim s, f) of
        (Some n, FailAfter e) \<Rightarrow>
          s\<lparr>ls_store := fst (op_fetch ops (dc_writer_conn (lc_dispatch cfg)) now clk tok
               (lc_queues cfg) n (lc_lease_ttl_seconds cfg) (ls_store s)), ls_claim := None\<rparr>
      | _ \<Rightarrow> s\<lparr>ls_claim := None\<rparr>)"

text \<open>\<open>_reset_inflight\<close>, once every task has unwound.\<close>

definition stop_reset :: "'s loop_state \<Rightarrow> 's loop_state" where
  "stop_reset s = (if ls_claim s = None \<and> list_all (\<lambda>w. w = Disconnected) (ls_workers s)
     then s\<lparr>ls_inflight := [], ls_unfinished := 0\<rparr> else s)"

section \<open>The steps\<close>

text \<open>
  Any task moves next. \<open>Foreign\<close> is a write by another process; a step to \<open>None\<close> is the \<open>QueueFull\<close>
  that \<open>put_nowait\<close> would raise.
\<close>

inductive loop_step :: "'s client_ops \<Rightarrow> ('s \<Rightarrow> bool) \<Rightarrow> loop_config \<Rightarrow> 's loop_state \<Rightarrow>
    's loop_state option \<Rightarrow> bool"
  for ops :: "'s client_ops" and valid :: "'s \<Rightarrow> bool" and cfg :: loop_config where
  FetchBegin: "loop_step ops valid cfg s (Some (fetch_begin cfg s))"
| FetchEnd: "loop_step ops valid cfg s (fetch_end ops cfg f now clk tok s)"
| Connect: "loop_step ops valid cfg s (Some (worker_connect i s))"
| IdleFlush: "loop_step ops valid cfg s (Some (worker_idle_flush ops cfg env i s))"
| Take: "loop_step ops valid cfg s (worker_take ops cfg env i s)"
| Finish: "loop_step ops valid cfg s (Some (worker_finish ops cfg fenv i s))"
| StopBegin: "loop_step ops valid cfg s (Some (stop_begin s))"
| StopDrained: "ls_stopping s \<Longrightarrow> drained s \<Longrightarrow> loop_step ops valid cfg s (Some (stop_cancel cfg gt False s))"
| StopTimeout: "ls_stopping s \<Longrightarrow> loop_step ops valid cfg s (Some (stop_cancel cfg gt True s))"
| Exit: "loop_step ops valid cfg s (Some (worker_exit ops cfg env i s))"
| CancelFetch: "\<not> ls_running s \<Longrightarrow> loop_step ops valid cfg s (Some (fetch_cancel ops cfg f now clk tok s))"
| Reset: "\<not> ls_running s \<Longrightarrow> loop_step ops valid cfg s (Some (stop_reset s))"
| Restart: "\<not> ls_running s \<Longrightarrow> ls_claim s = None \<Longrightarrow> ls_inflight s = [] \<Longrightarrow> ls_unfinished s = 0 \<Longrightarrow>
    list_all (\<lambda>w. w = Disconnected) (ls_workers s) \<Longrightarrow> loop_step ops valid cfg s (Some (loop_start n s))"
| Foreign: "valid x \<Longrightarrow> loop_step ops valid cfg s (Some (s\<lparr>ls_store := x\<rparr>))"

text \<open>\<open>clients\<close> are the operation tables a step may use: for Postgres one per row order and lock set.\<close>

inductive loop_reachable :: "('s client_ops \<Rightarrow> bool) \<Rightarrow> ('s \<Rightarrow> bool) \<Rightarrow> loop_config \<Rightarrow> 's loop_state \<Rightarrow> bool"
  for clients :: "'s client_ops \<Rightarrow> bool" and valid :: "'s \<Rightarrow> bool" and cfg :: loop_config where
  Init: "valid x \<Longrightarrow> loop_reachable clients valid cfg
     \<lparr>ls_store = x, ls_events = [], ls_inflight = [], ls_unfinished = 0, ls_claim = None, ls_generation = 0,
      ls_notify = False, ls_stopping = False, ls_running = False, ls_workers = []\<rparr>"
| Step: "loop_reachable clients valid cfg s \<Longrightarrow> clients ops \<Longrightarrow> loop_step ops valid cfg s (Some s') \<Longrightarrow>
     loop_reachable clients valid cfg s'"

section \<open>The invariant\<close>

text \<open>The rows a worker answers for: those it buffers and the one it dispatches.\<close>

fun worker_load :: "worker \<Rightarrow> nat" where
  "worker_load Disconnected = 0"
| "worker_load (Waiting g b) = length b"
| "worker_load (Busy g b m) = length b + 1"

definition total_load :: "worker list \<Rightarrow> nat" where
  "total_load ws = sum_list (map worker_load ws)"

fun worker_leased :: "worker \<Rightarrow> bool" where
  "worker_leased (Busy g b m) \<longleftrightarrow> acquired_token m \<noteq> None"
| "worker_leased w \<longleftrightarrow> True"

text \<open>
  The queue never overflows, not even with the claim that is running; the unfinished count is the
  queued rows plus those the workers answer for; and every row in memory has its lease token.
\<close>

definition loop_inv :: "('s \<Rightarrow> bool) \<Rightarrow> loop_config \<Rightarrow> 's loop_state \<Rightarrow> bool" where
  "loop_inv valid cfg s \<longleftrightarrow> valid (ls_store s) \<and>
     length (ls_inflight s) + (case ls_claim s of Some n \<Rightarrow> n | None \<Rightarrow> 0) \<le> lc_fetch_batch_size cfg \<and>
     ls_unfinished s = length (ls_inflight s) + total_load (ls_workers s) \<and>
     list_all (\<lambda>m. acquired_token m \<noteq> None) (ls_inflight s) \<and> list_all worker_leased (ls_workers s)"

lemma total_load_update:
  "i < length ws \<Longrightarrow> total_load (ws[i := w]) + worker_load (ws ! i) = total_load ws + worker_load w"
proof (induction ws arbitrary: i)
  case (Cons x ws)
  then show ?case by (cases i) (auto simp: total_load_def)
qed simp

lemma total_load_disconnected: "list_all (\<lambda>w. w = Disconnected) ws \<Longrightarrow> total_load ws = 0"
  by (induction ws) (auto simp: total_load_def)

lemma put_all_eq:
  "put_all cfg ms s =
     (if ms \<noteq> [] \<and> length (ls_inflight s) + length ms > lc_fetch_batch_size cfg then None
      else Some (s\<lparr>ls_inflight := ls_inflight s @ ms, ls_unfinished := ls_unfinished s + length ms\<rparr>))"
  by (induction ms arbitrary: s) (auto simp: put_nowait_def)

subsection \<open>What a dispatch and a flush do to the worker's buffer\<close>

lemma flush_buffer_counts:
  "flush_buffer ops cfg env st = (st', r) \<Longrightarrow> ds_done st' = ds_done st + length (ds_buffer st) \<and> ds_buffer st' = []"
  by (auto simp: flush_buffer_def Let_def split: if_splits sum.splits prod.splits)

lemma flush_counts:
  "flush_terminal ops cfg env m st = (st', r) \<Longrightarrow> ds_done st' = ds_done st \<and> ds_buffer st' = ds_buffer st"
  "flush_retry ops cfg env m st = (st', r) \<Longrightarrow> ds_done st' = ds_done st \<and> ds_buffer st' = ds_buffer st"
  by (auto simp: flush_terminal_def flush_retry_def Let_def split: option.splits sum.splits prod.splits if_splits)

lemma safe_flush_counts:
  "safe_flush ops cfg env terminal m st = (st', r) \<Longrightarrow> ds_done st' = ds_done st \<and> ds_buffer st' = ds_buffer st"
  using flush_counts [of ops cfg env m st]
  by (cases terminal) (auto simp: safe_flush_def Let_def split: prod.splits sum.splits if_splits)

definition buffered_one :: "'s dispatch_state \<Rightarrow> 's dispatch_state \<Rightarrow> exn + bool \<Rightarrow> bool" where
  "buffered_one st st' r \<longleftrightarrow> ds_done st' = ds_done st \<and>
     length (ds_buffer st') = length (ds_buffer st) + (if r = Inr True then 1 else 0)"

lemma flush_or_buffer_counts:
  assumes "flush_or_buffer ops cfg env ub event tgs m st = (st', r)"
  shows "buffered_one st st' r \<and> (r = Inr True \<longrightarrow> ub)"
proof -
  obtain st1 r1 where f: "safe_flush ops cfg env True m st = (st1, r1)" by fastforce
  from safe_flush_counts [OF f] f assms show ?thesis
    by (cases r1) (auto simp: flush_or_buffer_def buffered_one_def split: if_splits)
qed

lemma write_outcome_counts:
  assumes "write_outcome ops cfg env running now ub m st = (st', r)"
  shows "buffered_one st st' r \<and> (r = Inr True \<longrightarrow> ub)"
proof -
  let ?m = "assert_state_set now m"
  consider (left) "\<not> state_set m \<and> \<not> running"
    | (retry) d where "outcome ?m = Some (Retry d)" "\<not> (\<not> state_set m \<and> \<not> running)"
    | (final) event tgs where "flush_or_buffer ops cfg env ub event tgs ?m st = (st', r)"
    using assms by (auto simp: write_outcome_def write_settled_def split: if_splits option.splits outcome.splits)
  then show ?thesis
  proof cases
    case left
    then show ?thesis using assms by (auto simp: write_outcome_def buffered_one_def)
  next
    case retry
    obtain st1 r1 where f: "safe_flush ops cfg env False ?m st = (st1, r1)" by fastforce
    from safe_flush_counts [OF f] f assms retry show ?thesis
      by (cases r1) (auto simp: write_outcome_def write_settled_def buffered_one_def split: if_splits)
  next
    case final
    then show ?thesis by (rule flush_or_buffer_counts)
  qed
qed

lemma dispatch_one_counts:
  assumes "dispatch_one ops cfg env cenv running running' ub m st = (st', r)"
  shows "buffered_one st st' r"
proof -
  obtain ok m0 where al: "allow_delivery (dc_max_deliveries cfg) (m\<lparr>retry_strategy := dc_retry_strategy cfg\<rparr>) = (ok, m0)"
    by fastforce
  obtain m1 raised where c: "consume running cenv m0 = (m1, raised)" by fastforce
  let ?m2 = "m1\<lparr>handler_duration_seconds := Some (ce_duration cenv)\<rparr>"
  let ?st1 = "emit [dispatched_event cfg m0] st"
  obtain st2 r2 where w: "write_outcome ops cfg env running' (ce_now cenv) (ub \<and> raised = None) ?m2 ?st1 = (st2, r2)"
    by fastforce
  from write_outcome_counts [OF w] have "ds_done st2 = ds_done st"
      "length (ds_buffer st2) = length (ds_buffer st) + (if r2 = Inr True then 1 else 0)" "r2 = Inr True \<longrightarrow> raised = None"
    by (auto simp: buffered_one_def)
  with w assms al c flush_or_buffer_counts show ?thesis
    by (cases ok; cases raised; cases r2)
      (fastforce simp: dispatch_one_def run_pipeline_def finish_pipeline_def buffered_one_def Let_def split: if_splits)+
qed

subsection \<open>Every step keeps the invariant\<close>

definition config_ok :: "(bool \<Rightarrow> bool) \<Rightarrow> bool \<Rightarrow> loop_config \<Rightarrow> bool" where
  "config_ok live has_dlq cfg \<longleftrightarrow> live (dc_writer_conn (lc_dispatch cfg)) \<and> (dc_dlq (lc_dispatch cfg) \<longrightarrow> has_dlq)"

lemma merge_view_sel [simp]:
  "ls_store (merge_view i w st e s) = ds_store st" "ls_inflight (merge_view i w st e s) = ls_inflight s"
  "ls_claim (merge_view i w st e s) = ls_claim s" "ls_workers (merge_view i w st e s) = (ls_workers s)[i := w]"
  "ls_unfinished (merge_view i w st e s) = ls_unfinished s - ds_done st - e"
  "ls_stopping (merge_view i w st e s) = ls_stopping s" "ls_running (merge_view i w st e s) = ls_running s"
  by (simp_all add: merge_view_def)

lemma worker_view_sel [simp]:
  "ds_store (worker_view s b) = ls_store s" "ds_buffer (worker_view s b) = b" "ds_done (worker_view s b) = 0"
  by (simp_all add: worker_view_def)

text \<open>Replacing a worker by one that answers for fewer rows, the difference being done.\<close>

lemma loop_inv_merge:
  assumes "loop_inv valid cfg s" and "i < length (ls_workers s)" and "valid (ds_store st)"
    and "ds_done st + e + worker_load w = worker_load (ls_workers s ! i)" and "worker_leased w"
  shows "loop_inv valid cfg (merge_view i w st e s)"
proof -
  have "total_load ((ls_workers s)[i := w]) + ds_done st + e = total_load (ls_workers s)"
    using total_load_update [OF assms(2), of w] assms(4) by simp
  moreover have "list_all worker_leased ((ls_workers s)[i := w])"
    using assms(1,2,5) by (auto simp: loop_inv_def list_all_length nth_list_update)
  ultimately show ?thesis using assms(1,3) by (auto simp: loop_inv_def)
qed

context leased_store
begin

lemma flush_keeps_inv:
  "flush_buffer ops cfg env st = (st', r) \<Longrightarrow> inv (ds_store st) \<Longrightarrow> live (dc_writer_conn cfg) \<Longrightarrow> inv (ds_store st')"
  using flush_buffer_effect by blast

lemma op_fetch_cases:
  assumes "inv s" "live c" "bounded f (op_fetch ops c now clk tok qs n ttl) s = (s', r)"
  shows "inv s' \<and> (\<forall>ms. r = Inr ms \<longrightarrow> length ms \<le> n \<and> list_all (\<lambda>m. acquired_token m \<noteq> None) ms)"
proof -
  obtain s1 r1 where op: "op_fetch ops c now clk tok qs n ttl s = (s1, r1)" by fastforce
  from fetch_law [OF assms(1,2) op] assms(1,3) op show ?thesis
    by (cases f) (auto simp: list_all_iff)
qed

lemma fetch_begin_inv: "loop_inv inv cfg s \<Longrightarrow> loop_inv inv cfg (fetch_begin cfg s)"
  by (auto simp: loop_inv_def fetch_begin_def free_slots_def)

lemma fetch_end_inv:
  assumes i: "loop_inv inv cfg s" and c: "config_ok live has_dlq cfg"
  shows "\<exists>s'. fetch_end ops cfg f now clk tok s = Some s' \<and> loop_inv inv cfg s'"
proof (cases "ls_claim s")
  case None
  then show ?thesis using i by (simp add: fetch_end_def)
next
  case (Some n)
  obtain st r where b: "bounded f (op_fetch ops (dc_writer_conn (lc_dispatch cfg)) now clk tok
      (lc_queues cfg) n (lc_lease_ttl_seconds cfg)) (ls_store s) = (st, r)" by fastforce
  have "inv st \<and> (\<forall>ms. r = Inr ms \<longrightarrow> length ms \<le> n \<and> list_all (\<lambda>m. acquired_token m \<noteq> None) ms)"
    using op_fetch_cases [OF _ _ b] i c by (simp add: loop_inv_def config_ok_def)
  then show ?thesis using i Some b
    by (cases "ls_stopping s"; cases r) (auto simp: fetch_end_def loop_inv_def put_all_eq)
qed

lemma worker_connect_inv: "loop_inv inv cfg s \<Longrightarrow> loop_inv inv cfg (worker_connect i s)"
  using total_load_update [of i "ls_workers s" "Waiting (ls_generation s) []"]
  by (auto simp: worker_connect_def loop_inv_def list_all_length nth_list_update)

lemma worker_idle_flush_inv:
  assumes i: "loop_inv inv cfg s" and c: "config_ok live has_dlq cfg"
  shows "loop_inv inv cfg (worker_idle_flush ops cfg env j s)"
proof (cases "j < length (ls_workers s) \<and> ls_running s \<and> ls_inflight s = []")
  case True
  show ?thesis
  proof (cases "ls_workers s ! j")
    case (Waiting g b)
    obtain st r where f: "flush_buffer ops (lc_dispatch cfg) env (worker_view s b) = (st, r)" by fastforce
    have "inv (ds_store st)" using flush_keeps_inv [OF f] i c by (simp add: loop_inv_def config_ok_def)
    with flush_buffer_counts [OF f] loop_inv_merge [OF i] True Waiting f show ?thesis
      by (cases r) (simp_all add: worker_idle_flush_def)
  qed (use i in \<open>simp_all add: worker_idle_flush_def\<close>)
qed (use i in \<open>auto simp: worker_idle_flush_def\<close>)

lemma worker_exit_inv:
  assumes i: "loop_inv inv cfg s" and c: "config_ok live has_dlq cfg"
  shows "loop_inv inv cfg (worker_exit ops cfg env j s)"
proof (cases "j < length (ls_workers s) \<and> \<not> ls_running s")
  case True
  show ?thesis
  proof (cases "ls_workers s ! j")
    case (Waiting g b)
    obtain st r where f: "flush_buffer ops (lc_dispatch cfg) env (worker_view s b) = (st, r)" by fastforce
    have "inv (ds_store st)" using flush_keeps_inv [OF f] i c by (simp add: loop_inv_def config_ok_def)
    with flush_buffer_counts [OF f] loop_inv_merge [OF i] True Waiting f show ?thesis
      by (simp add: worker_exit_def exit_flush_def)
  qed (use i in \<open>simp_all add: worker_exit_def\<close>)
qed (use i in \<open>auto simp: worker_exit_def\<close>)

lemma worker_take_inv:
  assumes i: "loop_inv inv cfg s" and c: "config_ok live has_dlq cfg"
  shows "\<exists>s'. worker_take ops cfg env j s = Some s' \<and> loop_inv inv cfg s'"
proof (cases "j < length (ls_workers s) \<and> ls_running s")
  case True
  show ?thesis
  proof (cases "ls_workers s ! j")
    case (Waiting g b)
    show ?thesis
    proof (cases "ls_inflight s")
      case (Cons m ms)
      let ?s2 = "s\<lparr>ls_inflight := ms @ [m], ls_unfinished := ls_unfinished s + 1\<rparr>"
      obtain st r where f: "flush_buffer ops (lc_dispatch cfg) env (worker_view ?s2 b) = (st, r)" by fastforce
      have v: "inv (ds_store st)" using flush_keeps_inv [OF f] i c by (simp add: loop_inv_def config_ok_def)
      have "ls_unfinished s = length ms + 1 + total_load (ls_workers s)" using i Cons by (simp add: loop_inv_def)
      then have putback: "loop_inv inv cfg (merge_view j Disconnected st 1 ?s2)"
        using total_load_update [of j "ls_workers s" Disconnected] flush_buffer_counts [OF f] v i Cons True Waiting
        by (auto simp: loop_inv_def list_all_length nth_list_update nth_append)
      have "total_load ((ls_workers s)[j := Busy g b m]) = total_load (ls_workers s) + 1"
        using total_load_update [of j "ls_workers s" "Busy g b m"] True Waiting by simp
      then have go: "loop_inv inv cfg (s\<lparr>ls_inflight := ms, ls_workers := (ls_workers s)[j := Busy g b m], ls_notify := x\<rparr>)" for x
        using i Cons True by (auto simp: loop_inv_def list_all_length nth_list_update split: option.splits)
      have "length ms < lc_fetch_batch_size cfg" using i Cons by (auto simp: loop_inv_def)
      then show ?thesis using True Waiting Cons f putback go
        by (auto simp: worker_take_def put_nowait_def Let_def)
    qed (use i True Waiting in \<open>simp add: worker_take_def\<close>)
  qed (use i True in \<open>simp_all add: worker_take_def\<close>)
qed (use i in \<open>auto simp: worker_take_def\<close>)

lemma after_dispatch_inv:
  assumes c: "config_ok live has_dlq cfg" and v: "inv (ds_store st)"
    and a: "after_dispatch ops cfg env g (st, r) = (w, st')"
  shows "inv (ds_store st') \<and> ds_done st' + worker_load w = ds_done st + length (ds_buffer st) \<and> worker_leased w"
proof -
  obtain st1 r1 where f1: "flush_buffer ops (lc_dispatch cfg) (fe_exit env) st = (st1, r1)" by fastforce
  obtain st2 r2 where f2: "flush_buffer ops (lc_dispatch cfg) (fe_flush env) st = (st2, r2)" by fastforce
  obtain st3 r3 where f3: "flush_buffer ops (lc_dispatch cfg) (fe_exit env) st2 = (st3, r3)" by fastforce
  have l: "live (dc_writer_conn (lc_dispatch cfg))" using c by (simp add: config_ok_def)
  have "inv (ds_store st1)" "inv (ds_store st2)" using flush_keeps_inv [OF f1 v l] flush_keeps_inv [OF f2 v l] by simp_all
  moreover from this(2) have "inv (ds_store st3)" using flush_keeps_inv [OF f3 _ l] by simp
  ultimately show ?thesis
    using a f1 f2 f3 flush_buffer_counts [OF f1] flush_buffer_counts [OF f2] flush_buffer_counts [OF f3] v
    by (auto simp: after_dispatch_def exit_flush_def Let_def split: if_splits option.splits)
qed

lemma worker_finish_inv:
  assumes i: "loop_inv inv cfg s" and c: "config_ok live has_dlq cfg"
  shows "loop_inv inv cfg (worker_finish ops cfg env j s)"
proof (cases "j < length (ls_workers s)")
  case True
  show ?thesis
  proof (cases "ls_workers s ! j")
    case (Busy g b m)
    have tok: "acquired_token m \<noteq> None" using i True Busy by (auto simp: loop_inv_def list_all_length)
    obtain st r where d: "dispatch_one ops (lc_dispatch cfg) (fe_write env) (fe_consume env) (ls_running s)
        (fe_running_after env) True m (worker_view s b) = (st, r)" by fastforce
    obtain w st' where a: "after_dispatch ops cfg env g (st, r) = (w, st')" by fastforce
    have "inv (ds_store st)"
      using dispatch_effect [OF d _ _ _ tok] i c by (simp add: loop_inv_def config_ok_def)
    from after_dispatch_inv [OF c this a] dispatch_one_counts [OF d] loop_inv_merge [OF i True] Busy True d a
    show ?thesis by (auto simp: worker_finish_def buffered_one_def)
  qed (use i True in \<open>simp_all add: worker_finish_def\<close>)
qed (use i in \<open>simp add: worker_finish_def\<close>)

lemma fetch_cancel_inv:
  assumes i: "loop_inv inv cfg s" and c: "config_ok live has_dlq cfg"
  shows "loop_inv inv cfg (fetch_cancel ops cfg f now clk tok s)"
proof (cases "ls_claim s")
  case (Some n)
  have "inv (fst (op_fetch ops (dc_writer_conn (lc_dispatch cfg)) now clk tok (lc_queues cfg) n
      (lc_lease_ttl_seconds cfg) (ls_store s)))"
    using fetch_law [OF _ _ prod.collapse [symmetric]] i c by (simp add: loop_inv_def config_ok_def)
  then show ?thesis using i Some by (cases f) (auto simp: fetch_cancel_def loop_inv_def)
qed (use i in \<open>auto simp: fetch_cancel_def loop_inv_def\<close>)

lemma loop_step_inv:
  assumes "loop_step ops inv cfg s r" and i: "loop_inv inv cfg s" and c: "config_ok live has_dlq cfg"
  shows "\<exists>s'. r = Some s' \<and> loop_inv inv cfg s'"
  using assms(1)
proof cases
  case (Reset)
  then show ?thesis using i by (auto simp: loop_inv_def stop_reset_def total_load_disconnected)
next
  case (Restart n)
  have "total_load (replicate n Disconnected) = 0" by (rule total_load_disconnected) (simp add: list_all_length)
  with Restart show ?thesis using i by (auto simp: loop_inv_def loop_start_def list_all_length)
qed (use fetch_begin_inv [OF i] fetch_end_inv [OF i c] worker_connect_inv [OF i] worker_idle_flush_inv [OF i c]
  worker_take_inv [OF i c] worker_finish_inv [OF i c] worker_exit_inv [OF i c] fetch_cancel_inv [OF i c] i
  in \<open>auto simp: loop_inv_def stop_begin_def stop_cancel_def\<close>)

end

lemma loop_reachable_inv:
  assumes "loop_reachable clients valid cfg s" and "config_ok live has_dlq cfg"
    and "\<And>ops. clients ops \<Longrightarrow> leased_store ops rows dlqs valid live has_dlq"
  shows "loop_inv valid cfg s"
  using assms(1)
proof (induction rule: loop_reachable.induct)
  case (Init x)
  then show ?case by (simp add: loop_inv_def total_load_def)
next
  case (Step s ops s')
  then show ?case using leased_store.loop_step_inv [OF assms(3) _ _ assms(2)] by blast
qed

text \<open>While the subscriber drains, no step adds a row to those in memory.\<close>

lemma stopping_unfinished:
  assumes "loop_step ops valid cfg s (Some s')" and "ls_stopping s" and "ls_running s"
  shows "ls_unfinished s' \<le> ls_unfinished s"
  using assms(1)
proof cases
  case (FetchEnd f now clk tok)
  then show ?thesis using assms(2) by (auto simp: fetch_end_def split: option.splits)
next
  case (Take env i)
  then show ?thesis
    by (auto simp: worker_take_def put_nowait_def Let_def split: if_splits worker.splits list.splits)
qed (use assms in \<open>auto simp: fetch_begin_def worker_connect_def worker_idle_flush_def worker_finish_def
    worker_exit_def stop_begin_def stop_cancel_def split: worker.splits prod.splits option.splits if_splits\<close>)

section \<open>Properties\<close>

definition pg_clients :: "bool \<Rightarrow> outbox_db client_ops \<Rightarrow> bool" where
  "pg_clients d ops \<longleftrightarrow> (\<exists>order locked. ops = real_ops order locked d)"

lemma pg_reachable_inv:
  "loop_reachable (pg_clients d) db_inv cfg s \<Longrightarrow> dc_writer_conn (lc_dispatch cfg) \<Longrightarrow>
     dc_dlq (lc_dispatch cfg) \<longrightarrow> d \<Longrightarrow> loop_inv db_inv cfg s"
  using loop_reachable_inv [of "pg_clients d" db_inv cfg s "\<lambda>c. c" d db_rows db_dlq] real.leased_store_axioms
  by (auto simp: config_ok_def pg_clients_def)


definition sample_loop_config :: loop_config where
  "sample_loop_config = \<lparr>lc_dispatch = \<lparr>dc_call_name = ''h'', dc_retry_strategy = None, dc_max_deliveries = None,
     dc_terminal_flush_batch_size = 2, dc_dlq = True, dc_renderer = None, dc_writer_conn = True\<rparr>,
     lc_queues = [''q''], lc_fetch_batch_size = 4, lc_lease_ttl_seconds = 60\<rparr>"

definition sample_loop :: "outbox_db loop_state" where
  "sample_loop = \<lparr>ls_store = sample_db, ls_events = [], ls_inflight = [], ls_unfinished = 0, ls_claim = None,
     ls_generation = 0, ls_notify = False, ls_stopping = False, ls_running = False, ls_workers = []\<rparr>"

lemma sample_loop_reachable: "loop_reachable (pg_clients True) db_inv sample_loop_config sample_loop"
  unfolding sample_loop_def using sample_db_wf by (intro Init) (simp add: db_inv_def)

lemma sample_claim_reachable: "loop_reachable (pg_clients True) db_inv sample_loop_config
    (fetch_begin sample_loop_config (loop_start 2 sample_loop))"
proof -
  have c: "pg_clients True (real_ops [] {} True)" by (auto simp: pg_clients_def)
  note step = Step [where clients = "pg_clients True", OF _ c]
  have "loop_step (real_ops [] {} True) db_inv sample_loop_config sample_loop (Some (loop_start 2 sample_loop))"
    by (rule Restart) (simp_all add: sample_loop_def)
  from step [OF sample_loop_reachable this]
  have "loop_reachable (pg_clients True) db_inv sample_loop_config (loop_start 2 sample_loop)" .
  from step [OF this FetchBegin] show ?thesis .
qed




text \<open>
  Property C11. Reconnecting is paced: over any run of the loop each failure is followed by exactly one
  sleep, positive and at most 30 seconds, whatever the number of failures before it, and the fetch
  loop bumps the generation that recycles the writers once per failure.
\<close>

theorem reconnect_backoff_bounds:
  assumes "list_all draw_ok its" and "run_with_reconnect recycle its 0 g = (sleeps, a, g')"
  shows "length sleeps = length (filter is_failure its) \<and>
    list_all (\<lambda>d. 0 < d \<and> d \<le> backoff_max_seconds) sleeps \<and> a \<le> backoff_exp_cap \<and>
    g' = g + (if recycle then length (filter is_failure its) else 0)"
  using run_with_reconnect_bounds [OF assms(2,1)] by simp

theorem reconnect_backoff_bounds_witness:
  "length (fst (run_with_reconnect True [Failed None 1, StaleWriter, Failed (Some 70) (3/2)] 0 5)) = 2"
proof -
  obtain sleeps a g' where r: "run_with_reconnect True [Failed None 1, StaleWriter, Failed (Some 70) (3/2)] 0 5
      = (sleeps, a, g')" using prod_cases3 by blast
  from reconnect_backoff_bounds [OF _ r] show ?thesis unfolding r by simp
qed

end
