(* ===== verification/Lease_Protocol.thy ===== *)
theory Lease_Protocol
  imports Client_Contract
begin

text \<open>
  The table as all processes share it: publishers, fetch loops and workers issue the client's
  statements in any order, each with what it believes. Time is the database clock, every fetch has a
  new token, every insert a new id. The properties are the ones the leases are for: while a lease
  lives nobody but its holder touches the row, no row is lost, and none is stuck.
\<close>

section \<open>Statements\<close>

datatype statement =
    Fetch "nat list" "nat set" token "string list" nat rat
  | Delete bool nat token "dlq_injected option"
  | DeleteBatch "(nat \<times> token) list"
  | MarkPending nat token retry_write
  | Insert nat insert_args
  | InsertBatch "nat list" time string "(bytes \<times> headers option) list" "rat option" "time option"
  | Cancel string string

fun exec_statement :: "time \<Rightarrow> statement \<Rightarrow> outbox_db \<Rightarrow> outbox_db" where
  "exec_statement now (Fetch order locked tok qs n ttl) db =
     fst (client_fetch order locked True now 0 tok qs n ttl db)"
| "exec_statement now (Delete has_dlq i tok ctx) db =
     fst (client_delete_with_lease has_dlq True now i tok ctx db)"
| "exec_statement now (DeleteBatch pairs) db = fst (client_delete_batch True pairs db)"
| "exec_statement now (MarkPending i tok w) db = fst (client_mark_pending True now i tok w db)"
| "exec_statement now (Insert new_id a) db = fst (insert_stmt new_id now a db)"
| "exec_statement now (InsertBatch ids cnow q bodies ai aa) db =
     fst (insert_batch_stmt ids cnow now q bodies ai aa db)"
| "exec_statement now (Cancel q tid) db = fst (client_cancel_timer True q tid db)"

text \<open>The ids a statement inserts and the token it issues must be new.\<close>

fun new_ids :: "statement \<Rightarrow> nat list" where
  "new_ids (Insert i a) = [i]"
| "new_ids (InsertBatch ids cnow q bodies ai aa) = ids"
| "new_ids st = []"

fun new_tokens :: "statement \<Rightarrow> token list" where
  "new_tokens (Fetch order locked tok qs n ttl) = [tok]"
| "new_tokens st = []"

record shared_state =
  sh_now :: time
  sh_db :: outbox_db
  sh_ids :: "nat set"
  sh_tokens :: "token set"

inductive shared_step :: "shared_state \<Rightarrow> statement \<Rightarrow> shared_state \<Rightarrow> bool" where
  "sh_now s \<le> now \<Longrightarrow> distinct (new_ids st) \<Longrightarrow> set (new_ids st) \<inter> sh_ids s = {} \<Longrightarrow>
   set (new_tokens st) \<inter> sh_tokens s = {} \<Longrightarrow>
   shared_step s st \<lparr>sh_now = now, sh_db = exec_statement now st (sh_db s),
     sh_ids = sh_ids s \<union> set (new_ids st), sh_tokens = sh_tokens s \<union> set (new_tokens st)\<rparr>"

inductive_cases shared_stepE: "shared_step s st s'"

inductive shared_run :: "shared_state \<Rightarrow> statement list \<Rightarrow> shared_state \<Rightarrow> bool" where
  Done: "shared_run s [] s"
| More: "shared_step s st s1 \<Longrightarrow> shared_run s1 sts s' \<Longrightarrow> shared_run s (st # sts) s'"

definition shared_init :: shared_state where
  "shared_init = \<lparr>sh_now = 0, sh_db = \<lparr>db_rows = [], db_dlq = []\<rparr>, sh_ids = {}, sh_tokens = {}\<rparr>"

section \<open>The invariant\<close>

definition shared_inv :: "shared_state \<Rightarrow> bool" where
  "shared_inv s \<longleftrightarrow> wf_rows (db_rows (sh_db s)) \<and> row_id ` set (db_rows (sh_db s)) \<subseteq> sh_ids s \<and>
     (\<forall>r \<in> set (db_rows (sh_db s)). (\<forall>tok. acquired_token r = Some tok \<longrightarrow> tok \<in> sh_tokens s) \<and>
        (\<forall>t. acquired_at r = Some t \<longrightarrow> t \<le> sh_now s) \<and> deliveries_count r \<ge> 0)"

text \<open>What a statement does to one row: the row before it, if any, and the row after.\<close>

lemma wf_exec:
  assumes "wf_rows (db_rows db)" and "distinct (new_ids st)"
    and "set (new_ids st) \<inter> row_id ` set (db_rows db) = {}"
  shows "wf_rows (db_rows (exec_statement now st db))"
  using assms by (cases st) (auto intro: wf_intros)

text \<open>Every row after a statement is new, or an old row kept, claimed, rescheduled or extended.\<close>

definition row_origin :: "time \<Rightarrow> statement \<Rightarrow> outbox_row list \<Rightarrow> outbox_row \<Rightarrow> bool" where
  "row_origin now st rs r' \<longleftrightarrow>
     (row_id r' \<in> set (new_ids st) \<and> acquired_token r' = None \<and> acquired_at r' = None \<and> deliveries_count r' = 0) \<or>
     r' \<in> set rs \<or>
     (\<exists>r \<in> set rs. \<exists>tok. tok \<in> set (new_tokens st) \<and> r' = claim_row now tok r) \<or>
     (\<exists>r \<in> set rs. \<exists>i tok w. st = MarkPending i tok w \<and> holds_lease i tok r \<and> r' = reschedule_row now w r) \<or>
     (\<exists>r \<in> set rs. \<exists>body hdrs t. acquired_token r = None \<and> r' = extend_row body hdrs t r)"

lemma find_conflict_leased:
  assumes "find (conflicting q tid) rs = Some r" and "timer_uq rs" and "s \<in> set rs" and "conflicting q tid s"
  shows "s = r"
proof -
  have "r \<in> set rs" "conflicting q tid r" using assms(1) by (auto simp: find_Some_iff)
  moreover have "x = y" if "x \<in> set rs" "y \<in> set rs" "timer_key x = Some k" "timer_key y = Some k" "timer_uq rs"
    for x y k rs
    using that by (induction rs) force+
  ultimately show ?thesis using assms(2-4) conflicting_timer_key by metis
qed

lemma exec_origin:
  assumes "wf_rows (db_rows db)" and "r' \<in> set (db_rows (exec_statement now st db))"
  shows "row_origin now st (db_rows db) r'"
proof (cases st)
  case (Fetch order locked tok qs n ttl)
  then show ?thesis using assms(2)
    by (auto simp: client_fetch_def fetch_stmt_def Let_def claim_rows_def row_origin_def split: if_splits)
next
  case (Delete has_dlq i tok ctx)
  then show ?thesis using assms(2)
    by (auto simp: client_delete_with_lease_def dlq_cte_def delete_stmt_def Let_def row_origin_def
        split: if_splits option.splits)
next
  case (DeleteBatch pairs)
  then show ?thesis using assms(2)
    by (auto simp: client_delete_batch_def Let_def row_origin_def split: if_splits)
next
  case (MarkPending i tok w)
  then show ?thesis using assms(2)
    by (auto simp: client_mark_pending_def row_origin_def split: if_splits)
next
  case (Insert i a)
  show ?thesis
  proof (cases "ia_timer_id a")
    case None
    then show ?thesis using assms(2) Insert
      by (auto simp: insert_stmt_def Let_def row_origin_def new_row_def split: if_splits)
  next
    case (Some tid)
    show ?thesis
    proof (cases "find (conflicting (ia_queue a) tid) (db_rows db)")
      case None
      then show ?thesis using assms(2) Insert Some
        by (auto simp: insert_stmt_def Let_def row_origin_def new_row_def split: if_splits)
    next
      case found: (Some r)
      have "acquired_token s = None" if "s \<in> set (db_rows db)" "conflicting (ia_queue a) tid s" "acquired_token r = None" for s
        using find_conflict_leased [OF found _ that(1,2)] assms(1) that(3) by (simp add: wf_rows_def)
      then have "row_origin now st (db_rows db) (extend_row body hdrs t x)"
        if "x \<in> set (db_rows db)" "conflicting (ia_queue a) tid x" "acquired_token r = None" for x body hdrs t
        using that unfolding row_origin_def by blast
      moreover have "row_origin now st (db_rows db) x" if "x \<in> set (db_rows db)" for x
        using that by (simp add: row_origin_def)
      ultimately show ?thesis using assms(2) Insert Some found
        by (auto simp: insert_stmt_def Let_def split: if_splits)
    qed
  qed
next
  case (InsertBatch ids cnow q bodies ai aa)
  then show ?thesis using assms(2)
    by (auto simp: insert_batch_stmt_def Let_def row_origin_def new_row_def dest: set_zip_leftD split: if_splits)
next
  case (Cancel q tid)
  then show ?thesis using assms(2)
    by (auto simp: client_cancel_timer_def Let_def row_origin_def split: if_splits)
qed

lemma shared_step_inv:
  assumes "shared_step s st s'" and "shared_inv s"
  shows "shared_inv s'"
  using assms(1)
proof cases
  case (1 now)
  let ?rs = "db_rows (sh_db s)" and ?rs' = "db_rows (exec_statement now st (sh_db s))"
  have wf: "wf_rows ?rs'" using assms(2) 1 by (intro wf_exec) (auto simp: shared_inv_def)
  have "row_id r' \<in> sh_ids s' \<and> (\<forall>tok. acquired_token r' = Some tok \<longrightarrow> tok \<in> sh_tokens s') \<and>
      (\<forall>t. acquired_at r' = Some t \<longrightarrow> t \<le> now) \<and> deliveries_count r' \<ge> 0" if "r' \<in> set ?rs'" for r'
  proof -
    have "row_origin now st ?rs r'" using exec_origin that assms(2) by (auto simp: shared_inv_def)
    moreover have old: "row_id r \<in> sh_ids s \<and> (\<forall>tok. acquired_token r = Some tok \<longrightarrow> tok \<in> sh_tokens s) \<and>
        (\<forall>t. acquired_at r = Some t \<longrightarrow> t \<le> now) \<and> deliveries_count r \<ge> 0" if "r \<in> set ?rs" for r
      using assms(2) 1(2) that by (force simp: shared_inv_def)
    ultimately show ?thesis using 1(1)
      by (auto simp: row_origin_def extend_row_def reschedule_row_def dest!: old split: if_splits)
  qed
  with wf 1(1) show ?thesis by (auto simp: shared_inv_def)
qed

lemma shared_run_inv: "shared_run s sts s' \<Longrightarrow> shared_inv s \<Longrightarrow> shared_inv s'"
  by (induction rule: shared_run.induct) (auto intro: shared_step_inv)

lemma shared_init_inv: "shared_inv shared_init"
  by (simp add: shared_inv_def shared_init_def)

text \<open>No statement stores a value longer than its VARCHAR(255) column.\<close>

definition row_fits :: "outbox_row \<Rightarrow> bool" where
  "row_fits r \<longleftrightarrow> length (queue r) \<le> 255 \<and> (case timer_id r of None \<Rightarrow> True | Some t \<Rightarrow> length t \<le> 255)"

lemma row_fits_iff: "row_fits r \<longleftrightarrow> \<not> too_long (queue r) (timer_id r)"
  by (auto simp: row_fits_def too_long_def max_queue_length_def split: option.split)

lemma exec_fits:
  assumes "list_all row_fits (db_rows db)"
  shows "list_all row_fits (db_rows (exec_statement now st db))"
proof (cases st)
  case (Fetch order locked tok qs n ttl)
  then show ?thesis using assms
    by (auto simp: client_fetch_def fetch_stmt_def Let_def claim_rows_def claim_row_def list_all_iff row_fits_iff)
next
  case (Delete has_dlq i tok ctx)
  then show ?thesis using assms
    by (auto simp: client_delete_with_lease_def dlq_cte_def delete_stmt_def Let_def list_all_iff split: option.split)
next
  case (DeleteBatch pairs)
  then show ?thesis using assms by (auto simp: client_delete_batch_def Let_def list_all_iff)
next
  case (MarkPending i tok w)
  then show ?thesis using assms by (auto simp: client_mark_pending_def reschedule_row_def list_all_iff row_fits_iff)
next
  case (Insert i a)
  then show ?thesis using assms
    by (auto simp: insert_stmt_def new_row_def Let_def list_all_iff row_fits_iff split: option.split)
next
  case (InsertBatch ids cnow q bodies ai aa)
  then show ?thesis using assms
    by (auto simp: insert_batch_stmt_def new_row_def Let_def list_all_iff row_fits_iff)
next
  case (Cancel q tid)
  then show ?thesis using assms by (auto simp: client_cancel_timer_def Let_def list_all_iff)
qed

lemma shared_run_fits: "shared_run s sts s' \<Longrightarrow> list_all row_fits (db_rows (sh_db s)) \<Longrightarrow>
    list_all row_fits (db_rows (sh_db s'))"
  by (induction rule: shared_run.induct) (auto elim!: shared_stepE simp: exec_fits)

section \<open>Steps that leave a lease alone\<close>

text \<open>
  A statement leaves the lease \<open>tok\<close> on row \<open>i\<close>, taken at \<open>t\<close>, alone if it is no terminal write with
  that token and, for a fetch at \<open>now\<close>, the lease has not outlived the fetch's TTL.
\<close>

fun leaves_lease :: "nat \<Rightarrow> token \<Rightarrow> time \<Rightarrow> time \<Rightarrow> statement \<Rightarrow> bool" where
  "leaves_lease i tok t now (Fetch order locked tok' qs n ttl) \<longleftrightarrow> now \<le> t + ttl"
| "leaves_lease i tok t now (Delete d i' tok' ctx) \<longleftrightarrow> (i', tok') \<noteq> (i, tok)"
| "leaves_lease i tok t now (DeleteBatch pairs) \<longleftrightarrow> (i, tok) \<notin> set pairs"
| "leaves_lease i tok t now (MarkPending i' tok' w) \<longleftrightarrow> (i', tok') \<noteq> (i, tok)"
| "leaves_lease i tok t now st \<longleftrightarrow> True"

lemma leaves_lease_mono: "leaves_lease i tok t now' st \<Longrightarrow> now \<le> now' \<Longrightarrow> leaves_lease i tok t now st"
  by (cases st) auto

lemma ready_available:
  assumes "wf_rows rs" and "r \<in> set rs" and "row_id r \<in> row_id ` set (ready now ttl n locked qs rs)"
  shows "available now ttl qs r"
proof -
  have d: "distinct (map row_id rs)" using assms(1) by (simp add: wf_rows_def)
  obtain x where x: "x \<in> set (ready now ttl n locked qs rs)" "row_id r = row_id x" using assms(3) by auto
  then have "x \<in> set rs \<and> available now ttl qs x"
    using set_top_by [of fetch_key n "filter (\<lambda>r. available now ttl qs r \<and> row_id r \<notin> locked) rs"]
    by (auto simp: ready_eq [OF d])
  with inj_row_id [OF assms(1,2)] x show ?thesis by metis
qed

lemma exec_keeps_lease:
  assumes "wf_rows (db_rows db)" and "r \<in> set (db_rows db)"
    and "acquired_token r = Some tok" and "acquired_at r = Some t" and "leaves_lease (row_id r) tok t now st"
  shows "r \<in> set (db_rows (exec_statement now st db))"
proof (cases st)
  case (Fetch order locked tok' qs n ttl)
  have "\<not> available now ttl qs r"
    using assms(3-5) Fetch by (auto simp: available_def unleased_def lease_expired_def)
  then have "row_id r \<notin> row_id ` set (ready now ttl n locked qs (db_rows db))"
    using ready_available [OF assms(1,2)] by blast
  then show ?thesis using Fetch assms(2)
    by (auto simp: client_fetch_def fetch_stmt_def claim_rows_def Let_def)
next
  case (Delete d i tok' ctx)
  then show ?thesis using assms(2-5)
    by (auto simp: client_delete_with_lease_def dlq_cte_def delete_stmt_def holds_lease_def Let_def split: option.split)
next
  case (DeleteBatch pairs)
  then show ?thesis using assms(2-5)
    by (auto simp: client_delete_batch_def holds_lease_def list_ex_iff Let_def)
next
  case (MarkPending i tok' w)
  then show ?thesis using assms(2-5) by (auto simp: client_mark_pending_def holds_lease_def)
next
  case (Insert i a)
  have "\<not> conflicting (ia_queue a) tid r" if "find (conflicting (ia_queue a) tid) (db_rows db) = Some x"
    "acquired_token x = None" for tid x
    using find_conflict_leased [OF that(1) _ assms(2)] assms(1,3) that(2) by (auto simp: wf_rows_def)
  then show ?thesis using Insert assms(2)
    by (auto simp: insert_stmt_def Let_def split: option.split)
next
  case (InsertBatch ids cnow q bodies ai aa)
  then show ?thesis using assms(2) by (auto simp: insert_batch_stmt_def Let_def)
next
  case (Cancel q tid)
  then show ?thesis using assms(2,3) by (auto simp: client_cancel_timer_def Let_def)
qed

lemma shared_run_now: "shared_run s sts s' \<Longrightarrow> sh_now s \<le> sh_now s'"
  by (induction rule: shared_run.induct) (auto elim!: shared_stepE)

lemma run_keeps_lease:
  assumes "shared_run s sts s'" and "shared_inv s" and "r \<in> set (db_rows (sh_db s))"
    and "acquired_token r = Some tok" and "acquired_at r = Some t"
    and "list_all (leaves_lease (row_id r) tok t (sh_now s')) sts"
  shows "r \<in> set (db_rows (sh_db s'))"
  using assms
proof (induction rule: shared_run.induct)
  case (More s st s1 sts s')
  from More.hyps(1) obtain now where now: "sh_now s1 = now" "sh_db s1 = exec_statement now st (sh_db s)"
    by cases auto
  have "leaves_lease (row_id r) tok t now st"
    using More.prems(5) shared_run_now [OF More.hyps(2)] now leaves_lease_mono by auto
  with More.prems exec_keeps_lease have "r \<in> set (db_rows (sh_db s1))"
    by (auto simp: now shared_inv_def)
  with More show ?case using shared_step_inv by auto
qed

section \<open>How a row leaves the table\<close>

text \<open>A terminal write with the lease the row carries, or the cancellation of an unleased timer.\<close>

fun removes :: "statement \<Rightarrow> outbox_row \<Rightarrow> bool" where
  "removes (Delete d i tok ctx) r \<longleftrightarrow> holds_lease i tok r"
| "removes (DeleteBatch pairs) r \<longleftrightarrow> (\<exists>i tok. (i, tok) \<in> set pairs \<and> holds_lease i tok r)"
| "removes (Cancel q tid) r \<longleftrightarrow> conflicting q tid r \<and> acquired_token r = None"
| "removes st r \<longleftrightarrow> False"

lemma exec_keeps_id:
  assumes "r \<in> set (db_rows db)" and "\<not> removes st r"
  shows "row_id r \<in> row_id ` set (db_rows (exec_statement now st db))"
proof (cases st)
  case (Fetch order locked tok' qs n ttl)
  have "row_id ` set (claim_rows now tok' ids (db_rows db)) = row_id ` set (db_rows db)" for ids
    using claim_rows_ids [of now tok' ids "db_rows db"] by (metis list.set_map)
  then show ?thesis using Fetch assms by (auto simp: client_fetch_def fetch_stmt_def Let_def)
next
  case (Delete d i tok' ctx)
  then show ?thesis using assms
    by (auto simp: client_delete_with_lease_def dlq_cte_def delete_stmt_def Let_def split: option.split)
next
  case (DeleteBatch pairs)
  then show ?thesis using assms by (auto simp: client_delete_batch_def list_ex_iff Let_def)
next
  case (MarkPending i tok' w)
  have "row_id r \<in> row_id ` (\<lambda>s. if P s then reschedule_row now w s else s) ` set (db_rows db)" for P
    unfolding image_image using assms(1) by (intro image_eqI [of _ _ r]) auto
  then show ?thesis using MarkPending by (simp add: client_mark_pending_def)
next
  case (Insert i a)
  have "row_id r \<in> row_id ` (\<lambda>s. if P s then extend_row b h t s else s) ` set (db_rows db)" for P b h t
    unfolding image_image using assms(1) by (intro image_eqI [of _ _ r]) auto
  then show ?thesis using Insert assms by (auto simp: insert_stmt_def Let_def split: option.split)
next
  case (InsertBatch ids cnow q bodies ai aa)
  then show ?thesis using assms by (auto simp: insert_batch_stmt_def Let_def)
next
  case (Cancel q tid)
  then show ?thesis using assms by (auto simp: client_cancel_timer_def Let_def)
qed

lemma run_keeps_id:
  assumes "shared_run s sts s'" and "i \<in> row_id ` set (db_rows (sh_db s))"
    and "i \<notin> row_id ` set (db_rows (sh_db s'))"
  shows "\<exists>before st after s1 s2 r. sts = before @ st # after \<and> shared_run s before s1 \<and> shared_step s1 st s2 \<and>
    r \<in> set (db_rows (sh_db s1)) \<and> row_id r = i \<and> removes st r"
  using assms
proof (induction rule: shared_run.induct)
  case (More s st s1 sts s')
  obtain r where r: "r \<in> set (db_rows (sh_db s))" "row_id r = i" using More.prems(1) by auto
  show ?case
  proof (cases "removes st r")
    case True
    with r More.hyps(1) show ?thesis
      by (intro exI [of _ "[]"] exI [of _ st] exI [of _ sts] exI [of _ s] exI [of _ s1] exI [of _ r])
        (simp add: Done)
  next
    case False
    from More.hyps(1) obtain now where "sh_db s1 = exec_statement now st (sh_db s)" by cases auto
    then have "i \<in> row_id ` set (db_rows (sh_db s1))" using exec_keeps_id [OF r(1) False] r(2) by simp
    from More.IH [OF this More.prems(2)] obtain before st' after sa sb r' where
      "sts = before @ st' # after" "shared_run s1 before sa" "shared_step sa st' sb"
      "r' \<in> set (db_rows (sh_db sa))" "row_id r' = i" "removes st' r'" by blast
    with More.hyps(1) show ?thesis
      by (intro exI [of _ "st # before"] exI [of _ st'] exI [of _ after] exI [of _ sa] exI [of _ sb] exI [of _ r'])
        (auto intro: shared_run.More)
  qed
qed simp

text \<open>An id that is used up and not in the table never comes back.\<close>

lemma exec_no_old_id:
  assumes "wf_rows (db_rows db)" and "i \<notin> set (new_ids st)" and "i \<notin> row_id ` set (db_rows db)"
  shows "i \<notin> row_id ` set (db_rows (exec_statement now st db))"
proof
  assume "i \<in> row_id ` set (db_rows (exec_statement now st db))"
  then obtain r where "r \<in> set (db_rows (exec_statement now st db))" "row_id r = i" by auto
  with exec_origin [OF assms(1) this(1)] assms(2,3) show False
    by (auto simp: row_origin_def)
qed

lemma run_no_old_id:
  "shared_run s sts s' \<Longrightarrow> shared_inv s \<Longrightarrow> i \<in> sh_ids s \<Longrightarrow> i \<notin> row_id ` set (db_rows (sh_db s)) \<Longrightarrow>
     i \<notin> row_id ` set (db_rows (sh_db s'))"
proof (induction rule: shared_run.induct)
  case (More s st s1 sts s')
  from More.hyps(1) obtain now where now: "sh_db s1 = exec_statement now st (sh_db s)"
    "sh_ids s1 = sh_ids s \<union> set (new_ids st)" "set (new_ids st) \<inter> sh_ids s = {}" by cases auto
  have "i \<notin> row_id ` set (db_rows (sh_db s1))"
    unfolding now(1) using More.prems now(3) by (intro exec_no_old_id) (auto simp: shared_inv_def)
  then show ?case using More.IH shared_step_inv [OF More.hyps(1)] More.prems now(2) by blast
qed simp

section \<open>Properties\<close>

text \<open>
  Property C2. While a lease lives its row belongs to its holder: over any run of statements by all
  processes in which no terminal write bears the lease's token and no fetch comes later than the lease
  time plus its TTL, the leased row stays exactly as it is. Inserts with the same timer,
  cancellations, other workers' writes and other fetches cannot touch it.
\<close>

theorem lease_is_exclusive:
  assumes "shared_run shared_init before s" and "shared_run s sts s'" and "r \<in> set (db_rows (sh_db s))"
    and "acquired_token r = Some tok" and "acquired_at r = Some t"
    and "list_all (leaves_lease (row_id r) tok t (sh_now s')) sts"
  shows "r \<in> set (db_rows (sh_db s'))"
  using run_keeps_lease [OF assms(2) shared_run_inv [OF assms(1) shared_init_inv] assms(3-6)] .

definition sample_insert :: statement where
  "sample_insert = Insert 1 \<lparr>ia_queue = ''q'', ia_payload = [], ia_headers = None, ia_activate_in = None,
     ia_activate_at = None, ia_timer_id = Some ''t'', ia_timer_conflict = Ignore\<rparr>"

definition sample_fetch :: "token \<Rightarrow> statement" where
  "sample_fetch tok = Fetch [] {} tok [''q''] 5 60"

text \<open>The shared state after the timer is inserted and claimed, at times 0 and 0.\<close>

definition sample_claimed :: shared_state where
  "sample_claimed = \<lparr>sh_now = 0, sh_db = \<lparr>db_rows = [claim_row 0 7 (new_row 1 0 ''q'' [] None 0 (Some ''t''))],
     db_dlq = []\<rparr>, sh_ids = {1}, sh_tokens = {7}\<rparr>"

lemma shared_stepI: "sh_now s \<le> now \<Longrightarrow> distinct (new_ids st) \<Longrightarrow> set (new_ids st) \<inter> sh_ids s = {} \<Longrightarrow>
   set (new_tokens st) \<inter> sh_tokens s = {} \<Longrightarrow> s' = \<lparr>sh_now = now, sh_db = exec_statement now st (sh_db s),
     sh_ids = sh_ids s \<union> set (new_ids st), sh_tokens = sh_tokens s \<union> set (new_tokens st)\<rparr> \<Longrightarrow>
   shared_step s st s'"
  by (simp add: shared_step.intros)

lemma exec_fetch_unlocked:
  assumes "wf_rows (db_rows db)" and "qs \<noteq> []"
  shows "exec_statement now (Fetch order {} tok qs n ttl) db =
    db\<lparr>db_rows := claim_rows now tok (row_id ` set (claimed_now now ttl n {} qs (db_rows db))) (db_rows db)\<rparr>"
  using fetch_claims_eq [OF assms, of order "{}" now 0 tok n ttl] by (simp add: Let_def)

definition sample_published :: shared_state where
  "sample_published = \<lparr>sh_now = 0, sh_db = \<lparr>db_rows = [new_row 1 0 ''q'' [] None 0 (Some ''t'')], db_dlq = []\<rparr>,
     sh_ids = {1}, sh_tokens = {}\<rparr>"

lemma sample_publish: "shared_step shared_init sample_insert sample_published"
  by (rule shared_stepI [where now = 0])
    (simp_all add: sample_published_def shared_init_def sample_insert_def insert_stmt_def too_long_def
      max_queue_length_def server_next_attempt_def)

lemma sample_due: "claimed_now 0 60 5 {} [''q''] [new_row 1 0 ''q'' [] None 0 (Some ''t'')] =
    [new_row 1 0 ''q'' [] None 0 (Some ''t'')]"
  by (simp add: claimed_now_def available_def unleased_def top_by_def)

lemma sample_claim: "shared_step sample_published (sample_fetch 7) sample_claimed"
proof (rule shared_stepI [where now = 0])
  have "wf_rows [new_row 1 0 ''q'' [] None 0 (Some ''t'')]" by (simp add: wf_rows_Cons)
  with sample_due show "sample_claimed = \<lparr>sh_now = 0, sh_db = exec_statement 0 (sample_fetch 7) (sh_db sample_published),
      sh_ids = sh_ids sample_published \<union> set (new_ids (sample_fetch 7)),
      sh_tokens = sh_tokens sample_published \<union> set (new_tokens (sample_fetch 7))\<rparr>"
    by (simp add: sample_fetch_def sample_published_def sample_claimed_def exec_fetch_unlocked claim_rows_def
        del: exec_statement.simps)
qed (simp_all add: sample_fetch_def sample_published_def)

lemma sample_run: "shared_run shared_init [sample_insert, sample_fetch 7] sample_claimed"
  by (rule More [OF sample_publish More [OF sample_claim Done]])

theorem lease_is_exclusive_witness:
  "claim_row 0 7 (new_row 1 0 ''q'' [] None 0 (Some ''t'')) \<in>
     set (db_rows (exec_statement 50 (Cancel ''q'' ''t'') (sh_db sample_claimed)))"
proof -
  let ?r = "claim_row 0 7 (new_row 1 0 ''q'' [] None 0 (Some ''t''))"
  let ?s' = "\<lparr>sh_now = 50, sh_db = exec_statement 50 (Cancel ''q'' ''t'') (sh_db sample_claimed),
      sh_ids = {1}, sh_tokens = {7}\<rparr>"
  have "shared_step sample_claimed (Cancel ''q'' ''t'') ?s'"
    by (rule shared_stepI [where now = 50]) (simp_all add: sample_claimed_def)
  then have "shared_run sample_claimed [Cancel ''q'' ''t''] ?s'" by (rule More [OF _ Done])
  from lease_is_exclusive [OF sample_run this, of ?r 7 0] show ?thesis by (simp add: sample_claimed_def)
qed

text \<open>
  Property C1. No row is lost: a row that is in the table at some point of a run and gone at a later
  one was removed by one of its statements, either a terminal write that bore the lease token the row
  carried at that moment, or the cancellation of a timer that nobody had leased. Crashed workers,
  expired leases and stale writes lose nothing.
\<close>

theorem no_row_lost:
  assumes "shared_run s sts s'" and "i \<in> row_id ` set (db_rows (sh_db s))"
    and "i \<notin> row_id ` set (db_rows (sh_db s'))"
  shows "\<exists>before st after s1 s2 r. sts = before @ st # after \<and> shared_run s before s1 \<and> shared_step s1 st s2 \<and>
    r \<in> set (db_rows (sh_db s1)) \<and> row_id r = i \<and>
    ((\<exists>d ctx tok. st = Delete d i tok ctx \<and> acquired_token r = Some tok) \<or>
     (\<exists>pairs tok. st = DeleteBatch pairs \<and> (i, tok) \<in> set pairs \<and> acquired_token r = Some tok) \<or>
     (\<exists>tid. st = Cancel (queue r) tid \<and> timer_id r = Some tid \<and> acquired_token r = None))"
proof -
  obtain before st after s1 s2 r where w: "sts = before @ st # after" "shared_run s before s1" "shared_step s1 st s2"
      "r \<in> set (db_rows (sh_db s1))" "row_id r = i" and rem: "removes st r"
    using run_keeps_id [OF assms] by blast
  from rem have "(\<exists>d ctx tok. st = Delete d i tok ctx \<and> acquired_token r = Some tok) \<or>
     (\<exists>pairs tok. st = DeleteBatch pairs \<and> (i, tok) \<in> set pairs \<and> acquired_token r = Some tok) \<or>
     (\<exists>tid. st = Cancel (queue r) tid \<and> timer_id r = Some tid \<and> acquired_token r = None)"
    using w(5) by (cases st) (auto simp: holds_lease_def conflicting_def)
  with w show ?thesis by blast
qed

theorem no_row_lost_witness:
  "\<exists>before st after. [Delete False 1 9 None, Delete False 1 7 None] = before @ st # after \<and>
     (\<exists>d ctx. st = Delete d 1 7 ctx)"
proof -
  let ?s1 = "\<lparr>sh_now = 0, sh_db = exec_statement 0 (Delete False 1 9 None) (sh_db sample_claimed), sh_ids = {1}, sh_tokens = {7}\<rparr>"
  let ?s2 = "\<lparr>sh_now = 0, sh_db = exec_statement 0 (Delete False 1 7 None) (sh_db ?s1), sh_ids = {1}, sh_tokens = {7}\<rparr>"
  have st: "shared_step sample_claimed (Delete False 1 9 None) ?s1" "shared_step ?s1 (Delete False 1 7 None) ?s2"
    by (rule shared_stepI [where now = 0], simp_all add: sample_claimed_def)+
  have run: "shared_run sample_claimed [Delete False 1 9 None, Delete False 1 7 None] ?s2"
    by (rule More [OF st(1) More [OF st(2) Done]])
  have m1: "1 \<in> row_id ` set (db_rows (sh_db sample_claimed))" by (simp add: sample_claimed_def)
  have m2: "1 \<notin> row_id ` set (db_rows (sh_db ?s2))"
    by (auto simp: sample_claimed_def client_delete_with_lease_def delete_stmt_def holds_lease_def)
  from no_row_lost [OF run m1 m2] obtain before st after s1 s2 r where
    e: "[Delete False 1 9 None, Delete False 1 7 None] = before @ st # after" and
    b: "shared_run sample_claimed before s1" and "shared_step s1 st s2" and
    r: "r \<in> set (db_rows (sh_db s1))" and "row_id r = 1" and
    cs: "(\<exists>d ctx tok. st = Delete d 1 tok ctx \<and> acquired_token r = Some tok) \<or>
     (\<exists>pairs tok. st = DeleteBatch pairs \<and> (1, tok) \<in> set pairs \<and> acquired_token r = Some tok) \<or>
     (\<exists>tid. st = Cancel (queue r) tid \<and> timer_id r = Some tid \<and> acquired_token r = None)"
    by (elim exE conjE) (rule that)
  from e consider "before = []" "st = Delete False 1 9 None" | "before = [Delete False 1 9 None]" "st = Delete False 1 7 None"
  proof (cases before)
    case Nil
    with e that(1) show ?thesis by simp
  next
    case (Cons x xs)
    with e that(2) show ?thesis by (cases xs) auto
  qed
  then show ?thesis
  proof cases
    case 1
    with b have "s1 = sample_claimed" by (auto elim: shared_run.cases)
    with r cs 1 show ?thesis by (auto simp: sample_claimed_def)
  next
    case 2
    with e show ?thesis by blast
  qed
qed

text \<open>
  Property C3. No row is stuck: in every reachable state, each row can be claimed by any fetch of its
  queue once its \<open>next_attempt_at\<close> is reached and its lease, if any, is older than the TTL, provided no
  other transaction holds it locked and the limit has room. A lease left half set could never be
  reclaimed; the CHECK on the table is what rules that out.
\<close>

theorem no_row_stuck:
  assumes "shared_run shared_init sts s" and "r \<in> set (db_rows (sh_db s))"
    and "next_attempt_at r \<le> now" and "\<And>t. acquired_at r = Some t \<Longrightarrow> t + ttl < now"
    and "queue r \<in> set qs" and "length (db_rows (sh_db s)) \<le> n"
  shows "claim_row now tok r \<in> set (db_rows (exec_statement now (Fetch order {} tok qs n ttl) (sh_db s)))"
proof -
  let ?rs = "db_rows (sh_db s)"
  have wf: "wf_rows ?rs" using shared_run_inv [OF assms(1) shared_init_inv] by (simp add: shared_inv_def)
  then have "lease_ck r" using assms(2) by (simp add: wf_rows_def)
  then have av: "available now ttl qs r" using assms(3-5)
    by (cases "acquired_at r") (auto simp: available_def unleased_def lease_expired_def lease_ck_def less_diff_eq)
  have "set (claimed_now now ttl n {} qs ?rs) = {r \<in> set ?rs. available now ttl qs r}"
    using top_by_all [of "filter (available now ttl qs) ?rs" n fetch_key] assms(6) length_filter_le [of "available now ttl qs" ?rs]
    by (auto simp: claimed_now_def)
  then have "row_id r \<in> row_id ` set (claimed_now now ttl n {} qs ?rs)" using assms(2) av by auto
  then have "claim_row now tok r \<in> set (claim_rows now tok (row_id ` set (claimed_now now ttl n {} qs ?rs)) ?rs)"
    using assms(2) by (auto simp: claim_rows_def)
  moreover have "qs \<noteq> []" using assms(5) by auto
  ultimately show ?thesis by (simp add: exec_fetch_unlocked [OF wf] del: exec_statement.simps)
qed

theorem no_row_stuck_witness:
  "claim_row 100 8 (claim_row 0 7 (new_row 1 0 ''q'' [] None 0 (Some ''t''))) \<in>
     set (db_rows (exec_statement 100 (Fetch [] {} 8 [''q''] 5 60) (sh_db sample_claimed)))"
  by (rule no_row_stuck [OF sample_run]) (simp_all add: sample_claimed_def)

text \<open>
  Property C37. The table keeps its schema: whatever statements ran, in whatever order, each row has an
  id of its own, no two rows of a queue have the same timer, each queue and timer name fits its 255
  characters, a lease is fully set or fully unset and never dated in the future, and the count of
  deliveries is never negative.
\<close>

theorem table_keeps_schema:
  assumes "shared_run shared_init sts s"
  shows "distinct (map row_id (db_rows (sh_db s))) \<and> timer_uq (db_rows (sh_db s)) \<and>
    list_all (\<lambda>r. row_fits r \<and> lease_ck r \<and> 0 \<le> deliveries_count r \<and>
      (case acquired_at r of None \<Rightarrow> True | Some t \<Rightarrow> t \<le> sh_now s)) (db_rows (sh_db s))"
proof -
  have "shared_inv s" using shared_run_inv [OF assms shared_init_inv] .
  moreover have "list_all row_fits (db_rows (sh_db s))"
    using shared_run_fits [OF assms] by (simp add: shared_init_def)
  ultimately show ?thesis by (auto simp: list_all_iff shared_inv_def wf_rows_def split: option.split)
qed

theorem table_keeps_schema_witness:
  "timer_uq (db_rows (sh_db sample_claimed)) \<and> list_all row_fits (db_rows (sh_db sample_claimed))"
  using table_keeps_schema [OF sample_run] by (simp add: list_all_iff)

end
