(* ===== verification/Row_Lifecycle.thy ===== *)
theory Row_Lifecycle
  imports Lease_Protocol
begin

text \<open>
  The life of a message as the table promises it, whatever the processes do: a specification in terms of
  one message at a time, and the proof that the statements of \<open>client.py\<close>, in any order, refine it.
\<close>

section \<open>The specification\<close>

text \<open>
  A message waits, is leased with a token, has left the table or is archived in the dead-letter table; the
  number is that of its deliveries so far. An id nobody has used has no status.
\<close>

datatype row_status = Waiting_Row int | Leased_Row token int | Gone_Row | Archived_Row int

text \<open>What a statement may do to the message \<open>i\<close>.\<close>

inductive row_move :: "statement \<Rightarrow> nat \<Rightarrow> row_status option \<Rightarrow> row_status option \<Rightarrow> bool" where
  Published: "i \<in> set (new_ids st) \<Longrightarrow> row_move st i None (Some (Waiting_Row 0))"
| Unused: "i \<in> set (new_ids st) \<Longrightarrow> row_move st i None (Some Gone_Row)"
| Claimed: "tok \<in> set (new_tokens st) \<Longrightarrow> row_move st i (Some (Waiting_Row n)) (Some (Leased_Row tok (n + 1)))"
| Reclaimed: "tok \<in> set (new_tokens st) \<Longrightarrow> tok \<noteq> tok0 \<Longrightarrow>
    row_move st i (Some (Leased_Row tok0 n)) (Some (Leased_Row tok (n + 1)))"
| Rescheduled: "row_move (MarkPending i tok w) i (Some (Leased_Row tok n)) (Some (Waiting_Row n))"
| Deleted: "row_move (Delete d i tok None) i (Some (Leased_Row tok n)) (Some Gone_Row)"
| Batched: "(i, tok) \<in> set pairs \<Longrightarrow> row_move (DeleteBatch pairs) i (Some (Leased_Row tok n)) (Some Gone_Row)"
| Archived: "row_move (Delete True i tok (Some ctx)) i (Some (Leased_Row tok n)) (Some (Archived_Row n))"
| Cancelled: "row_move (Cancel q tid) i (Some (Waiting_Row n)) (Some Gone_Row)"

inductive_cases row_move_goneE: "row_move st i (Some Gone_Row) x"
inductive_cases row_move_archivedE: "row_move st i (Some (Archived_Row n)) x"

section \<open>The status of a message\<close>

definition row_of :: "nat \<Rightarrow> outbox_row list \<Rightarrow> outbox_row option" where
  "row_of i rs = find (\<lambda>r. row_id r = i) rs"

definition archive_of :: "nat \<Rightarrow> dlq_row list \<Rightarrow> dlq_row option" where
  "archive_of i ds = find (\<lambda>d. original_id d = i) ds"

definition row_state :: "outbox_row \<Rightarrow> row_status" where
  "row_state r = (case acquired_token r of None \<Rightarrow> Waiting_Row (deliveries_count r)
     | Some tok \<Rightarrow> Leased_Row tok (deliveries_count r))"

definition status_of :: "shared_state \<Rightarrow> nat \<Rightarrow> row_status option" where
  "status_of s i =
     (if i \<notin> sh_ids s then None
      else Some (case row_of i (db_rows (sh_db s)) of
          Some r \<Rightarrow> row_state r
        | None \<Rightarrow> (case archive_of i (db_dlq (sh_db s)) of
              Some d \<Rightarrow> Archived_Row (dlq_deliveries_count d) | None \<Rightarrow> Gone_Row)))"

text \<open>With distinct ids, a row is found by its own.\<close>

lemma row_of_Some: "distinct (map row_id rs) \<Longrightarrow> row_of i rs = Some r \<longleftrightarrow> r \<in> set rs \<and> row_id r = i"
  by (induction rs) (auto simp: row_of_def)

lemma row_of_own: "distinct (map row_id rs) \<Longrightarrow> r \<in> set rs \<Longrightarrow> row_of (row_id r) rs = Some r"
  using row_of_Some by blast

lemma row_of_None: "row_of i rs = None \<longleftrightarrow> i \<notin> row_id ` set rs"
  by (auto simp: row_of_def find_None_iff)

lemma archive_of_None: "archive_of i ds = None \<longleftrightarrow> i \<notin> original_id ` set ds"
  by (auto simp: archive_of_def find_None_iff)

lemma archive_of_append: "archive_of i (ds @ es) = (case archive_of i ds of None \<Rightarrow> archive_of i es | Some d \<Rightarrow> Some d)"
  by (induction ds) (auto simp: archive_of_def)

section \<open>What the statements keep\<close>

definition life_inv :: "shared_state \<Rightarrow> bool" where
  "life_inv s \<longleftrightarrow> shared_inv s \<and> distinct (map original_id (db_dlq (sh_db s))) \<and>
     original_id ` set (db_dlq (sh_db s)) \<subseteq> sh_ids s \<and>
     original_id ` set (db_dlq (sh_db s)) \<inter> row_id ` set (db_rows (sh_db s)) = {}"

text \<open>Only a terminal write with a failure context reaches the dead-letter table.\<close>

definition archived_by :: "time \<Rightarrow> statement \<Rightarrow> outbox_row list \<Rightarrow> dlq_row list" where
  "archived_by now st rs = (case st of
     Delete True i tok (Some ctx) \<Rightarrow> map (dlq_archive now ctx) (filter (holds_lease i tok) rs) | _ \<Rightarrow> [])"

lemma exec_dlq: "db_dlq (exec_statement now st db) = db_dlq db @ archived_by now st (db_rows db)"
proof (cases st)
  case (Delete d i tok ctx)
  then show ?thesis
    by (cases d; cases ctx) (simp_all add: archived_by_def client_delete_with_lease_def dlq_cte_def delete_stmt_def Let_def)
qed (simp_all add: archived_by_def client_fetch_def fetch_stmt_def client_delete_batch_def client_mark_pending_def
  insert_stmt_def insert_batch_stmt_def client_cancel_timer_def Let_def split: option.split prod.split)

lemma archived_ids: "original_id ` set (archived_by now st rs) \<subseteq> row_id ` set rs"
  by (auto simp: archived_by_def dlq_archive_def split: statement.split bool.split option.split)

lemma unique_row: "wf_rows rs \<Longrightarrow> r \<in> set rs \<Longrightarrow> s \<in> set rs \<Longrightarrow> row_id r = row_id s \<Longrightarrow> r = s"
  by (auto simp: wf_rows_def distinct_map dest: inj_onD)

lemma archived_by_elem:
  assumes "d \<in> set (archived_by now st rs)"
  obtains i tok ctx r where "st = Delete True i tok (Some ctx)" and "r \<in> set rs" and "holds_lease i tok r"
    and "d = dlq_archive now ctx r"
  using assms by (auto simp: archived_by_def split: statement.splits bool.splits option.splits)

lemma archived_gone:
  assumes "wf_rows (db_rows db)" and "d \<in> set (archived_by now st (db_rows db))"
  shows "original_id d \<notin> row_id ` set (db_rows (exec_statement now st db))"
proof -
  obtain i tok ctx r where st: "st = Delete True i tok (Some ctx)" "r \<in> set (db_rows db)" "holds_lease i tok r"
    "d = dlq_archive now ctx r" using archived_by_elem [OF assms(2)] by blast
  have "holds_lease i tok s" if "s \<in> set (db_rows db)" "row_id s = row_id r" for s
    using unique_row [OF assms(1) that(1) st(2) that(2)] st(3) by simp
  then show ?thesis
    by (auto simp: st(1,4) client_delete_with_lease_def dlq_cte_def Let_def dlq_archive_def)
qed

lemma distinct_archived: "distinct (map row_id rs) \<Longrightarrow> distinct (map original_id (archived_by now st rs))"
  by (simp add: archived_by_def dlq_archive_def comp_def distinct_map_filter split: statement.split bool.split option.split)

lemma life_inv_step:
  assumes "shared_step s st s'" and "life_inv s"
  shows "life_inv s'"
proof -
  from assms(1) obtain now where st: "sh_db s' = exec_statement now st (sh_db s)"
    "sh_ids s' = sh_ids s \<union> set (new_ids st)" "set (new_ids st) \<inter> sh_ids s = {}" by cases auto
  let ?rs = "db_rows (sh_db s)" and ?arch = "archived_by now st (db_rows (sh_db s))"
  have inv: "shared_inv s" "distinct (map original_id (db_dlq (sh_db s)))" "original_id ` set (db_dlq (sh_db s)) \<subseteq> sh_ids s"
    "original_id ` set (db_dlq (sh_db s)) \<inter> row_id ` set ?rs = {}" using assms(2) by (simp_all add: life_inv_def)
  then have wf: "wf_rows ?rs" and ids: "row_id ` set ?rs \<subseteq> sh_ids s" by (simp_all add: shared_inv_def)
  have "original_id d \<notin> row_id ` set (db_rows (sh_db s'))" if "d \<in> set (db_dlq (sh_db s'))" for d
  proof (cases "d \<in> set ?arch")
    case True
    then show ?thesis unfolding st(1) using archived_gone [OF wf] by blast
  next
    case False
    then have "d \<in> set (db_dlq (sh_db s))" using that by (simp add: st(1) exec_dlq)
    then show ?thesis unfolding st(1) using inv(3,4) st(3) by (intro exec_no_old_id [OF wf]) auto
  qed
  moreover have "original_id ` set (db_dlq (sh_db s)) \<inter> original_id ` set ?arch = {}"
    using inv(4) archived_ids [of now st ?rs] by blast
  then have "distinct (map original_id (db_dlq (sh_db s')))"
    using inv(2) distinct_archived [of ?rs now st] wf by (simp add: st(1) exec_dlq wf_rows_def)
  moreover have "original_id ` set (db_dlq (sh_db s')) \<subseteq> sh_ids s'"
    using inv(3) subset_trans [OF archived_ids ids, of now st] by (auto simp: st(1,2) exec_dlq)
  ultimately show ?thesis using shared_step_inv [OF assms(1) inv(1)] by (auto simp: life_inv_def)
qed

lemma life_inv_run: "shared_run s sts s' \<Longrightarrow> life_inv s \<Longrightarrow> life_inv s'"
  by (induction rule: shared_run.induct) (auto intro: life_inv_step)

lemma life_inv_init: "life_inv shared_init"
  using shared_init_inv by (simp add: life_inv_def) (simp add: shared_init_def)

section \<open>The refinement\<close>

text \<open>What a statement does to the row of a message that was there before.\<close>

lemma row_stays:
  assumes "wf_rows rs" and "r \<in> set rs" and "row_origin now st rs r'" and "row_id r' = row_id r"
    and "row_id r \<notin> set (new_ids st)" and "set (new_tokens st) \<inter> set_option (acquired_token r) = {}"
  shows "row_state r' = row_state r \<or> row_move st (row_id r) (Some (row_state r)) (Some (row_state r'))"
proof -
  have same: "x = r" if "x \<in> set rs" "row_id x = row_id r" for x
    using unique_row [OF assms(1) that(1) assms(2) that(2)] .
  from assms(3) consider "row_id r' \<in> set (new_ids st)" | "r' \<in> set rs"
    | x tok where "x \<in> set rs" "tok \<in> set (new_tokens st)" "r' = claim_row now tok x"
    | x i tok w where "x \<in> set rs" "st = MarkPending i tok w" "holds_lease i tok x" "r' = reschedule_row now w x"
    | x body hdrs t where "x \<in> set rs" "acquired_token x = None" "r' = extend_row body hdrs t x"
    unfolding row_origin_def by blast
  then show ?thesis
  proof cases
    case 1
    then show ?thesis using assms(4,5) by simp
  next
    case 2
    then show ?thesis using same [of r'] assms(4) by simp
  next
    case 3
    then have "x = r" using same [of x] assms(4) by simp
    then show ?thesis using 3 assms(6) by (auto simp: row_state_def intro: Claimed Reclaimed split: option.split)
  next
    case 4
    then have "x = r" using same [of x] assms(4) by simp
    then show ?thesis using 4 by (auto simp: row_state_def holds_lease_def intro: Rescheduled)
  next
    case 5
    then have "x = r" using same [of x] assms(4) by simp
    then show ?thesis using 5 by (simp add: row_state_def extend_row_def)
  qed
qed

text \<open>And how its status ends when the row leaves.\<close>

lemma row_leaves:
  assumes "wf_rows (db_rows db)" and "r \<in> set (db_rows db)" and "row_id r \<notin> original_id ` set (db_dlq db)"
    and "row_id r \<notin> row_id ` set (db_rows (exec_statement now st db))"
  shows "row_move st (row_id r) (Some (row_state r))
    (Some (case archive_of (row_id r) (db_dlq (exec_statement now st db)) of
       Some d \<Rightarrow> Archived_Row (dlq_deliveries_count d) | None \<Rightarrow> Gone_Row))"
proof (cases "archive_of (row_id r) (db_dlq (exec_statement now st db))")
  case (Some d)
  then have "d \<in> set (db_dlq (exec_statement now st db))" "original_id d = row_id r"
    by (auto simp: archive_of_def find_Some_iff)
  with assms(3) have "d \<in> set (archived_by now st (db_rows db))" by (force simp: exec_dlq)
  then obtain i tok ctx x where d: "st = Delete True i tok (Some ctx)" "x \<in> set (db_rows db)" "holds_lease i tok x"
    "d = dlq_archive now ctx x" by (rule archived_by_elem)
  then have "x = r" using unique_row [OF assms(1) d(2) assms(2)] \<open>original_id d = row_id r\<close> by (simp add: dlq_archive_def)
  then show ?thesis unfolding Some option.case using d
    by (auto simp: row_state_def holds_lease_def dlq_archive_def intro: Archived)
next
  case none: None
  then have gone: "row_id r \<notin> original_id ` set (archived_by now st (db_rows db))"
    by (auto simp: archive_of_None exec_dlq)
  have rem: "removes st r" using exec_keeps_id assms(2,4) by blast
  have "row_move st (row_id r) (Some (row_state r)) (Some Gone_Row)"
  proof (cases st)
    case (Delete d i tok ctx)
    then have lease: "holds_lease i tok r" using rem by simp
    show ?thesis
    proof (cases ctx)
      case None
      then show ?thesis using lease by (auto simp: Delete row_state_def holds_lease_def intro: Deleted)
    next
      case (Some c)
      have d using assms(2,4) by (cases d) (simp_all add: Delete Some client_delete_with_lease_def)
      then have "dlq_archive now c r \<in> set (archived_by now st (db_rows db))"
        using lease assms(2) by (simp add: Delete Some archived_by_def)
      moreover have "original_id (dlq_archive now c r) = row_id r" by (simp add: dlq_archive_def)
      ultimately show ?thesis using gone by force
    qed
  next
    case (DeleteBatch pairs)
    then show ?thesis using rem by (auto simp: row_state_def holds_lease_def intro: Batched)
  next
    case (Cancel q tid)
    then show ?thesis using rem by (auto simp: row_state_def intro: Cancelled)
  qed (use rem in simp_all)
  then show ?thesis by (simp add: none)
qed

lemma step_refines:
  assumes "shared_step s st s'" and "life_inv s"
  shows "status_of s' i = status_of s i \<or> row_move st i (status_of s i) (status_of s' i)"
proof -
  from assms(1) obtain now where st: "sh_db s' = exec_statement now st (sh_db s)"
    "sh_ids s' = sh_ids s \<union> set (new_ids st)" "set (new_ids st) \<inter> sh_ids s = {}"
    "set (new_tokens st) \<inter> sh_tokens s = {}" by cases auto
  let ?rs = "db_rows (sh_db s)" and ?rs' = "db_rows (sh_db s')"
  have inv: "shared_inv s" "life_inv s'" using assms(2) life_inv_step [OF assms] by (simp_all add: life_inv_def)
  then have wf: "wf_rows ?rs" "distinct (map row_id ?rs)" "distinct (map row_id ?rs')" and ids: "row_id ` set ?rs \<subseteq> sh_ids s"
    by (simp_all add: life_inv_def shared_inv_def wf_rows_def)
  have origin: "row_origin now st ?rs r'" if "r' \<in> set ?rs'" for r'
    using exec_origin [OF wf(1)] that by (simp add: st(1))
  consider "i \<notin> sh_ids s" "i \<notin> set (new_ids st)" | "i \<notin> sh_ids s" "i \<in> set (new_ids st)"
    | r where "i \<in> sh_ids s" "r \<in> set ?rs" "row_id r = i" | "i \<in> sh_ids s" "i \<notin> row_id ` set ?rs" by auto
  then show ?thesis
  proof cases
    case 1
    then show ?thesis by (simp add: status_of_def st(2))
  next
    case 2
    have none: "status_of s i = None" using 2 by (simp add: status_of_def)
    show ?thesis
    proof (cases "row_of i ?rs'")
      case None
      have "i \<notin> original_id ` set (db_dlq (sh_db s'))"
        using 2 assms(2) subset_trans [OF archived_ids ids, of now st] by (auto simp: life_inv_def st(1) exec_dlq)
      then have "status_of s' i = Some Gone_Row" using 2 None archive_of_None [of i "db_dlq (sh_db s')"]
        by (simp add: status_of_def st(2))
      then show ?thesis using none 2 by (simp add: Unused)
    next
      case (Some r')
      then have r': "r' \<in> set ?rs'" "row_id r' = i" using row_of_Some [OF wf(3)] by simp_all
      have "acquired_token r' = None \<and> deliveries_count r' = 0"
        using origin [OF r'(1)] 2 ids r'(2) by (auto simp: row_origin_def)
      then have "status_of s' i = Some (Waiting_Row 0)" using 2 Some by (simp add: status_of_def st(2) row_state_def)
      then show ?thesis using none 2 by (simp add: Published)
    qed
  next
    case 3
    have new: "row_id r \<notin> set (new_ids st)" using 3 st(3) by auto
    have before: "status_of s i = Some (row_state r)" using 3 row_of_own [OF wf(2) 3(2)] by (simp add: status_of_def)
    show ?thesis
    proof (cases "row_of i ?rs'")
      case None
      then have "row_id r \<notin> row_id ` set ?rs'" using 3 by (simp add: row_of_None)
      moreover have "row_id r \<notin> original_id ` set (db_dlq (sh_db s))" using assms(2) 3 by (auto simp: life_inv_def)
      ultimately show ?thesis using row_leaves [OF wf(1) 3(2), of now st] 3 None
        by (simp add: before st(1)) (simp add: status_of_def st(1,2))
    next
      case (Some r')
      then have r': "r' \<in> set ?rs'" "row_id r' = row_id r" using row_of_Some [OF wf(3)] 3 by simp_all
      have "set (new_tokens st) \<inter> set_option (acquired_token r) = {}"
        using inv(1) 3(2) st(4) by (auto simp: shared_inv_def)
      then show ?thesis using row_stays [OF wf(1) 3(2) origin [OF r'(1)] r'(2) new] 3 Some
        by (simp add: before) (simp add: status_of_def st(2))
    qed
  next
    case 4
    then have "i \<notin> set (new_ids st)" using st(3) by auto
    with 4 have gone: "row_of i ?rs' = None" "row_of i ?rs = None"
      using exec_no_old_id [OF wf(1)] by (simp_all add: st(1) row_of_None)
    have "archive_of i (archived_by now st ?rs) = None"
      using 4 archived_ids [of now st ?rs] by (auto simp: archive_of_None)
    then have "archive_of i (db_dlq (sh_db s')) = archive_of i (db_dlq (sh_db s))"
      by (simp add: st(1) exec_dlq archive_of_append split: option.split)
    then show ?thesis using 4 gone by (simp add: status_of_def st(2))
  qed
qed

section \<open>The deliveries of one message\<close>

text \<open>What a statement hands to the process that issued it.\<close>

definition handed_out :: "time \<Rightarrow> statement \<Rightarrow> outbox_db \<Rightarrow> inner_message list" where
  "handed_out now st db = (case st of
     Fetch order locked tok qs n ttl \<Rightarrow>
       (case snd (client_fetch order locked True now 0 tok qs n ttl db) of Inr ms \<Rightarrow> ms | Inl e \<Rightarrow> [])
   | _ \<Rightarrow> [])"

text \<open>A run with the messages of id \<open>i\<close> that its fetches returned, to whomever, in that order.\<close>

inductive delivery_run :: "nat \<Rightarrow> shared_state \<Rightarrow> inner_message list \<Rightarrow> shared_state \<Rightarrow> bool" where
  Quiet: "delivery_run i s [] s"
| Deliver: "shared_step s st s1 \<Longrightarrow> delivery_run i s1 ms s' \<Longrightarrow>
    delivery_run i s (filter (\<lambda>m. row_id m = i) (handed_out (sh_now s1) st (sh_db s)) @ ms) s'"

fun counted_from :: "int \<Rightarrow> inner_message list \<Rightarrow> bool" where
  "counted_from c [] \<longleftrightarrow> True"
| "counted_from c (m # ms) \<longleftrightarrow> deliveries_count m = c + 1 \<and> counted_from (c + 1) ms"

lemma counted_nth: "counted_from c ms \<Longrightarrow> k < length ms \<Longrightarrow> deliveries_count (ms ! k) = c + 1 + int k"
  by (induction c ms arbitrary: k rule: counted_from.induct) (auto simp: nth_Cons split: nat.split)

lemma counted_admitted:
  "counted_from c ms \<Longrightarrow> length (filter (\<lambda>m. fst (allow_delivery (Some mx) m)) ms) = min (nat (mx - c)) (length ms)"
proof (induction c ms rule: counted_from.induct)
  case (2 c m ms)
  then show ?case by (auto simp: allow_delivery_def min_def)
qed simp

lemma distinct_filter_one: "distinct xs \<Longrightarrow> x \<in> set xs \<Longrightarrow> filter (\<lambda>y. y = x) xs = [x]"
  by (induction xs) (auto simp: filter_empty_conv)

text \<open>A fetch hands out a row at most once, as it is after the claim.\<close>

lemma handed_out_row:
  assumes "wf_rows (db_rows db)"
  shows "filter (\<lambda>m. row_id m = i) (handed_out now st db) = [] \<or>
    (\<exists>r tok. r \<in> set (db_rows db) \<and> row_id r = i \<and>
       filter (\<lambda>m. row_id m = i) (handed_out now st db) = [row_to_message 0 (claim_row now tok r)] \<and>
       claim_row now tok r \<in> set (db_rows (exec_statement now st db)))"
proof (cases st)
  case (Fetch order locked tok qs n ttl)
  show ?thesis
  proof (cases "qs = []")
    case True
    then show ?thesis by (simp add: handed_out_def Fetch client_fetch_def)
  next
    case False
    let ?sel = "claimed_now now ttl n locked qs (db_rows db)"
    note eq = fetch_claims_eq [OF assms False, of order locked now 0 tok n ttl, unfolded Let_def]
    have sel: "distinct ?sel" "set ?sel \<subseteq> set (db_rows db)" using claimed_now_props [OF assms, of now ttl n locked qs] by auto
    have out: "filter (\<lambda>m. row_id m = i) (handed_out now st db) =
        map (row_to_message 0 \<circ> claim_row now tok) (filter (\<lambda>r. row_id r = i) ?sel)"
      by (simp add: handed_out_def Fetch eq filter_map comp_def)
    show ?thesis
    proof (cases "filter (\<lambda>r. row_id r = i) ?sel")
      case Nil
      then show ?thesis by (simp add: out)
    next
      case (Cons r rest)
      have "r \<in> set (filter (\<lambda>r. row_id r = i) ?sel)" by (simp only: Cons) simp
      then have r: "r \<in> set ?sel" "row_id r = i" by simp_all
      have "x = r" if "x \<in> set ?sel" "row_id x = i" for x
        using unique_row [OF assms, of x r] that r sel(2) by auto
      then have "filter (\<lambda>x. row_id x = i) ?sel = filter (\<lambda>x. x = r) ?sel"
        using r(2) by (intro filter_cong [OF refl]) blast
      then have "filter (\<lambda>r. row_id r = i) ?sel = [r]" using sel(1) r(1) by (simp add: distinct_filter_one)
      moreover have "claim_row now tok r \<in> set (db_rows (exec_statement now st db))"
        using r sel(2) by (auto simp: Fetch eq claim_rows_def)
      ultimately show ?thesis using r sel(2) by (intro disjI2 exI [of _ r] exI [of _ tok]) (auto simp: out)
    qed
  qed
qed (simp_all add: handed_out_def)

text \<open>A message not handed out keeps its count.\<close>

lemma quiet_count:
  assumes "wf_rows (db_rows db)" and "filter (\<lambda>m. row_id m = i) (handed_out now st db) = []"
    and "r \<in> set (db_rows db)" and "row_id r = i"
    and "r' \<in> set (db_rows (exec_statement now st db))" and "row_id r' = i" and "i \<notin> set (new_ids st)"
  shows "deliveries_count r' = deliveries_count r"
proof (cases "new_tokens st")
  case Nil
  have same: "x = r" if "x \<in> set (db_rows db)" "row_id x = i" for x
    using unique_row [OF assms(1) that(1) assms(3)] that(2) assms(4) by simp
  show ?thesis using exec_origin [OF assms(1,5)] assms(6,7) Nil
    by (auto simp: row_origin_def reschedule_row_def extend_row_def dest: same)
next
  case (Cons x y)
  then obtain order locked tok qs n ttl where st: "st = Fetch order locked tok qs n ttl" by (cases st) auto
  show ?thesis
  proof (cases "qs = []")
    case True
    then have "r' \<in> set (db_rows db)" using assms(5) by (simp add: st client_fetch_def)
    then show ?thesis using unique_row [OF assms(1) _ assms(3)] assms(4,6) by simp
  next
    case False
    note eq = fetch_claims_eq [OF assms(1) False, of order locked now 0 tok n ttl, unfolded Let_def]
    let ?sel = "claimed_now now ttl n locked qs (db_rows db)"
    have "i \<notin> row_id ` set ?sel" using assms(2)
      by (auto simp: handed_out_def st eq filter_empty_conv)
    then have "r' \<in> set (db_rows db)" using assms(5,6) by (auto simp: st eq claim_rows_def split: if_splits)
    then show ?thesis using unique_row [OF assms(1) _ assms(3)] assms(4,6) by simp
  qed
qed

definition count_of :: "nat \<Rightarrow> shared_state \<Rightarrow> int" where
  "count_of i s = (case row_of i (db_rows (sh_db s)) of Some r \<Rightarrow> deliveries_count r | None \<Rightarrow> 0)"

text \<open>One statement, from the point of view of the message: a delivery counts, nothing else does.\<close>

lemma delivery_step:
  fixes i :: nat
  assumes "shared_step s st s1" and "shared_inv s"
  defines "out \<equiv> filter (\<lambda>m. row_id m = i) (handed_out (sh_now s1) st (sh_db s))"
  shows "if row_of i (db_rows (sh_db s)) = None \<and> i \<in> sh_ids s
    then out = [] \<and> row_of i (db_rows (sh_db s1)) = None \<and> i \<in> sh_ids s1
    else (out = [] \<and> (count_of i s1 = count_of i s \<or> row_of i (db_rows (sh_db s1)) = None \<and> i \<in> sh_ids s1)) \<or>
      (\<exists>m. out = [m] \<and> deliveries_count m = count_of i s + 1 \<and> count_of i s1 = count_of i s + 1 \<and>
         row_of i (db_rows (sh_db s1)) \<noteq> None)"
proof -
  from assms(1) have st: "sh_db s1 = exec_statement (sh_now s1) st (sh_db s)"
    "sh_ids s1 = sh_ids s \<union> set (new_ids st)" "set (new_ids st) \<inter> sh_ids s = {}" by (cases, simp)+
  have wf: "wf_rows (db_rows (sh_db s))" and ids: "row_id ` set (db_rows (sh_db s)) \<subseteq> sh_ids s"
    using assms(2) by (simp_all add: shared_inv_def)
  have d: "distinct (map row_id (db_rows (sh_db s)))" "distinct (map row_id (db_rows (sh_db s1)))"
    using assms(2) shared_step_inv [OF assms(1,2)] by (simp_all add: shared_inv_def wf_rows_def)
  have handed: "out = [] \<or> (\<exists>r tok. r \<in> set (db_rows (sh_db s)) \<and> row_id r = i \<and>
       out = [row_to_message 0 (claim_row (sh_now s1) tok r)] \<and>
       claim_row (sh_now s1) tok r \<in> set (db_rows (sh_db s1)))"
    using handed_out_row [OF wf, of i "sh_now s1" st] by (simp add: out_def st(1))
  show ?thesis
  proof (cases "row_of i (db_rows (sh_db s))")
    case none: None
    then have i: "i \<notin> row_id ` set (db_rows (sh_db s))" by (simp add: row_of_None)
    then have "out = []" using handed by auto
    moreover have "row_of i (db_rows (sh_db s1)) = None" if "i \<in> sh_ids s"
      using exec_no_old_id [OF wf _ i, of st "sh_now s1"] st(3) that by (auto simp: st(1) row_of_None)
    moreover have "count_of i s1 = 0"
    proof (cases "row_of i (db_rows (sh_db s1))")
      case (Some r')
      then have "r' \<in> set (db_rows (exec_statement (sh_now s1) st (sh_db s)))" "row_id r' = i"
        using row_of_Some [OF d(2)] by (simp_all add: st(1))
      with exec_origin [OF wf this(1)] i have "deliveries_count r' = 0" by (auto simp: row_origin_def)
      then show ?thesis by (simp add: count_of_def Some)
    qed (simp add: count_of_def)
    ultimately show ?thesis using none st(2) by (simp add: count_of_def)
  next
    case (Some r)
    then have r: "r \<in> set (db_rows (sh_db s))" "row_id r = i" using row_of_Some [OF d(1)] by simp_all
    then have "i \<in> sh_ids s" "i \<notin> set (new_ids st)" using ids st(3) by auto
    from handed show ?thesis
    proof (elim disjE exE conjE)
      assume "out = []"
      moreover have "count_of i s1 = count_of i s \<or> row_of i (db_rows (sh_db s1)) = None"
      proof (cases "row_of i (db_rows (sh_db s1))")
        case after: (Some r')
        then have "r' \<in> set (db_rows (exec_statement (sh_now s1) st (sh_db s)))" "row_id r' = i"
          using row_of_Some [OF d(2)] by (simp_all add: st(1))
        from quiet_count [OF wf _ r this \<open>i \<notin> set (new_ids st)\<close>] \<open>out = []\<close> show ?thesis
          by (simp add: count_of_def after Some out_def)
      qed simp
      ultimately show ?thesis using Some \<open>i \<in> sh_ids s\<close> st(2) by auto
    next
      fix x tok
      assume x: "x \<in> set (db_rows (sh_db s))" "row_id x = i" "out = [row_to_message 0 (claim_row (sh_now s1) tok x)]"
        "claim_row (sh_now s1) tok x \<in> set (db_rows (sh_db s1))"
      then have "x = r" using unique_row [OF wf x(1) r(1)] r(2) by simp
      moreover have "row_of i (db_rows (sh_db s1)) = Some (claim_row (sh_now s1) tok x)"
        using row_of_own [OF d(2) x(4)] x(2) by simp
      ultimately show ?thesis using x(3) Some by (simp add: count_of_def)
    qed
  qed
qed

lemma deliveries_counted:
  "delivery_run i s ms s' \<Longrightarrow> shared_inv s \<Longrightarrow>
     if row_of i (db_rows (sh_db s)) = None \<and> i \<in> sh_ids s then ms = [] else counted_from (count_of i s) ms"
proof (induction rule: delivery_run.induct)
  case (Deliver s st s1 i ms s')
  note IH = Deliver.IH [OF shared_step_inv [OF Deliver.hyps(1) Deliver.prems]]
  show ?case using delivery_step [OF Deliver.hyps(1) Deliver.prems, of i] IH by (auto split: if_splits)
qed simp

text \<open>Nothing happens any more to a message that has left the table.\<close>

lemma life_ends: "row_move st i (Some Gone_Row) x \<Longrightarrow> False" "row_move st i (Some (Archived_Row n)) x \<Longrightarrow> False"
  by (elim row_move_goneE row_move_archivedE)+

section \<open>Properties\<close>

text \<open>
  Property C4. The table refines the life of a message. In every reachable state, whatever statement any
  process issues next, each message either keeps its status or makes one of the moves of \<open>row_move\<close>: it is
  published waiting with no delivery, claimed by a fetch with a new token, reclaimed from another lease,
  rescheduled or deleted only under the token it is leased with, archived only by a terminal write with
  a failure under that token, cancelled only while it waits. A message that is gone or archived makes none.
  No message is archived twice, and none is archived and still in the table.
\<close>

theorem table_refines_lifecycle:
  assumes "shared_run shared_init before s" and "shared_step s st s'"
  shows "(status_of s' i = status_of s i \<or> row_move st i (status_of s i) (status_of s' i)) \<and>
    distinct (map original_id (db_dlq (sh_db s'))) \<and>
    set (map original_id (db_dlq (sh_db s'))) \<inter> set (map row_id (db_rows (sh_db s'))) = {}"
proof -
  have inv: "life_inv s" using life_inv_run [OF assms(1) life_inv_init] .
  show ?thesis using step_refines [OF assms(2) inv] life_inv_step [OF assms(2) inv] by (auto simp: life_inv_def)
qed

definition sample_failure :: dlq_injected where
  "sample_failure = \<lparr>inj_failure_reason = ''rejected'', inj_last_exception = None\<rparr>"

lemma sample_claimed_status: "status_of sample_claimed 1 = Some (Leased_Row 7 1)"
  by (simp add: status_of_def sample_claimed_def row_of_def row_state_def new_row_def claim_row_def)

theorem table_refines_lifecycle_witness:
  "row_move (Delete True 1 7 (Some sample_failure)) 1 (Some (Leased_Row 7 1)) (Some (Archived_Row 1))"
proof -
  let ?st = "Delete True 1 7 (Some sample_failure)"
  let ?s' = "\<lparr>sh_now = 9, sh_db = exec_statement 9 ?st (sh_db sample_claimed), sh_ids = {1}, sh_tokens = {7}\<rparr>"
  have "shared_step sample_claimed ?st ?s'" by (rule shared_stepI [where now = 9]) (simp_all add: sample_claimed_def)
  moreover have "status_of ?s' 1 = Some (Archived_Row 1)"
    by (simp add: status_of_def sample_claimed_def row_of_def archive_of_def client_delete_with_lease_def dlq_cte_def
        holds_lease_def dlq_archive_def new_row_def claim_row_def)
  ultimately show ?thesis using table_refines_lifecycle [OF sample_run, of ?st ?s' 1] sample_claimed_status by simp
qed

text \<open>
  Property C5. Every delivery is counted, whoever receives it. Over any run of statements by all processes,
  with crashes, expired leases, retries and reclaims in between, the messages that fetches hand out for one
  row carry \<open>deliveries_count\<close> 1, 2, 3 and so on without a gap or a repetition. So the gate of
  \<open>max_deliveries\<close> lets exactly the first \<open>mx\<close> of them reach a handler, and refuses every later one.
\<close>

theorem deliveries_bounded:
  assumes "delivery_run i shared_init ms s'"
  shows "map deliveries_count ms = map (\<lambda>k. int k + 1) [0..<length ms] \<and>
    map (\<lambda>m. fst (allow_delivery (Some mx) m)) ms = map (\<lambda>k. int k < mx) [0..<length ms] \<and>
    length (filter (\<lambda>m. fst (allow_delivery (Some mx) m)) ms) = min (nat mx) (length ms)"
proof -
  have c: "counted_from 0 ms" using deliveries_counted [OF assms shared_init_inv]
    by (simp add: shared_init_def count_of_def row_of_def)
  have n: "deliveries_count (ms ! k) = int k + 1" if "k < length ms" for k using counted_nth [OF c that] by simp
  show ?thesis using counted_admitted [OF c, of mx]
    by (intro conjI nth_equalityI) (auto simp: n allow_delivery_def)
qed

text \<open>The sample row is claimed, its worker dies, and it is claimed again when the lease has expired.\<close>

lemma handed_out_fetch: "wf_rows (db_rows db) \<Longrightarrow> qs \<noteq> [] \<Longrightarrow>
    handed_out now (Fetch order {} tok qs n ttl) db =
      map (row_to_message 0 \<circ> claim_row now tok) (claimed_now now ttl n {} qs (db_rows db))"
  by (simp add: handed_out_def fetch_claims_eq Let_def)

lemma sample_redelivered: "\<exists>ms s'. delivery_run 1 shared_init ms s' \<and> length ms = 2"
proof -
  let ?row = "new_row 1 0 ''q'' [] None 0 (Some ''t'')"
  let ?s' = "\<lparr>sh_now = 100, sh_db = exec_statement 100 (sample_fetch 8) (sh_db sample_claimed), sh_ids = {1},
      sh_tokens = {7, 8}\<rparr>"
  have wf: "wf_rows [?row]" "wf_rows [claim_row 0 7 ?row]" by (simp_all add: wf_rows_Cons)
  have again: "shared_step sample_claimed (sample_fetch 8) ?s'"
    by (rule shared_stepI [where now = 100], simp_all add: sample_claimed_def) (simp_all add: sample_fetch_def)
  have due: "claimed_now 100 60 5 {} [''q''] [claim_row 0 7 ?row] = [claim_row 0 7 ?row]"
    by (simp add: claimed_now_def available_def lease_expired_def top_by_def claim_row_def new_row_def)
  have "handed_out 0 sample_insert (sh_db shared_init) = []" by (simp add: handed_out_def sample_insert_def)
  moreover have "handed_out 0 (sample_fetch 7) (sh_db sample_published) = [row_to_message 0 (claim_row 0 7 ?row)]"
    by (simp add: sample_fetch_def sample_published_def handed_out_fetch wf sample_due del: One_nat_def)
  moreover have "handed_out 100 (sample_fetch 8) (sh_db sample_claimed) =
      [row_to_message 0 (claim_row 100 8 (claim_row 0 7 ?row))]"
    by (simp add: sample_fetch_def sample_claimed_def handed_out_fetch wf due del: One_nat_def)
  ultimately show ?thesis
    using Deliver [OF sample_publish Deliver [OF sample_claim Deliver [OF again Quiet]], of 1]
    by (intro exI conjI) (assumption, simp add: sample_published_def sample_claimed_def new_row_def)
qed

theorem deliveries_bounded_witness:
  "\<exists>ms s'. delivery_run 1 shared_init ms s' \<and> map deliveries_count ms = [1, 2] \<and>
     map (\<lambda>m. fst (allow_delivery (Some 1) m)) ms = [True, False]"
proof -
  obtain ms s' where ms: "delivery_run 1 shared_init ms s'" "length ms = 2" using sample_redelivered by blast
  with deliveries_bounded [OF ms(1), of 1] show ?thesis by (auto simp: numeral_2_eq_2)
qed

end
