(* ===== verification/Notify.thy ===== *)
theory Notify
  imports Client
begin

text \<open>
  NOTIFY on the caller's session (\<open>_OutboxInserter\<close> in \<open>client.py\<close>): which inserts call \<open>pg_notify\<close>,
  and the memo that keeps a transaction from notifying one queue twice. The session's transactions
  are a stack, the innermost savepoint first; each carries the memo its object keys, the NOTIFYs
  Postgres queued in it and the rows that landed in it. Postgres delivers at the outermost commit and
  discards with a rollback; a statement that fails leaves the transaction fit only for rollback.
\<close>

record landed_row =
  lr_id :: nat
  lr_queue :: string
  lr_eligible :: bool

record txn =
  tx_memo :: "string list"
  tx_pending :: "string list"
  tx_landed :: "landed_row list"
  tx_failed :: bool

definition new_txn :: txn where
  "new_txn = \<lparr>tx_memo = [], tx_pending = [], tx_landed = [], tx_failed = False\<rparr>"

text \<open>What a commit published: the rows that landed and the queues whose NOTIFY was delivered.\<close>

record session =
  se_stack :: "txn list"
  se_commits :: "(landed_row list \<times> string list) list"

text \<open>\<open>_notified_queues\<close>: the memo of the innermost transaction, or \<open>None\<close> outside one.\<close>

definition notified_queues :: "session \<Rightarrow> string list option" where
  "notified_queues s = (case se_stack s of [] \<Rightarrow> None | t # ts \<Rightarrow> Some (tx_memo t))"

text \<open>Running a statement begins a transaction if none is open.\<close>

definition autobegin :: "session \<Rightarrow> session" where
  "autobegin s = (if se_stack s = [] then s\<lparr>se_stack := [new_txn]\<rparr> else s)"

definition on_innermost :: "(txn \<Rightarrow> txn) \<Rightarrow> session \<Rightarrow> session" where
  "on_innermost f s = (case se_stack s of [] \<Rightarrow> s | t # ts \<Rightarrow> s\<lparr>se_stack := f t # ts\<rparr>)"

definition remember :: "string \<Rightarrow> session \<Rightarrow> session" where
  "remember q = on_innermost (\<lambda>t. t\<lparr>tx_memo := (if q \<in> set (tx_memo t) then tx_memo t else tx_memo t @ [q])\<rparr>)"

text \<open>
  \<open>insert\<close>: \<open>landed\<close> is the id RETURNING yields for this statement; the NOTIFY rides in the same
  statement, so it is queued exactly when \<open>notify\<close> holds and a row landed or was extended.
\<close>

definition inserter_insert :: "rat option \<Rightarrow> time option \<Rightarrow> time \<Rightarrow> string \<Rightarrow> nat option \<Rightarrow> session \<Rightarrow> session" where
  "inserter_insert activate_in activate_at now q landed s =
     (let eligible = \<not> is_future_dated activate_in activate_at now;
          emitted = notified_queues s;
          notify = eligible \<and> (case emitted of None \<Rightarrow> True | Some e \<Rightarrow> q \<notin> set e);
          s1 = autobegin s
      in case landed of
           None \<Rightarrow> s1
         | Some i \<Rightarrow>
             let s2 = on_innermost (\<lambda>t. t\<lparr>tx_landed := tx_landed t @ [\<lparr>lr_id = i, lr_queue = q, lr_eligible = eligible\<rparr>],
                   tx_pending := tx_pending t @ (if notify then [q] else [])\<rparr>) s1
             in if notify then (if notified_queues s2 \<noteq> None then remember q s2 else s2) else s2)"

text \<open>\<open>_notify\<close>: the memo is written before the statement runs; \<open>ok\<close> says whether it succeeds.\<close>

definition inserter_notify :: "bool \<Rightarrow> string \<Rightarrow> session \<Rightarrow> session" where
  "inserter_notify ok q s =
     (case notified_queues s of
        Some e \<Rightarrow>
          if q \<in> set e then s
          else let s1 = remember q s
               in (if ok then on_innermost (\<lambda>t. t\<lparr>tx_pending := tx_pending t @ [q]\<rparr>) s1
                   else on_innermost (\<lambda>t. t\<lparr>tx_failed := True\<rparr>) s1)
      | None \<Rightarrow>
          let s1 = autobegin s
          in (if ok then on_innermost (\<lambda>t. t\<lparr>tx_pending := tx_pending t @ [q]\<rparr>) s1
              else on_innermost (\<lambda>t. t\<lparr>tx_failed := True\<rparr>) s1))"

definition inserter_insert_batch :: "rat option \<Rightarrow> time option \<Rightarrow> time \<Rightarrow> string \<Rightarrow> nat list \<Rightarrow> bool \<Rightarrow> session \<Rightarrow> session" where
  "inserter_insert_batch activate_in activate_at now q ids notify_ok s =
     (let eligible = \<not> is_future_dated activate_in activate_at now;
          s1 = on_innermost (\<lambda>t. t\<lparr>tx_landed := tx_landed t @
                 map (\<lambda>i. \<lparr>lr_id = i, lr_queue = q, lr_eligible = eligible\<rparr>) ids\<rparr>) (autobegin s)
      in if eligible then inserter_notify notify_ok q s1 else s1)"

section \<open>The session's operations\<close>

datatype session_op = Begin | BeginNested | End | Rollback
  | InsertOp "rat option" "time option" time string "nat option"
  | InsertBatchOp "rat option" "time option" time string "nat list" bool
  | FailOp

text \<open>
  \<open>End\<close> releases the innermost savepoint into its parent or commits the outermost transaction; after a
  failure both amount to a rollback. A statement on a failed transaction raises and changes nothing.
\<close>

definition end_txn :: "session \<Rightarrow> session" where
  "end_txn s = (case se_stack s of
     [] \<Rightarrow> s
   | [t] \<Rightarrow> if tx_failed t then s\<lparr>se_stack := []\<rparr>
       else s\<lparr>se_stack := [], se_commits := se_commits s @ [(tx_landed t, tx_pending t)]\<rparr>
   | t # p # ts \<Rightarrow> if tx_failed t then s\<lparr>se_stack := p # ts\<rparr>
       else s\<lparr>se_stack := p\<lparr>tx_landed := tx_landed p @ tx_landed t, tx_pending := tx_pending p @ tx_pending t\<rparr> # ts\<rparr>)"

definition usable :: "session \<Rightarrow> bool" where
  "usable s \<longleftrightarrow> (case se_stack s of [] \<Rightarrow> True | t # ts \<Rightarrow> \<not> tx_failed t)"

fun exec_session :: "session_op \<Rightarrow> session \<Rightarrow> session" where
  "exec_session Begin s = (if se_stack s = [] then s\<lparr>se_stack := [new_txn]\<rparr> else s)"
| "exec_session BeginNested s = (if usable s then s\<lparr>se_stack := new_txn # se_stack (autobegin s)\<rparr> else s)"
| "exec_session End s = end_txn s"
| "exec_session Rollback s = s\<lparr>se_stack := tl (se_stack s)\<rparr>"
| "exec_session (InsertOp ai aa now q landed) s = (if usable s then inserter_insert ai aa now q landed s else s)"
| "exec_session (InsertBatchOp ai aa now q ids ok) s =
     (if usable s then inserter_insert_batch ai aa now q ids ok s else s)"
| "exec_session FailOp s = on_innermost (\<lambda>t. t\<lparr>tx_failed := True\<rparr>) s"

definition run_session :: "session_op list \<Rightarrow> session" where
  "run_session sops = fold exec_session sops \<lparr>se_stack = [], se_commits = []\<rparr>"

section \<open>The invariant\<close>

text \<open>
  In a transaction that has not failed, the memo names only queues with a queued NOTIFY, every
  eligible row that landed has one, and each NOTIFY is for a row that landed.
\<close>

definition covered :: "landed_row list \<Rightarrow> string list \<Rightarrow> bool" where
  "covered rows queues \<longleftrightarrow> (\<forall>r \<in> set rows. lr_eligible r \<longrightarrow> lr_queue r \<in> set queues) \<and>
     (\<forall>q \<in> set queues. \<exists>r \<in> set rows. lr_eligible r \<and> lr_queue r = q)"

definition txn_ok :: "txn \<Rightarrow> bool" where
  "txn_ok t \<longleftrightarrow> tx_failed t \<or> (set (tx_memo t) \<subseteq> set (tx_pending t) \<and> covered (tx_landed t) (tx_pending t))"

definition session_ok :: "session \<Rightarrow> bool" where
  "session_ok s \<longleftrightarrow> list_all txn_ok (se_stack s) \<and> list_all (\<lambda>(rows, queues). covered rows queues) (se_commits s)"

lemma new_txn_ok [simp]: "txn_ok new_txn"
  by (simp add: txn_ok_def new_txn_def covered_def)

lemma session_ok_autobegin: "session_ok s \<Longrightarrow> session_ok (autobegin s) \<and> se_stack (autobegin s) \<noteq> []"
  by (auto simp: session_ok_def autobegin_def)

lemma covered_append: "covered a p \<Longrightarrow> covered b q \<Longrightarrow> covered (a @ b) (p @ q)"
  by (auto simp: covered_def)

lemma end_txn_ok: "session_ok s \<Longrightarrow> session_ok (end_txn s)"
  by (auto simp: session_ok_def end_txn_def txn_ok_def intro: covered_append split: list.splits)

text \<open>A statement that lands rows of a queue, with a NOTIFY unless the memo has the queue.\<close>

lemma land_ok:
  assumes "txn_ok t" and "\<not> tx_failed t"
    and "\<forall>r \<in> set new. lr_queue r = q \<and> lr_eligible r = eligible" and "eligible \<Longrightarrow> notify \<Longrightarrow> new \<noteq> []"
    and "notify \<Longrightarrow> eligible" and "eligible \<Longrightarrow> \<not> notify \<Longrightarrow> q \<in> set (tx_memo t)"
  shows "txn_ok (t\<lparr>tx_landed := tx_landed t @ new, tx_pending := tx_pending t @ (if notify then [q] else []),
    tx_memo := (if notify \<and> q \<notin> set (tx_memo t) then tx_memo t @ [q] else tx_memo t)\<rparr>)"
proof -
  have "set (tx_memo t) \<subseteq> set (tx_pending t)" and c: "covered (tx_landed t) (tx_pending t)"
    using assms(1,2) by (auto simp: txn_ok_def)
  moreover have "covered (tx_landed t @ new) (tx_pending t @ (if notify then [q] else []))"
    using c assms(3-6) \<open>set (tx_memo t) \<subseteq> set (tx_pending t)\<close>
    by (cases notify; cases new) (auto simp: covered_def)
  ultimately show ?thesis by (auto simp: txn_ok_def)
qed

lemma stack_head:
  assumes "session_ok s" and "usable s"
  shows "\<exists>t ts. se_stack (autobegin s) = t # ts \<and> txn_ok t \<and> \<not> tx_failed t \<and> list_all txn_ok ts \<and>
    (notified_queues s = Some (tx_memo t) \<or> notified_queues s = None \<and> tx_memo t = []) \<and>
    se_commits (autobegin s) = se_commits s"
proof (cases "se_stack s")
  case Nil
  have "tx_memo new_txn = []" "\<not> tx_failed new_txn" by (simp_all add: new_txn_def)
  with Nil show ?thesis
    by (intro exI [of _ new_txn] exI [of _ "[]"]) (simp add: autobegin_def notified_queues_def)
next
  case (Cons t ts)
  with assms have "txn_ok t" "\<not> tx_failed t" "list_all txn_ok ts"
    by (simp_all add: session_ok_def usable_def)
  with Cons show ?thesis
    by (intro exI [of _ t] exI [of _ ts]) (simp add: autobegin_def notified_queues_def)
qed

lemma inserter_insert_ok:
  assumes "session_ok s" and "usable s"
  shows "session_ok (inserter_insert ai aa now q landed s)"
proof -
  obtain t ts where t: "se_stack (autobegin s) = t # ts" "txn_ok t" "\<not> tx_failed t" "list_all txn_ok ts"
    and memo: "notified_queues s = Some (tx_memo t) \<or> notified_queues s = None \<and> tx_memo t = []"
    and c: "se_commits (autobegin s) = se_commits s"
    using stack_head [OF assms] by (elim exE conjE) (rule that)
  let ?el = "\<not> is_future_dated ai aa now"
  let ?no = "?el \<and> (case notified_queues s of None \<Rightarrow> True | Some e \<Rightarrow> q \<notin> set e)"
  show ?thesis
  proof (cases landed)
    case None
    then show ?thesis using session_ok_autobegin [OF assms(1)] by (simp add: inserter_insert_def)
  next
    case (Some i)
    let ?new = "[\<lparr>lr_id = i, lr_queue = q, lr_eligible = ?el\<rparr>]"
    have "txn_ok (t\<lparr>tx_landed := tx_landed t @ ?new, tx_pending := tx_pending t @ (if ?no then [q] else []),
        tx_memo := (if ?no \<and> q \<notin> set (tx_memo t) then tx_memo t @ [q] else tx_memo t)\<rparr>)"
      by (rule land_ok [where q = q and eligible = ?el]) (use t(2,3) memo in \<open>auto split: option.splits\<close>)
    then show ?thesis using Some t c assms(1)
      by (auto simp: inserter_insert_def Let_def on_innermost_def remember_def session_ok_def notified_queues_def)
  qed
qed

lemma inserter_insert_batch_ok:
  assumes "session_ok s" and "usable s" and "ids \<noteq> []"
  shows "session_ok (inserter_insert_batch ai aa now q ids ok s)"
proof -
  obtain t ts where t: "se_stack (autobegin s) = t # ts" "txn_ok t" "\<not> tx_failed t" "list_all txn_ok ts"
    and c: "se_commits (autobegin s) = se_commits s"
    using stack_head [OF assms(1,2)] by (elim exE conjE) (rule that)
  let ?el = "\<not> is_future_dated ai aa now"
  let ?new = "map (\<lambda>i. \<lparr>lr_id = i, lr_queue = q, lr_eligible = ?el\<rparr>) ids"
  let ?no = "?el \<and> q \<notin> set (tx_memo t)"
  have "txn_ok (t\<lparr>tx_landed := tx_landed t @ ?new, tx_pending := tx_pending t @ (if ?no then [q] else []),
      tx_memo := (if ?no \<and> q \<notin> set (tx_memo t) then tx_memo t @ [q] else tx_memo t)\<rparr>)"
    by (rule land_ok [where q = q and eligible = ?el]) (use t(2,3) assms(3) in auto)
  then show ?thesis using t c assms(1)
    by (auto simp: inserter_insert_batch_def inserter_notify_def Let_def on_innermost_def remember_def
        session_ok_def notified_queues_def autobegin_def txn_ok_def)
qed

text \<open>A batch is never empty: a publish command has at least one body.\<close>

fun op_ok :: "session_op \<Rightarrow> bool" where
  "op_ok (InsertBatchOp ai aa now q ids ok) \<longleftrightarrow> ids \<noteq> []"
| "op_ok sop \<longleftrightarrow> True"

lemma exec_session_ok:
  assumes "session_ok s" and "op_ok sop"
  shows "session_ok (exec_session sop s)"
proof (cases sop)
  case Begin
  with assms(1) show ?thesis by (auto simp: session_ok_def)
next
  case BeginNested
  with session_ok_autobegin [OF assms(1)] assms(1) show ?thesis by (simp add: session_ok_def autobegin_def)
next
  case Rollback
  with assms(1) show ?thesis by (cases "se_stack s") (auto simp: session_ok_def)
next
  case FailOp
  with assms(1) show ?thesis by (auto simp: session_ok_def on_innermost_def txn_ok_def split: list.splits)
qed (use assms in \<open>simp_all add: end_txn_ok inserter_insert_ok inserter_insert_batch_ok\<close>)

lemma run_session_ok: "list_all op_ok sops \<Longrightarrow> session_ok (run_session sops)"
proof -
  have "list_all op_ok sops \<Longrightarrow> session_ok s \<Longrightarrow> session_ok (fold exec_session sops s)" for s
    by (induction sops arbitrary: s) (auto intro: exec_session_ok)
  then show "list_all op_ok sops \<Longrightarrow> session_ok (run_session sops)"
    by (simp add: run_session_def session_ok_def)
qed

section \<open>Properties\<close>


definition sample_session :: "session_op list" where
  "sample_session = [Begin, BeginNested, InsertOp None None 0 ''q'' (Some 1), Rollback,
     InsertOp None None 0 ''q'' (Some 2), InsertOp None None 0 ''q'' (Some 3), End]"

lemma sample_session_commits: "se_commits (run_session sample_session) =
    [([\<lparr>lr_id = 2, lr_queue = ''q'', lr_eligible = True\<rparr>, \<lparr>lr_id = 3, lr_queue = ''q'', lr_eligible = True\<rparr>], [''q''])]"
  by (simp add: run_session_def sample_session_def inserter_insert_def is_future_dated_def autobegin_def
      on_innermost_def remember_def notified_queues_def usable_def new_txn_def end_txn_def Let_def)


end
