(* ===== verification/Publish.thy ===== *)
theory Publish
  imports Dispatch Envelope
begin

text \<open>
  The publish side: the arguments every entry point validates and the command they build
  (\<open>response.py\<close>), the producer that encodes, inserts and reports (\<open>publisher/producer.py\<close>), and the
  entry points themselves (\<open>broker.py\<close>, \<open>publisher/usecase.py\<close>). A body is a value or \<open>None\<close>;
  FastStream's encoder, the generated ids and the publish middlewares are not part of the package: the
  first two are arguments, and a publish goes to the producer directly.
\<close>

section \<open>Arguments\<close>

datatype datetime = Aware time | Naive time

text \<open>A session or connection, with whether it is in a transaction, or an object of another type.\<close>

datatype session_arg = Session bool | OtherHandle

text \<open>A \<open>str\<close>, or an object of the named type.\<close>

datatype queue_arg = QueueText string | QueueObject string

record publish_args =
  pa_queue :: queue_arg
  pa_session :: session_arg
  pa_activate_in :: "rat option"
  pa_activate_at :: "datetime option"
  pa_timer_id :: "string option"
  pa_timer_conflict :: string

datatype publish_error = BothActivations | NaiveActivateAt | NotASession | QueueNotText string
  | QueueEmpty | QueueTooLong nat | TimerIdTooLong nat | UnknownConflict string
  | ConflictWithoutTimer string | BatchWithRowArgs

text \<open>The class of the exception that is raised.\<close>

fun error_class :: "publish_error \<Rightarrow> string" where
  "error_class NotASession = ''TypeError''"
| "error_class (QueueNotText t) = ''TypeError''"
| "error_class e = ''ValueError''"

definition timer_conflict_names :: "string list" where
  "timer_conflict_names = [''ignore'', ''extend'']"

fun queue_text :: "queue_arg \<Rightarrow> string" where
  "queue_text (QueueText q) = q"
| "queue_text (QueueObject t) = []"

fun datetime_naive :: "datetime \<Rightarrow> bool" where
  "datetime_naive (Naive t) = True"
| "datetime_naive (Aware t) = False"

fun instant :: "datetime \<Rightarrow> time" where
  "instant (Aware t) = t"
| "instant (Naive t) = t"

definition length_error :: "nat option \<Rightarrow> bool" where
  "length_error n = (case n of None \<Rightarrow> False | Some k \<Rightarrow> k > max_queue_length)"

text \<open>\<open>_validate_publish_args\<close>: the checks run in this order.\<close>

definition validate_publish_args :: "publish_args \<Rightarrow> publish_error option" where
  "validate_publish_args a =
     (let q = queue_text (pa_queue a); tlen = map_option length (pa_timer_id a)
      in first_error
       [(pa_activate_in a \<noteq> None \<and> pa_activate_at a \<noteq> None, BothActivations),
        (case pa_activate_at a of None \<Rightarrow> False | Some t \<Rightarrow> datetime_naive t, NaiveActivateAt),
        (pa_session a = OtherHandle, NotASession),
        (pa_queue a \<noteq> QueueText q, QueueNotText (case pa_queue a of QueueObject t \<Rightarrow> t | QueueText x \<Rightarrow> [])),
        (q = [], QueueEmpty),
        (length q > max_queue_length, QueueTooLong (length q)),
        (length_error tlen, TimerIdTooLong (case tlen of None \<Rightarrow> 0 | Some n \<Rightarrow> n)),
        (pa_timer_conflict a \<notin> set timer_conflict_names, UnknownConflict (pa_timer_conflict a)),
        (pa_timer_conflict a \<noteq> ''ignore'' \<and> pa_timer_id a = None, ConflictWithoutTimer (pa_timer_conflict a))])"

section \<open>Commands and responses\<close>

text \<open>\<open>OutboxPublishCommand\<close>. Absent headers are the empty dictionary.\<close>

record 'b publish_command =
  pc_body :: "'b option"
  pc_extra_bodies :: "'b option list"
  pc_queue :: string
  pc_in_transaction :: bool
  pc_headers :: headers
  pc_correlation_id :: "string option"
  pc_activate_in :: "rat option"
  pc_activate_at :: "time option"
  pc_timer_id :: "string option"
  pc_timer_conflict :: timer_conflict
  pc_is_reply :: bool

fun in_transaction :: "session_arg \<Rightarrow> bool" where
  "in_transaction (Session t) = t"
| "in_transaction OtherHandle = False"

definition publish_command_of :: "'b option \<Rightarrow> 'b option list \<Rightarrow> headers \<Rightarrow> string option \<Rightarrow> publish_args \<Rightarrow>
    publish_error + 'b publish_command" where
  "publish_command_of body bodies hdrs cid a =
     (case validate_publish_args a of
        Some e \<Rightarrow> Inl e
      | None \<Rightarrow>
          if bodies \<noteq> [] \<and> (pa_timer_id a \<noteq> None \<or> cid \<noteq> None) then Inl BatchWithRowArgs
          else Inr \<lparr>pc_body = body, pc_extra_bodies = bodies, pc_queue = queue_text (pa_queue a),
                    pc_in_transaction = in_transaction (pa_session a), pc_headers = hdrs,
                    pc_correlation_id = cid, pc_activate_in = pa_activate_in a,
                    pc_activate_at = map_option instant (pa_activate_at a), pc_timer_id = pa_timer_id a,
                    pc_timer_conflict = (if pa_timer_conflict a = ''extend'' then Extend else Ignore),
                    pc_is_reply = False\<rparr>)"

text \<open>The \<open>batch_bodies\<close> property and its setter.\<close>

definition batch_bodies :: "'b publish_command \<Rightarrow> 'b option list" where
  "batch_bodies cmd = pc_body cmd # pc_extra_bodies cmd"

definition set_batch_bodies :: "'b option list \<Rightarrow> 'b publish_command \<Rightarrow> 'b publish_command" where
  "set_batch_bodies bodies cmd =
     (case (if bodies = [] then [None] else bodies) of
        b # rest \<Rightarrow> cmd\<lparr>pc_body := b, pc_extra_bodies := rest\<rparr>
      | [] \<Rightarrow> cmd)"

text \<open>\<open>OutboxResponse\<close>: validated when it is built, and again as a command.\<close>

record 'b outbox_response =
  or_body :: "'b option"
  or_headers :: headers
  or_correlation_id :: "string option"
  or_args :: publish_args

definition outbox_response_of :: "'b option \<Rightarrow> headers \<Rightarrow> string option \<Rightarrow> publish_args \<Rightarrow>
    publish_error + 'b outbox_response" where
  "outbox_response_of body hdrs cid a =
     (case validate_publish_args a of
        Some e \<Rightarrow> Inl e
      | None \<Rightarrow>
          Inr \<lparr>or_body = body, or_headers = hdrs,
               or_correlation_id = (if cid = None \<and> hdrs \<noteq> [] then dict_get hdrs correlation_id_header else cid),
               or_args = a\<rparr>)"

definition as_publish_command :: "'b outbox_response \<Rightarrow> publish_error + 'b publish_command" where
  "as_publish_command r = publish_command_of (or_body r) [] (or_headers r) (or_correlation_id r) (or_args r)"

section \<open>The response of a handler\<close>

text \<open>
  What a handler returned, after \<open>ensure_response\<close>: an outbox response, or a plain one, of which only
  the headers and the correlation id matter here.
\<close>

datatype 'b handler_result = PlainResult headers "string option" | OutboxResult "'b outbox_response"

definition outbox_config_error :: "string \<Rightarrow> exn" where
  "outbox_config_error msg = (py_exn ''_OutboxConfigError'' msg)\<lparr>exn_kind := OutboxConfigError\<rparr>"

definition publish_exn :: "publish_error \<Rightarrow> exn" where
  "publish_exn e = py_exn (error_class e) ''''"

text \<open>
  The part of \<open>process_message\<close> between the handler and the publishers: the correlation id of the
  inbound message fills a missing one, inbound headers are propagated where configured, and an outbox
  response on a handler with \<open>foreign\<close> publishers is refused.
\<close>

definition fill_correlation_id :: "stream_message \<Rightarrow> string option \<Rightarrow> string option" where
  "fill_correlation_id inbound cid = (if truthy cid then cid else Some (sm_correlation_id inbound))"

definition complete_result :: "bool \<Rightarrow> stream_message \<Rightarrow> 'b handler_result \<Rightarrow> 'b handler_result" where
  "complete_result propagate inbound res =
     (case res of
        PlainResult hdrs cid \<Rightarrow>
          PlainResult (propagate_inbound_headers propagate False (sm_headers inbound) hdrs)
            (fill_correlation_id inbound cid)
      | OutboxResult r \<Rightarrow>
          OutboxResult (r\<lparr>or_correlation_id := fill_correlation_id inbound (or_correlation_id r),
            or_headers := propagate_inbound_headers propagate True (sm_headers inbound) (or_headers r)\<rparr>))"

definition reject_foreign_publisher :: "nat \<Rightarrow> 'b handler_result \<Rightarrow> exn option" where
  "reject_foreign_publisher foreign res =
     (case res of
        PlainResult hdrs cid \<Rightarrow> None
      | OutboxResult r \<Rightarrow>
          if foreign = 0 then None else Some (outbox_config_error ''Handler returned OutboxResponse and is also decorated by a foreign-broker publisher''))"

text \<open>\<open>OutboxFakePublisher._publish\<close>: the command that reaches the producer, if any.\<close>

definition response_publisher :: "'b publish_command \<Rightarrow> exn + 'b publish_command" where
  "response_publisher cmd =
     (if \<not> pc_in_transaction cmd
      then Inl (outbox_config_error ''OutboxResponse is published after the handler returns'')
      else Inr (cmd\<lparr>pc_is_reply := True\<rparr>))"

definition process_result :: "bool \<Rightarrow> stream_message \<Rightarrow> nat \<Rightarrow> 'b handler_result \<Rightarrow>
    exn + 'b publish_command option" where
  "process_result propagate inbound foreign res =
     (let res' = complete_result propagate inbound res
      in case reject_foreign_publisher foreign res' of
           Some e \<Rightarrow> Inl e
         | None \<Rightarrow>
             (case res' of
                PlainResult hdrs cid \<Rightarrow> Inr None
              | OutboxResult r \<Rightarrow>
                  (case as_publish_command r of
                     Inl e \<Rightarrow> Inl (publish_exn e)
                   | Inr cmd \<Rightarrow>
                       (case response_publisher cmd of Inl e \<Rightarrow> Inl e | Inr c \<Rightarrow> Inr (Some c)))))"

section \<open>The producer\<close>

text \<open>The insert operations of a client, and of the inserter an engine-less broker publishes through.\<close>

record 's publish_ops =
  po_insert :: "insert_args \<Rightarrow> 's \<Rightarrow> 's \<times> (exn + nat option)"
  po_insert_batch :: "string \<Rightarrow> (bytes \<times> headers option) list \<Rightarrow> rat option \<Rightarrow> time option \<Rightarrow> 's \<Rightarrow>
    's \<times> (exn + unit)"

text \<open>\<open>_client\<close>: the broker's client if the producer has a broker that is connected.\<close>

definition producer_client :: "'c option option \<Rightarrow> 'c \<Rightarrow> 'c" where
  "producer_client broker_client engineless_inserter =
     (case broker_client of Some (Some c) \<Rightarrow> c | _ \<Rightarrow> engineless_inserter)"

text \<open>The encoder with its serializer, the ids it generates one after the other, the duration measured.\<close>

record 'b producer_env =
  pe_encoder :: "'b option \<Rightarrow> exn + (bytes \<times> string option)"
  pe_fresh_id :: "nat \<Rightarrow> string"
  pe_duration :: rat

record 's producer_state =
  ps_store :: 's
  ps_events :: "metric_event list"

definition encode_body :: "'b producer_env \<Rightarrow> nat \<Rightarrow> 'b option \<Rightarrow> headers \<Rightarrow> string option \<Rightarrow>
    exn + (bytes \<times> headers)" where
  "encode_body env k body hdrs cid =
     (case pe_encoder env body of
        Inl e \<Rightarrow> Inl e
      | Inr enc \<Rightarrow>
          (case encode_payload enc (pe_fresh_id env k) (Some hdrs) cid of
             Inl e \<Rightarrow> Inl (py_exn ''ValueError'' ''conflicting headers'')
           | Inr r \<Rightarrow> Inr r))"

definition published_event :: "'b producer_env \<Rightarrow> string \<Rightarrow> nat \<Rightarrow> nat \<Rightarrow> exn option \<Rightarrow> metric_event" where
  "published_event env q n nbytes exc = (''published'',
     [(''queue'', TStr q), (''status'', TStr (if exc = None then ''success'' else ''error'')),
      (''count'', TInt (int n)), (''size_bytes'', TInt (int nbytes)),
      (''duration_seconds'', TFloat (pe_duration env))] @
     (case exc of None \<Rightarrow> [] | Some e \<Rightarrow> [(''exception_type'', TStr (exn_name e))]))"

definition emit_published :: "metric_event \<Rightarrow> 's producer_state \<Rightarrow> 's producer_state" where
  "emit_published ev st = st\<lparr>ps_events := ps_events st @ [ev]\<rparr>"

text \<open>The \<open>except Exception\<close> clause: report and re-raise; a cancellation passes without a report.\<close>

definition publish_failed :: "'b producer_env \<Rightarrow> string \<Rightarrow> nat \<Rightarrow> exn \<Rightarrow> 's producer_state \<Rightarrow>
    's producer_state \<times> (exn + 'a)" where
  "publish_failed env q nbytes e st =
     (if is_exception e then (emit_published (published_event env q 0 nbytes (Some e)) st, Inl e) else (st, Inl e))"

text \<open>The keyword arguments of the client's \<open>insert\<close>.\<close>

definition insert_args_of :: "'b publish_command \<Rightarrow> bytes \<Rightarrow> headers \<Rightarrow> insert_args" where
  "insert_args_of cmd body hdrs = \<lparr>ia_queue = pc_queue cmd, ia_payload = body, ia_headers = Some hdrs,
     ia_activate_in = pc_activate_in cmd, ia_activate_at = pc_activate_at cmd,
     ia_timer_id = pc_timer_id cmd, ia_timer_conflict = pc_timer_conflict cmd\<rparr>"

definition producer_publish :: "'s publish_ops \<Rightarrow> 'b producer_env \<Rightarrow> 'b publish_command \<Rightarrow> 's producer_state \<Rightarrow>
    's producer_state \<times> (exn + nat option)" where
  "producer_publish ops env cmd st =
     (case encode_body env 0 (pc_body cmd) (pc_headers cmd) (pc_correlation_id cmd) of
        Inl e \<Rightarrow> publish_failed env (pc_queue cmd) 0 e st
      | Inr (body, hdrs) \<Rightarrow>
          let (s', res) = po_insert ops (insert_args_of cmd body hdrs) (ps_store st);
              st' = st\<lparr>ps_store := s'\<rparr>
          in case res of
               Inl e \<Rightarrow> publish_failed env (pc_queue cmd) (length body) e st'
             | Inr r \<Rightarrow> (emit_published (published_event env (pc_queue cmd) (if r = None then 0 else 1)
                          (length body) None) st', Inr r))"

text \<open>The encoding loop of \<open>publish_batch\<close>: the rows so far and their nbytes size, or the error.\<close>

fun encode_bodies :: "'b producer_env \<Rightarrow> nat \<Rightarrow> headers \<Rightarrow> 'b option list \<Rightarrow> nat \<times> (exn + (bytes \<times> headers) list)" where
  "encode_bodies env k hdrs [] = (0, Inr [])"
| "encode_bodies env k hdrs (b # bs) =
     (case encode_body env k b hdrs None of
        Inl e \<Rightarrow> (0, Inl e)
      | Inr row \<Rightarrow>
          (case encode_bodies env (k + 1) hdrs bs of
             (nbytes, Inl e) \<Rightarrow> (length (fst row) + nbytes, Inl e)
           | (nbytes, Inr rows) \<Rightarrow> (length (fst row) + nbytes, Inr (row # rows))))"

definition producer_publish_batch :: "'s publish_ops \<Rightarrow> 'b producer_env \<Rightarrow> 'b publish_command \<Rightarrow>
    's producer_state \<Rightarrow> 's producer_state \<times> (exn + unit)" where
  "producer_publish_batch ops env cmd st =
     (case encode_bodies env 0 (pc_headers cmd) (batch_bodies cmd) of
        (nbytes, Inl e) \<Rightarrow> publish_failed env (pc_queue cmd) nbytes e st
      | (nbytes, Inr rows) \<Rightarrow>
          let (s', res) = po_insert_batch ops (pc_queue cmd) (map (\<lambda>(b, h). (b, Some h)) rows)
                (pc_activate_in cmd) (pc_activate_at cmd) (ps_store st);
              st' = st\<lparr>ps_store := s'\<rparr>
          in case res of
               Inl e \<Rightarrow> publish_failed env (pc_queue cmd) nbytes e st'
             | Inr u \<Rightarrow> (emit_published (published_event env (pc_queue cmd) (length rows) nbytes None) st', Inr ()))"

section \<open>Entry points\<close>

text \<open>\<open>OutboxBroker.publish\<close>; an argument error raises before the producer is reached.\<close>

definition broker_publish :: "'s publish_ops \<Rightarrow> 'b producer_env \<Rightarrow> 'b option \<Rightarrow> headers \<Rightarrow> string option \<Rightarrow>
    publish_args \<Rightarrow> 's producer_state \<Rightarrow> 's producer_state \<times> (exn + nat option)" where
  "broker_publish ops env body hdrs cid a st =
     (case publish_command_of body [] hdrs cid a of
        Inl e \<Rightarrow> (st, Inl (publish_exn e))
      | Inr cmd \<Rightarrow> producer_publish ops env cmd st)"

text \<open>\<open>OutboxBroker.publish_batch\<close> takes no timer and no correlation id.\<close>

definition batch_args :: "queue_arg \<Rightarrow> session_arg \<Rightarrow> rat option \<Rightarrow> datetime option \<Rightarrow> publish_args" where
  "batch_args q session activate_in activate_at = \<lparr>pa_queue = q, pa_session = session,
     pa_activate_in = activate_in, pa_activate_at = activate_at, pa_timer_id = None,
     pa_timer_conflict = ''ignore''\<rparr>"

definition broker_publish_batch :: "'s publish_ops \<Rightarrow> 'b producer_env \<Rightarrow> 'b option list \<Rightarrow> headers \<Rightarrow>
    queue_arg \<Rightarrow> session_arg \<Rightarrow> rat option \<Rightarrow> datetime option \<Rightarrow> 's producer_state \<Rightarrow>
    's producer_state \<times> (exn + unit)" where
  "broker_publish_batch ops env bodies hdrs q session activate_in activate_at st =
     (let a = batch_args q session activate_in activate_at
      in if session = OtherHandle then (st, Inl (publish_exn NotASession))
         else case bodies of
           [] \<Rightarrow> (case validate_publish_args a of
                    Some e \<Rightarrow> (st, Inl (publish_exn e))
                  | None \<Rightarrow> (st, Inr ()))
         | first # rest \<Rightarrow>
             (case publish_command_of first rest hdrs None a of
                Inl e \<Rightarrow> (st, Inl (publish_exn e))
              | Inr cmd \<Rightarrow> producer_publish_batch ops env cmd st))"

text \<open>\<open>OutboxPublisher.publish\<close>: the publisher's queue and its static headers under the caller's.\<close>

definition publisher_publish :: "'s publish_ops \<Rightarrow> 'b producer_env \<Rightarrow> string \<Rightarrow> headers \<Rightarrow> 'b option \<Rightarrow> headers \<Rightarrow>
    string option \<Rightarrow> publish_args \<Rightarrow> 's producer_state \<Rightarrow> 's producer_state \<times> (exn + nat option)" where
  "publisher_publish ops env q static_headers body hdrs cid a st =
     broker_publish ops env body (dict_merge static_headers hdrs) cid (a\<lparr>pa_queue := QueueText q\<rparr>) st"

end
