(* ===== verification/Publish_Contract.thy ===== *)
theory Publish_Contract
  imports Publish
begin

text \<open>
  What the producer relies on of a client: the contract of its two insert operations, as a locale, with
  the producer's facts proved once inside it. Both clients keep it: the Postgres client on its tables
  and id sequence, and the in-memory client.
\<close>

section \<open>The effect of an insert\<close>

text \<open>A new row for the arguments, under an id not in use.\<close>

definition fresh_row :: "time \<Rightarrow> insert_args \<Rightarrow> nat \<Rightarrow> outbox_row list \<Rightarrow> outbox_row \<Rightarrow> bool" where
  "fresh_row now a i rs r \<longleftrightarrow> row_id r = i \<and> i \<notin> row_id ` set rs \<and> queue r = ia_queue a \<and>
     payload r = ia_payload a \<and> headers r = ia_headers a \<and> timer_id r = ia_timer_id a \<and>
     next_attempt_at r = server_next_attempt now (ia_activate_in a) (ia_activate_at a) \<and>
     acquired_token r = None \<and> attempts_count r = 0 \<and> deliveries_count r = 0"

definition holds_timer :: "insert_args \<Rightarrow> outbox_row \<Rightarrow> bool" where
  "holds_timer a r \<longleftrightarrow> queue r = ia_queue a \<and> ia_timer_id a \<noteq> None \<and> timer_id r = ia_timer_id a"

text \<open>The row that holds the timer is rewritten in place and keeps its id.\<close>

definition extends_timer :: "time \<Rightarrow> insert_args \<Rightarrow> nat \<Rightarrow> outbox_row list \<Rightarrow> outbox_row list \<Rightarrow> bool" where
  "extends_timer now a i rs rs' \<longleftrightarrow> ia_timer_conflict a = Extend \<and>
     (\<exists>r \<in> set rs. holds_timer a r \<and> acquired_token r = None \<and> row_id r = i \<and>
        rs' = map (\<lambda>x. if holds_timer a x then extend_row (ia_payload a) (ia_headers a)
          (server_next_attempt now (ia_activate_in a) (ia_activate_at a)) x else x) rs)"

definition insert_effect :: "time \<Rightarrow> insert_args \<Rightarrow> outbox_row list \<Rightarrow> outbox_row list \<Rightarrow> exn + nat option \<Rightarrow> bool" where
  "insert_effect now a rs rs' res \<longleftrightarrow>
     (case res of
        Inl e \<Rightarrow> rs' = rs \<and> is_exception e \<and> too_long (ia_queue a) (ia_timer_id a)
      | Inr None \<Rightarrow> rs' = rs \<and> (\<exists>r \<in> set rs. holds_timer a r \<and>
          (ia_timer_conflict a = Ignore \<or> acquired_token r \<noteq> None))
      | Inr (Some i) \<Rightarrow> (\<exists>r. fresh_row now a i rs r \<and> rs' = rs @ [r] \<and> \<not> list_ex (holds_timer a) rs) \<or>
          extends_timer now a i rs rs')"

text \<open>One row per body, in order, each unleased and under an id not in use.\<close>

definition batch_next :: "time \<Rightarrow> time \<Rightarrow> rat option \<Rightarrow> time option \<Rightarrow> time" where
  "batch_next client_now now activate_in activate_at =
     (case resolve_next_attempt_client_side activate_in activate_at client_now of Some t \<Rightarrow> t | None \<Rightarrow> now)"

definition batch_effect :: "string \<Rightarrow> time \<Rightarrow> (bytes \<times> headers option) list \<Rightarrow> outbox_row list \<Rightarrow> outbox_row list \<Rightarrow> bool" where
  "batch_effect q t bodies rs rs' \<longleftrightarrow>
     (\<exists>new. rs' = rs @ new \<and> map (\<lambda>r. (payload r, headers r)) new = bodies \<and>
        (\<forall>r \<in> set new. queue r = q \<and> next_attempt_at r = t \<and> timer_id r = None \<and> acquired_token r = None \<and> deliveries_count r = 0 \<and>
           row_id r \<notin> row_id ` set rs))"

locale publish_store =
  fixes ops :: "'s publish_ops"
    and rows :: "'s \<Rightarrow> outbox_row list"
    and inv :: "'s \<Rightarrow> bool"
    and client_clock clock :: time
  assumes insert_law: "inv s \<Longrightarrow> po_insert ops a s = (s', res) \<Longrightarrow> inv s' \<and> insert_effect clock a (rows s) (rows s') res"
    and insert_batch_law: "inv s \<Longrightarrow> bodies \<noteq> [] \<Longrightarrow> po_insert_batch ops q bodies ai aa s = (s', rb) \<Longrightarrow>
      inv s' \<and> (case rb of
        Inl e \<Rightarrow> rows s' = rows s \<and> is_exception e \<and> too_long q None
      | Inr u \<Rightarrow> batch_effect q (batch_next client_clock clock ai aa) bodies (rows s) (rows s'))"
begin

text \<open>A command whose arguments were validated never fails in the client.\<close>

lemma valid_insert_succeeds:
  "inv s \<Longrightarrow> \<not> too_long (ia_queue a) (ia_timer_id a) \<Longrightarrow> po_insert ops a s = (s', res) \<Longrightarrow> \<exists>r. res = Inr r"
  using insert_law [of s a s' res] by (auto simp: insert_effect_def split: sum.splits)

text \<open>One publish: the insert's effect and exactly one event, which reports it.\<close>

lemma producer_publish_encoded:
  assumes "inv (ps_store st)" and "encode_body env 0 (pc_body cmd) (pc_headers cmd) (pc_correlation_id cmd) = Inr (b, h)"
    and "producer_publish ops env cmd st = (st', res)"
  shows "inv (ps_store st') \<and> insert_effect clock (insert_args_of cmd b h) (rows (ps_store st)) (rows (ps_store st')) res \<and>
    ps_events st' = ps_events st @ [case res of
      Inl e \<Rightarrow> published_event env (pc_queue cmd) 0 (length b) (Some e)
    | Inr r \<Rightarrow> published_event env (pc_queue cmd) (if r = None then 0 else 1) (length b) None]"
proof -
  obtain s' r where i: "po_insert ops (insert_args_of cmd b h) (ps_store st) = (s', r)" by fastforce
  then have e: "inv s' \<and> insert_effect clock (insert_args_of cmd b h) (rows (ps_store st)) (rows s') r"
    using insert_law [OF assms(1)] by blast
  show ?thesis
  proof (cases r)
    case (Inl x)
    then have "is_exception x" using e by (simp add: insert_effect_def)
    then show ?thesis using assms(2,3) i e Inl
      by (auto simp: producer_publish_def publish_failed_def emit_published_def)
  next
    case (Inr x)
    then show ?thesis using assms(2,3) i e
      by (auto simp: producer_publish_def emit_published_def)
  qed
qed

lemma producer_publish_batch_encoded:
  assumes "inv (ps_store st)" and "encode_bodies env 0 (pc_headers cmd) (batch_bodies cmd) = (n, Inr enc)"
    and "enc \<noteq> []" and "producer_publish_batch ops env cmd st = (st', res)"
  shows "inv (ps_store st') \<and> (case res of
      Inl e \<Rightarrow> rows (ps_store st') = rows (ps_store st) \<and> too_long (pc_queue cmd) None \<and>
        ps_events st' = ps_events st @ [published_event env (pc_queue cmd) 0 n (Some e)]
    | Inr u \<Rightarrow> batch_effect (pc_queue cmd) (batch_next client_clock clock (pc_activate_in cmd) (pc_activate_at cmd))
          (map (\<lambda>(b, h). (b, Some h)) enc) (rows (ps_store st)) (rows (ps_store st')) \<and>
        ps_events st' = ps_events st @ [published_event env (pc_queue cmd) (length enc) n None])"
proof -
  let ?bodies = "map (\<lambda>(b, h). (b, Some h)) enc"
  obtain s' r where i: "po_insert_batch ops (pc_queue cmd) ?bodies (pc_activate_in cmd) (pc_activate_at cmd)
      (ps_store st) = (s', r)" by fastforce
  have "?bodies \<noteq> []" using assms(3) by simp
  from insert_batch_law [OF assms(1) this i] show ?thesis using assms(2,4) i
    by (cases r) (auto simp: producer_publish_batch_def publish_failed_def emit_published_def)
qed

end

section \<open>The Postgres client\<close>

text \<open>The tables with the sequence behind the id column. A statement takes its ids from the sequence.\<close>

record pg_store =
  pg_seq :: nat
  pg_db :: outbox_db

definition pg_inv :: "pg_store \<Rightarrow> bool" where
  "pg_inv s \<longleftrightarrow> wf_rows (db_rows (pg_db s)) \<and> (\<forall>r \<in> set (db_rows (pg_db s)). row_id r < pg_seq s)"

definition pg_rows :: "pg_store \<Rightarrow> outbox_row list" where
  "pg_rows s = db_rows (pg_db s)"

definition pg_insert :: "time \<Rightarrow> insert_args \<Rightarrow> pg_store \<Rightarrow> pg_store \<times> (exn + nat option)" where
  "pg_insert now a s =
     (let (db, res) = insert_stmt (pg_seq s) now a (pg_db s) in (\<lparr>pg_seq = pg_seq s + 1, pg_db = db\<rparr>, res))"

definition pg_insert_batch :: "time \<Rightarrow> time \<Rightarrow> string \<Rightarrow> (bytes \<times> headers option) list \<Rightarrow> rat option \<Rightarrow>
    time option \<Rightarrow> pg_store \<Rightarrow> pg_store \<times> (exn + unit)" where
  "pg_insert_batch client_now now q bodies activate_in activate_at s =
     (let (db, res) = insert_batch_stmt [pg_seq s ..< pg_seq s + length bodies] client_now now q bodies
            activate_in activate_at (pg_db s)
      in (\<lparr>pg_seq = pg_seq s + length bodies, pg_db = db\<rparr>, res))"

definition pg_publish_ops :: "time \<Rightarrow> time \<Rightarrow> pg_store publish_ops" where
  "pg_publish_ops client_now now =
     \<lparr>po_insert = pg_insert now, po_insert_batch = pg_insert_batch client_now now\<rparr>"

lemma is_exception_data_error [simp]: "is_exception data_error"
  by (simp add: data_error_def)

lemma conflicting_holds_timer: "ia_timer_id a = Some tid \<Longrightarrow> conflicting (ia_queue a) tid r \<longleftrightarrow> holds_timer a r"
  by (auto simp: conflicting_def holds_timer_def)

lemma insert_stmt_effect:
  assumes "new_id \<notin> row_id ` set (db_rows db)"
  shows "insert_effect now a (db_rows db) (db_rows (fst (insert_stmt new_id now a db))) (snd (insert_stmt new_id now a db))"
proof (cases "too_long (ia_queue a) (ia_timer_id a)")
  case True
  then show ?thesis by (simp add: insert_stmt_def insert_effect_def Let_def)
next
  case False
  show ?thesis
  proof (cases "ia_timer_id a")
    case None
    with False assms show ?thesis
      by (simp add: insert_stmt_def insert_effect_def Let_def fresh_row_def new_row_def holds_timer_def list_ex_iff)
  next
    case (Some tid)
    note same = conflicting_holds_timer [OF Some]
    show ?thesis
    proof (cases "find (conflicting (ia_queue a) tid) (db_rows db)")
      case None
      then have "\<not> list_ex (holds_timer a) (db_rows db)" by (simp add: find_None_iff list_ex_iff same)
      with None False Some assms show ?thesis
        by (simp add: insert_stmt_def insert_effect_def Let_def fresh_row_def new_row_def)
    next
      case (Some r)
      then have "r \<in> set (db_rows db)" "holds_timer a r"
        by (auto simp: find_Some_iff same)
      with False \<open>ia_timer_id a = Some tid\<close> Some show ?thesis
        by (cases "ia_timer_conflict a")
          (auto simp: insert_stmt_def insert_effect_def Let_def same extends_timer_def)
    qed
  qed
qed

lemma insert_stmt_ids:
  assumes "\<forall>r \<in> set (db_rows db). row_id r < n"
  shows "\<forall>r \<in> set (db_rows (fst (insert_stmt n now a db))). row_id r < Suc n"
proof -
  let ?t = "server_next_attempt now (ia_activate_in a) (ia_activate_at a)"
  have "db_rows (fst (insert_stmt n now a db)) \<in>
      {db_rows db, db_rows db @ [new_row n now (ia_queue a) (ia_payload a) (ia_headers a) ?t (ia_timer_id a)],
       map (\<lambda>x. if conflicting (ia_queue a) (the (ia_timer_id a)) x
         then extend_row (ia_payload a) (ia_headers a) ?t x else x) (db_rows db)}"
  proof (cases "ia_timer_id a")
    case None
    then show ?thesis by (simp add: insert_stmt_def Let_def)
  next
    case (Some tid)
    then show ?thesis
      by (cases "find (conflicting (ia_queue a) tid) (db_rows db)") (simp_all add: insert_stmt_def Let_def)
  qed
  then show ?thesis using assms by (auto simp: less_SucI)
qed

lemma insert_batch_stmt_effect:
  fixes bodies :: "(bytes \<times> headers option) list"
  assumes "\<forall>r \<in> set (db_rows db). row_id r < n"
    and res_def: "res = insert_batch_stmt [n ..< n + length bodies] cnow now q bodies ai aa db"
  shows "case snd res of
      Inl e \<Rightarrow> fst res = db \<and> is_exception e \<and> too_long q None
    | Inr u \<Rightarrow> batch_effect q (batch_next cnow now ai aa) bodies (db_rows db) (db_rows (fst res))"
proof (cases "too_long q None")
  case True
  then show ?thesis by (simp add: res_def insert_batch_stmt_def Let_def)
next
  case False
  define t where "t = batch_next cnow now ai aa"
  define ids where "ids = [n ..< n + length bodies]"
  define new where "new = map (\<lambda>(i, body, hdrs). new_row i now q body hdrs t None) (zip ids bodies)"
  have "length ids = length bodies" by (simp add: ids_def)
  then have "map (\<lambda>r. (payload r, headers r)) new = bodies"
    unfolding new_def by (induction ids bodies rule: list_induct2) (auto simp: new_row_def)
  moreover have "\<forall>r \<in> set new. n \<le> row_id r \<and> queue r = q \<and> next_attempt_at r = t \<and> timer_id r = None \<and> acquired_token r = None \<and>
      deliveries_count r = 0"
    by (auto simp: new_def new_row_def ids_def dest!: set_zip_leftD)
  moreover have "db_rows (fst res) = db_rows db @ new" "snd res = Inr ()"
    using False by (simp_all add: res_def insert_batch_stmt_def Let_def new_def t_def ids_def batch_next_def)
  ultimately show ?thesis using assms(1) by (fastforce simp: batch_effect_def t_def)
qed

lemma insert_batch_stmt_ids:
  assumes "\<forall>r \<in> set (db_rows db). row_id r < n"
  shows "\<forall>r \<in> set (db_rows (fst (insert_batch_stmt [n ..< n + length bodies] cnow now q bodies ai aa db))).
    row_id r < n + length bodies"
  using assms by (auto simp: insert_batch_stmt_def Let_def new_row_def dest!: set_zip_leftD intro: trans_less_add1)

interpretation pg: publish_store "pg_publish_ops client_now now" pg_rows pg_inv client_now now
  for client_now now
proof (unfold_locales, goal_cases)
  case (1 s a s' res)
  define r where "r = insert_stmt (pg_seq s) now a (pg_db s)"
  have ids: "\<forall>x \<in> set (db_rows (pg_db s)). row_id x < pg_seq s" and wf: "wf_rows (db_rows (pg_db s))"
    using 1(1) by (simp_all add: pg_inv_def)
  then have fresh: "pg_seq s \<notin> row_id ` set (db_rows (pg_db s))" by auto
  have "s' = \<lparr>pg_seq = pg_seq s + 1, pg_db = fst r\<rparr>" "res = snd r"
    using 1(2) by (simp_all add: pg_publish_ops_def pg_insert_def r_def case_prod_unfold Let_def)
  then show ?case
    using insert_stmt_effect [OF fresh, of now a] insert_stmt_ids [OF ids, of now a] wf_insert_stmt [OF wf fresh, of now a]
    by (simp add: pg_inv_def pg_rows_def r_def)
next
  case (2 s bodies q ai aa s' rb)
  define r where "r = insert_batch_stmt [pg_seq s ..< pg_seq s + length bodies] client_now now q bodies ai aa (pg_db s)"
  have ids: "\<forall>x \<in> set (db_rows (pg_db s)). row_id x < pg_seq s" and wf: "wf_rows (db_rows (pg_db s))"
    using 2(1) by (simp_all add: pg_inv_def)
  then have "set [pg_seq s ..< pg_seq s + length bodies] \<inter> row_id ` set (db_rows (pg_db s)) = {}" by fastforce
  moreover have "s' = \<lparr>pg_seq = pg_seq s + length bodies, pg_db = fst r\<rparr>" "rb = snd r"
    using 2(3) by (simp_all add: pg_publish_ops_def pg_insert_batch_def r_def case_prod_unfold Let_def)
  ultimately show ?case
    using insert_batch_stmt_effect [OF ids r_def] insert_batch_stmt_ids [OF ids, of bodies client_now now q ai aa]
      wf_insert_batch [OF wf, of "[pg_seq s ..< pg_seq s + length bodies]" client_now now q bodies ai aa]
    by (auto simp: pg_inv_def pg_rows_def r_def split: sum.splits)
qed

section \<open>The in-memory client\<close>

definition fake_publish_ops :: "time \<Rightarrow> fake_state publish_ops" where
  "fake_publish_ops now = \<lparr>po_insert = fake_insert now, po_insert_batch = fake_insert_batch now\<rparr>"

lemma set_update_first: "set (update_first P (\<lambda>_. y) xs) \<subseteq> insert y (set xs)"
  by (induction xs) auto

lemma fake_rows_db_of: "fk_rows s = db_rows (db_of s)"
  by (simp add: db_of_def)

text \<open>The id counter moves exactly with an append.\<close>

lemma fake_insert_next_id:
  "fk_next_id (fst (fake_insert now a s)) = fk_next_id s + 1 \<or>
   fk_next_id (fst (fake_insert now a s)) = fk_next_id s \<and>
     row_id ` set (fk_rows (fst (fake_insert now a s))) \<subseteq> row_id ` set (fk_rows s)"
proof (cases "validate_like_postgres (ia_queue a) (ia_timer_id a)")
  case (Some e)
  then show ?thesis by (simp add: fake_insert_def)
next
  case v: None
  let ?same = "\<lambda>r. ia_timer_id a \<noteq> None \<and> queue r = ia_queue a \<and> timer_id r = ia_timer_id a"
  show ?thesis
  proof (cases "find ?same (fk_rows s) \<noteq> None \<and> ia_timer_conflict a = Extend")
    case True
    then obtain r where r: "find ?same (fk_rows s) = Some r" by blast
    have "row_id (fst (fake_extend b h t r)) = row_id r" for b h t by (simp add: fake_extend_def)
    moreover have "r \<in> set (fk_rows s)" using r by (auto simp: find_Some_iff)
    ultimately show ?thesis using v True r set_update_first [of ?same _ "fk_rows s"]
      by (simp add: fake_insert_def Let_def case_prod_unfold) (force simp: image_iff)
  next
    case False
    with v show ?thesis
      by (cases "find ?same (fk_rows s)"; cases "ia_timer_conflict a")
        (simp_all add: fake_insert_def fake_store_def fake_append_def Let_def)
  qed
qed


lemma same_outcome_Inr [simp]: "same_outcome r (Inr x) \<longleftrightarrow> r = Inr x"
  by (cases r) auto

lemma same_outcome_Inl: "same_outcome r (Inl e) \<longleftrightarrow> (\<exists>e'. r = Inl e')"
  by (cases r) auto

lemma fake_insert_error: "snd (fake_insert now a s) = Inl e \<Longrightarrow>
  is_exception e \<and> too_long (ia_queue a) (ia_timer_id a) \<and> fst (fake_insert now a s) = s"
  by (auto simp: fake_insert_def validate_like_postgres_def Let_def too_long_def
      split: option.splits timer_conflict.splits prod.splits if_splits)

lemma fake_insert_inv:
  assumes "fake_inv s"
  shows "fake_inv (fst (fake_insert now a s))"
proof -
  have ids: "\<forall>r \<in> set (db_rows (db_of s)). row_id r < fk_next_id s" and wf: "wf_rows (db_rows (db_of s))"
    using assms by (simp_all add: fake_inv_def db_of_def)
  then have fresh: "fk_next_id s \<notin> row_id ` set (db_rows (db_of s))" by auto
  note eq = fake_insert_eq [OF assms, of now a, THEN conjunct1]
  have "wf_rows (fk_rows (fst (fake_insert now a s)))"
    using wf_insert_stmt [OF wf fresh, of now a] by (simp add: fake_rows_db_of eq)
  moreover have "\<forall>r \<in> set (fk_rows (fst (fake_insert now a s))). row_id r < fk_next_id (fst (fake_insert now a s))"
    using fake_insert_next_id [of now a s]
  proof
    assume "fk_next_id (fst (fake_insert now a s)) = fk_next_id s + 1"
    then show ?thesis using insert_stmt_ids [OF ids, of now a] by (simp add: fake_rows_db_of eq)
  next
    assume "fk_next_id (fst (fake_insert now a s)) = fk_next_id s \<and>
      row_id ` set (fk_rows (fst (fake_insert now a s))) \<subseteq> row_id ` set (fk_rows s)"
    then show ?thesis using ids by (fastforce simp: db_of_def)
  qed
  ultimately show ?thesis by (simp add: fake_inv_def)
qed

interpretation fakep: publish_store "fake_publish_ops now" fk_rows fake_inv now now
  for now
proof (unfold_locales, goal_cases)
  case (1 s a s' res)
  then have s': "s' = fst (fake_insert now a s)" and res: "res = snd (fake_insert now a s)"
    by (simp_all add: fake_publish_ops_def)
  have "fk_next_id s \<notin> row_id ` set (db_rows (db_of s))" using 1(1) by (auto simp: fake_inv_def db_of_def)
  note eff = insert_stmt_effect [OF this, of now a]
  note eq = fake_insert_eq [OF 1(1), of now a]
  have "insert_effect now a (fk_rows s) (fk_rows s') res"
  proof (cases res)
    case (Inl e)
    then show ?thesis using fake_insert_error [of now a s e] s' res by (simp add: insert_effect_def)
  next
    case (Inr x)
    then have "snd (insert_stmt (fk_next_id s) now a (db_of s)) = Inr x"
      using eq res by (cases "snd (insert_stmt (fk_next_id s) now a (db_of s))") auto
    then show ?thesis using eff eq s' Inr by (simp add: fake_rows_db_of)
  qed
  then show ?case using fake_insert_inv [OF 1(1)] s' by simp
next
  case (2 s bodies q ai aa s' rb)
  define r where "r = insert_batch_stmt [fk_next_id s ..< fk_next_id s + length bodies] now now q bodies ai aa (db_of s)"
  have s': "s' = fst (fake_insert_batch now q bodies ai aa s)" and rb: "rb = snd (fake_insert_batch now q bodies ai aa s)"
    using 2(3) by (simp_all add: fake_publish_ops_def)
  have ids: "\<forall>x \<in> set (db_rows (db_of s)). row_id x < fk_next_id s" and wf: "wf_rows (db_rows (db_of s))"
    using 2(1) by (simp_all add: fake_inv_def db_of_def)
  then have "set [fk_next_id s ..< fk_next_id s + length bodies] \<inter> row_id ` set (db_rows (db_of s)) = {}" by fastforce
  with wf_insert_batch [OF wf, of "[fk_next_id s ..< fk_next_id s + length bodies]" now now q bodies ai aa]
  have wf': "wf_rows (db_rows (fst r))" by (simp add: r_def)
  have eq: "db_of s' = fst r" and out: "same_outcome rb (snd r)"
    using fake_insert_batch_eq [OF 2(2), of now q ai aa s] by (simp_all add: s' rb r_def)
  note eff = insert_batch_stmt_effect [OF ids r_def]
  show ?case
  proof (cases "validate_like_postgres q None")
    case (Some e)
    then have "s' = s" "rb = Inl e" "is_exception e" "too_long q None"
      using 2(2) validate_like_postgres_None [of q None]
      by (auto simp: s' rb fake_insert_batch_def validate_like_postgres_def split: if_splits)
    then show ?thesis using 2(1) by simp
  next
    case None
    then have v: "rb = Inr ()" and "\<not> too_long q None"
      using validate_like_postgres_None [of q None] by (simp_all add: rb fake_insert_batch_def)
    then have "snd r = Inr ()" by (simp add: r_def insert_batch_stmt_def Let_def)
    moreover have "fk_next_id s' = fk_next_id s + length bodies"
      using None by (simp add: s' fake_insert_batch_def fake_append_all_eq)
    ultimately show ?thesis
      using eff eq v wf' insert_batch_stmt_ids [OF ids, of bodies now now q ai aa]
      by (simp add: fake_inv_def fake_rows_db_of r_def)
  qed
qed

end
