(* ===== verification/Publish_Properties.thy ===== *)
theory Publish_Properties
  imports Publish_Contract
begin

text \<open>
  The properties of the publish side: which arguments are accepted, what a publish and a batch leave in
  the table and report, and what becomes of a handler's outbox response.
\<close>

section \<open>Arguments\<close>

lemmas validate_defs = validate_publish_args_def first_error.simps Let_def length_error_def

lemma validate_publish_args_None:
  "validate_publish_args a = None \<longleftrightarrow>
     (\<exists>q t. pa_queue a = QueueText q \<and> pa_session a = Session t \<and> q \<noteq> [] \<and> \<not> too_long q (pa_timer_id a)) \<and>
     (pa_activate_in a = None \<or> pa_activate_at a = None) \<and>
     (case pa_activate_at a of Some (Naive t) \<Rightarrow> False | _ \<Rightarrow> True) \<and>
     (pa_timer_conflict a = ''ignore'' \<or> pa_timer_conflict a = ''extend'' \<and> pa_timer_id a \<noteq> None)"
proof -
  have t: "(case map_option length (pa_timer_id a) of None \<Rightarrow> False | Some k \<Rightarrow> max_queue_length < k) \<longleftrightarrow>
      (case pa_timer_id a of Some t \<Rightarrow> length t > max_queue_length | None \<Rightarrow> False)"
    by (cases "pa_timer_id a") simp_all
  show ?thesis
    by (cases "pa_queue a"; cases "pa_session a")
      (auto simp: validate_defs t too_long_def timer_conflict_names_def split: option.splits datetime.splits)
qed

text \<open>
  An argument error is found before anything is written and never later: the validator
  accepts exactly a session or connection, a non-empty queue name and a timer id that fit their
  columns, at most one activation, an aware \<open>activate_at\<close>, and a known conflict policy that is
  \<open>ignore\<close> without a timer. A type error is raised for the session and the queue only, and a
  response that could be built can always be turned into its command.
\<close>

theorem publish_args_accepted:
  "(validate_publish_args a = None \<longleftrightarrow>
     (\<exists>q t. pa_queue a = QueueText q \<and> pa_session a = Session t \<and> 1 \<le> length q \<and> length q \<le> 255 \<and>
        (case pa_timer_id a of None \<Rightarrow> True | Some i \<Rightarrow> length i \<le> 255)) \<and>
     (pa_activate_in a = None \<or> pa_activate_at a = None) \<and>
     (case pa_activate_at a of Some (Naive t) \<Rightarrow> False | _ \<Rightarrow> True) \<and>
     (pa_timer_conflict a = ''ignore'' \<or> pa_timer_conflict a = ''extend'' \<and> pa_timer_id a \<noteq> None)) \<and>
   (case validate_publish_args a of
      None \<Rightarrow> True
    | Some e \<Rightarrow> error_class e = ''TypeError'' \<longleftrightarrow> e = NotASession \<or> (\<exists>t. e = QueueNotText t)) \<and>
   (case outbox_response_of body hdrs cid a of
      Inl e \<Rightarrow> validate_publish_args a = Some e
    | Inr r \<Rightarrow> \<exists>cmd. as_publish_command r = Inr cmd \<and> batch_bodies cmd = [body])"
proof -
  have "error_class e = ''TypeError'' \<longleftrightarrow> e = NotASession \<or> (\<exists>t. e = QueueNotText t)" for e
    by (cases e) simp_all
  moreover have "(\<exists>q t. pa_queue a = QueueText q \<and> pa_session a = Session t \<and> q \<noteq> [] \<and> \<not> too_long q (pa_timer_id a)) \<longleftrightarrow>
      (\<exists>q t. pa_queue a = QueueText q \<and> pa_session a = Session t \<and> 1 \<le> length q \<and> length q \<le> 255 \<and>
        (case pa_timer_id a of None \<Rightarrow> True | Some i \<Rightarrow> length i \<le> 255))"
    by (auto simp: too_long_def max_queue_length_def Suc_le_eq split: option.split)
  moreover have "case outbox_response_of body hdrs cid a of
      Inl e \<Rightarrow> validate_publish_args a = Some e
    | Inr r \<Rightarrow> \<exists>cmd. as_publish_command r = Inr cmd \<and> batch_bodies cmd = [body]"
    by (cases "validate_publish_args a")
      (simp_all add: outbox_response_of_def as_publish_command_def publish_command_of_def batch_bodies_def)
  ultimately show ?thesis
    by (simp add: validate_publish_args_None [of a] split: option.split)
qed

section \<open>Single publishes\<close>

lemma publish_command_of_valid:
  assumes "validate_publish_args a = None"
  shows "\<exists>cmd. publish_command_of body [] hdrs cid a = Inr cmd \<and> pc_queue cmd = queue_text (pa_queue a) \<and>
    pc_body cmd = body \<and> pc_headers cmd = hdrs \<and> pc_correlation_id cmd = cid \<and> pc_timer_id cmd = pa_timer_id a \<and>
    pc_activate_in cmd = pa_activate_in a \<and> pc_activate_at cmd = map_option instant (pa_activate_at a) \<and>
    pc_timer_conflict cmd = (if pa_timer_conflict a = ''extend'' then Extend else Ignore) \<and>
    \<not> too_long (pc_queue cmd) (pc_timer_id cmd)"
  using assms validate_publish_args_None [of a] by (auto simp: publish_command_of_def)

text \<open>The effect of a valid publish on the tables, through the contract.\<close>

lemma broker_publish_effect:
  assumes "pg_inv (ps_store st)" and "validate_publish_args a = None"
    and "encode_body env 0 body hdrs cid = Inr (b, h)"
    and "broker_publish (pg_publish_ops client_now now) env body hdrs cid a st = (st', res)"
  shows "\<exists>ia. ia_queue ia = queue_text (pa_queue a) \<and> ia_payload ia = b \<and> ia_headers ia = Some h \<and>
    ia_timer_id ia = pa_timer_id a \<and> ia_timer_conflict ia = (if pa_timer_conflict a = ''extend'' then Extend else Ignore) \<and>
    server_next_attempt now (ia_activate_in ia) (ia_activate_at ia) =
      server_next_attempt now (pa_activate_in a) (map_option instant (pa_activate_at a)) \<and>
    pg_inv (ps_store st') \<and> insert_effect now ia (pg_rows (ps_store st)) (pg_rows (ps_store st')) res \<and>
    ps_events st' = ps_events st @ [case res of
      Inl e \<Rightarrow> published_event env (queue_text (pa_queue a)) 0 (length b) (Some e)
    | Inr r \<Rightarrow> published_event env (queue_text (pa_queue a)) (if r = None then 0 else 1) (length b) None] \<and>
    (\<exists>r. res = Inr r)"
proof -
  obtain cmd where c: "publish_command_of body [] hdrs cid a = Inr cmd" "pc_queue cmd = queue_text (pa_queue a)"
      "pc_body cmd = body" "pc_headers cmd = hdrs" "pc_correlation_id cmd = cid" "pc_timer_id cmd = pa_timer_id a"
      "pc_activate_in cmd = pa_activate_in a" "pc_activate_at cmd = map_option instant (pa_activate_at a)"
      "pc_timer_conflict cmd = (if pa_timer_conflict a = ''extend'' then Extend else Ignore)"
      "\<not> too_long (pc_queue cmd) (pc_timer_id cmd)"
    using publish_command_of_valid [OF assms(2)] by blast
  have p: "producer_publish (pg_publish_ops client_now now) env cmd st = (st', res)"
    using assms(4) c(1) by (simp add: broker_publish_def)
  have "encode_body env 0 (pc_body cmd) (pc_headers cmd) (pc_correlation_id cmd) = Inr (b, h)"
    using assms(3) c by simp
  note e = pg.producer_publish_encoded [OF assms(1) this p, unfolded c(2)]
  have "\<exists>r. res = Inr r" using e c(10) by (cases res) (simp_all add: insert_effect_def insert_args_of_def)
  with e c show ?thesis
    by (intro exI [of _ "insert_args_of cmd b h"]) (simp add: insert_args_of_def)
qed


section \<open>Samples\<close>

definition sample_env :: "bytes producer_env" where
  "sample_env = \<lparr>pe_encoder = (\<lambda>b. case b of None \<Rightarrow> Inr ([], None) | Some x \<Rightarrow> Inr (x, None)),
     pe_fresh_id = (\<lambda>k. ''id'' @ replicate k (CHR ''x'')), pe_duration = 1\<rparr>"

definition sample_args :: publish_args where
  "sample_args = \<lparr>pa_queue = QueueText ''q'', pa_session = Session True, pa_activate_in = None,
     pa_activate_at = None, pa_timer_id = None, pa_timer_conflict = ''ignore''\<rparr>"

definition sample_producer :: "pg_store producer_state" where
  "sample_producer = \<lparr>ps_store = \<lparr>pg_seq = 9, pg_db = sample_db\<rparr>, ps_events = []\<rparr>"

lemma sample_producer_inv: "pg_inv (ps_store sample_producer)"
  using sample_db_wf by (simp add: sample_producer_def pg_inv_def) (simp add: sample_db_def)

lemma sample_args_valid: "validate_publish_args sample_args = None"
  by (simp add: validate_publish_args_None sample_args_def too_long_def max_queue_length_def) blast

lemma sample_encode: "encode_body sample_env 0 (Some [1]) [] None = Inr ([1], [(''correlation_id'', ''id'')])"
  by (simp add: encode_body_def sample_env_def encode_payload_def truthy_def str_or_def Let_def dict_set_def
      correlation_id_header_def)


section \<open>Batches\<close>

lemma encode_bodies_Inr:
  "encode_bodies env k hdrs bs = (n, Inr enc) \<Longrightarrow>
     length enc = length bs \<and> n = sum_list (map (\<lambda>(b, h). length b) enc) \<and>
     (\<forall>j < length bs. encode_body env (k + j) (bs ! j) hdrs None = Inr (enc ! j))"
proof (induction env k hdrs bs arbitrary: n enc rule: encode_bodies.induct)
  case (2 env k hdrs b bs)
  then obtain row n' rest where r: "encode_body env k b hdrs None = Inr row"
      "encode_bodies env (k + 1) hdrs bs = (n', Inr rest)" "enc = row # rest" "n = length (fst row) + n'"
    by (auto split: sum.splits prod.splits)
  with 2(1) [OF r(1) r(2)] show ?case
    by (auto simp: nth_Cons less_Suc_eq_0_disj case_prod_unfold split: nat.split)
qed simp

lemma encode_bodies_Inl:
  "encode_bodies env k hdrs bs = (n, Inl e) \<Longrightarrow> \<exists>j < length bs. encode_body env (k + j) (bs ! j) hdrs None = Inl e"
proof (induction env k hdrs bs arbitrary: n rule: encode_bodies.induct)
  case (2 env k hdrs b bs)
  show ?case
  proof (cases "encode_body env k b hdrs None")
    case (Inl e')
    with 2(2) show ?thesis by (intro exI [of _ 0]) simp
  next
    case (Inr row)
    with 2(2) obtain n' where "encode_bodies env (k + 1) hdrs bs = (n', Inl e)" by (auto split: sum.splits prod.splits)
    from 2(1) [OF Inr this] obtain j where "j < length bs" "encode_body env (k + 1 + j) (bs ! j) hdrs None = Inl e" by blast
    then show ?thesis by (intro exI [of _ "Suc j"]) simp
  qed
qed simp

text \<open>
  Property C17. A batch lands whole or not at all: on Postgres either every body, \<open>None\<close> included, has
  one new unleased row of the queue, in the order of the call, with what the body encodes to under an
  id of its own, and one event counts them; or nothing is written and the first failure is reported:
  an argument error without an event, a body that does not encode with one that counts zero. Only an
  empty batch has neither rows nor event.
\<close>

theorem publish_batch_all_or_nothing:
  assumes "pg_inv (ps_store st)"
    and "broker_publish_batch (pg_publish_ops client_now now) env bodies hdrs (QueueText q) session ai aa st = (st', res)"
  defines "rs \<equiv> pg_rows (ps_store st)" and "rs' \<equiv> pg_rows (ps_store st')"
  shows "case res of
      Inr u \<Rightarrow> \<exists>new. rs' = rs @ new \<and> length new = length bodies \<and>
        (\<forall>j < length bodies. \<exists>b h. encode_body env j (bodies ! j) hdrs None = Inr (b, h) \<and>
           payload (new ! j) = b \<and> headers (new ! j) = Some h) \<and>
        (\<forall>r \<in> set new. queue r = q \<and> acquired_token r = None \<and> row_id r \<notin> row_id ` set rs) \<and>
        ps_events st' = ps_events st @ (if bodies = [] then []
          else [published_event env q (length bodies) (sum_list (map (\<lambda>r. length (payload r)) new)) None])
    | Inl e \<Rightarrow> rs' = rs \<and>
        ((\<exists>pe. (session = OtherHandle \<and> pe = NotASession \<or>
             validate_publish_args (batch_args (QueueText q) session ai aa) = Some pe) \<and> e = publish_exn pe \<and>
            ps_events st' = ps_events st) \<or>
         (\<exists>j < length bodies. encode_body env j (bodies ! j) hdrs None = Inl e \<and>
            (is_exception e \<longrightarrow> (\<exists>n. ps_events st' = ps_events st @ [published_event env q 0 n (Some e)]))))"
proof (cases "validate_publish_args (batch_args (QueueText q) session ai aa)")
  case (Some pe)
  then show ?thesis using assms
    by (cases "session = OtherHandle"; cases bodies)
      (auto simp: broker_publish_batch_def publish_command_of_def rs_def rs'_def)
next
  case valid: None
  then have s: "session \<noteq> OtherHandle"
    by (auto simp: validate_publish_args_None batch_args_def)
  show ?thesis
  proof (cases bodies)
    case Nil
    then have "st' = st" "res = Inr ()" using assms(2) valid s by (auto simp: broker_publish_batch_def)
    with Nil show ?thesis by (auto simp: rs_def rs'_def)
  next
    case (Cons first rest)
    then obtain cmd where cmd: "publish_command_of first rest hdrs None (batch_args (QueueText q) session ai aa) = Inr cmd"
        "pc_queue cmd = q" "pc_headers cmd = hdrs" "batch_bodies cmd = bodies" "\<not> too_long q None"
      using valid validate_publish_args_None [of "batch_args (QueueText q) session ai aa"]
      by (auto simp: publish_command_of_def batch_args_def batch_bodies_def)
    then have p: "producer_publish_batch (pg_publish_ops client_now now) env cmd st = (st', res)"
      using assms(2) Cons s by (simp add: broker_publish_batch_def)
    obtain n r where r: "encode_bodies env 0 hdrs bodies = (n, r)" by fastforce
    show ?thesis
    proof (cases r)
      case (Inl e)
      then obtain j where j: "j < length bodies" "encode_body env j (bodies ! j) hdrs None = Inl e"
        using encode_bodies_Inl [of env 0 hdrs bodies n e] r by auto
      have "res = Inl e" "rs' = rs" "is_exception e \<longrightarrow> ps_events st' = ps_events st @ [published_event env q 0 n (Some e)]"
        using p r Inl cmd(2-4)
        by (auto simp: producer_publish_batch_def publish_failed_def emit_published_def rs_def rs'_def split: if_splits)
      with j show ?thesis by auto
    next
      case (Inr enc)
      note enc = encode_bodies_Inr [OF r [unfolded Inr]]
      then have "enc \<noteq> []" using Cons by auto
      from pg.producer_publish_batch_encoded [OF assms(1) _ this p, of n] r Inr cmd(2-5)
      obtain u where u: "res = Inr u" "ps_events st' = ps_events st @ [published_event env q (length enc) n None]"
        and "batch_effect q (batch_next client_now now (pc_activate_in cmd) (pc_activate_at cmd))
          (map (\<lambda>(b, h). (b, Some h)) enc) rs rs'"
        by (cases res) (auto simp: rs_def rs'_def)
      then obtain new where new: "rs' = rs @ new" "map (\<lambda>r. (payload r, headers r)) new = map (\<lambda>(b, h). (b, Some h)) enc"
        "\<forall>r \<in> set new. queue r = q \<and> acquired_token r = None \<and> row_id r \<notin> row_id ` set rs"
        unfolding batch_effect_def by blast
      have len: "length new = length bodies" using arg_cong [OF new(2), of length] enc by simp
      have nth: "payload (new ! j) = fst (enc ! j) \<and> headers (new ! j) = Some (snd (enc ! j))" if "j < length bodies" for j
        using arg_cong [OF new(2), of "\<lambda>l. l ! j"] that len enc by (simp add: case_prod_unfold)
      have "map (\<lambda>r. length (payload r)) new = map (\<lambda>(b, h). length b) enc"
        using arg_cong [OF new(2), of "map (length \<circ> fst)"] by (simp add: case_prod_unfold comp_def)
      then have "n = sum_list (map (\<lambda>r. length (payload r)) new)" using enc by simp
      then show ?thesis using u new(1,3) len nth enc Cons
        by (auto intro!: exI [of _ new])
    qed
  qed
qed

theorem publish_batch_all_or_nothing_witness:
  "\<exists>new. pg_rows (ps_store (fst (broker_publish_batch (pg_publish_ops 0 100) sample_env [Some [1], None] []
     (QueueText ''q'') (Session True) None None sample_producer))) = pg_rows (ps_store sample_producer) @ new \<and>
   length new = 2"
proof -
  let ?r = "broker_publish_batch (pg_publish_ops 0 100) sample_env [Some [1], None] [] (QueueText ''q'') (Session True)
    None None sample_producer"
  have "snd ?r = Inr ()"
    by (simp add: broker_publish_batch_def publish_command_of_def validate_defs batch_args_def max_queue_length_def
        timer_conflict_names_def producer_publish_batch_def batch_bodies_def encode_body_def sample_env_def
        encode_payload_def truthy_def str_or_def dict_set_def correlation_id_header_def content_type_header_def
        pg_publish_ops_def pg_insert_batch_def insert_batch_stmt_def too_long_def sample_producer_def)
  then show ?thesis
    using publish_batch_all_or_nothing [OF sample_producer_inv prod.collapse [symmetric, of ?r]] by auto
qed

section \<open>Responses\<close>

text \<open>What a response becomes, decided by the foreign publishers and the session alone.\<close>

lemma process_result_outbox:
  assumes "outbox_response_of body hdrs cid a = Inr r"
  shows "process_result propagate inbound foreign (OutboxResult r) =
    (if foreign \<noteq> 0 \<or> pa_session a \<noteq> Session True
     then Inl (the (if foreign \<noteq> 0 then reject_foreign_publisher foreign (OutboxResult r)
                    else Some (outbox_config_error ''OutboxResponse is published after the handler returns'')))
     else Inr (Some \<lparr>pc_body = body, pc_extra_bodies = [], pc_queue = queue_text (pa_queue a), pc_in_transaction = True,
       pc_headers = propagate_inbound_headers propagate True (sm_headers inbound) hdrs,
       pc_correlation_id = fill_correlation_id inbound
         (if cid = None \<and> hdrs \<noteq> [] then dict_get hdrs correlation_id_header else cid),
       pc_activate_in = pa_activate_in a, pc_activate_at = map_option instant (pa_activate_at a),
       pc_timer_id = pa_timer_id a,
       pc_timer_conflict = (if pa_timer_conflict a = ''extend'' then Extend else Ignore), pc_is_reply = True\<rparr>))"
proof -
  have v: "validate_publish_args a = None"
    and r: "r = \<lparr>or_body = body, or_headers = hdrs, or_correlation_id =
      (if cid = None \<and> hdrs \<noteq> [] then dict_get hdrs correlation_id_header else cid), or_args = a\<rparr>"
    using assms by (auto simp: outbox_response_of_def split: option.splits)
  have "in_transaction (pa_session a) \<longleftrightarrow> pa_session a = Session True"
    by (cases "pa_session a") simp_all
  then show ?thesis
    by (simp add: process_result_def complete_result_def reject_foreign_publisher_def as_publish_command_def
        publish_command_of_def response_publisher_def v r Let_def)
qed


definition sample_inbound :: stream_message where
  "sample_inbound = \<lparr>sm_body = [1], sm_headers = [(''k'', ''v'')], sm_content_type = None, sm_message_id = ''1'',
     sm_correlation_id = ''in'', sm_reply_to = ''q''\<rparr>"


end
