(* ===== verification/Lifecycle.thy ===== *)
theory Lifecycle
  imports Publish_Properties
begin

text \<open>
  The life of a row across the components: published through the broker, claimed by the fetch
  statement, read by the parser, dispatched, and removed by the terminal write of its acknowledgement.
\<close>

text \<open>A fetch with room for every row claims each available one.\<close>

lemma fetch_with_room:
  assumes "wf_rows (db_rows db)" and "length (db_rows db) \<le> n" and "r \<in> set (db_rows db)"
    and "available now ttl qs r"
    and "client_fetch order {} True now clk tok qs n ttl db = (db', Inr ms)"
  shows "row_to_message clk (claim_row now tok r) \<in> set ms \<and> claim_row now tok r \<in> set (db_rows db') \<and>
    wf_rows (db_rows db') \<and> map row_id (db_rows db') = map row_id (db_rows db) \<and> db_dlq db' = db_dlq db"
proof -
  let ?sel = "claimed_now now ttl n {} qs (db_rows db)"
  have q: "qs \<noteq> []" using assms(4) by (auto simp: available_def)
  have "length (filter (\<lambda>r. available now ttl qs r \<and> row_id r \<notin> {}) (db_rows db)) \<le> n"
    using assms(2) length_filter_le le_trans by blast
  then have "r \<in> set ?sel" using assms(3,4) by (simp add: claimed_now_def top_by_all)
  moreover have "db' = db\<lparr>db_rows := claim_rows now tok (row_id ` set ?sel) (db_rows db)\<rparr>"
    "ms = map (row_to_message clk \<circ> claim_row now tok) ?sel"
    using fetch_claims_eq [OF assms(1) q, of order "{}" now clk tok n ttl] assms(5) by (simp_all add: Let_def)
  moreover have "claim_row now tok r \<in> set (claim_rows now tok ids (db_rows db))" if "row_id r \<in> ids" for ids
    using assms(3) that by (force simp: claim_rows_def)
  ultimately show ?thesis using wf_claim_rows [OF assms(1)] by simp
qed

text \<open>A dispatch whose handler returns and acknowledges, with a write that succeeds.\<close>

definition acknowledged :: "dispatch_config \<Rightarrow> consume_env \<Rightarrow> time \<Rightarrow> inner_message \<Rightarrow> inner_message" where
  "acknowledged cfg cenv t m = (msg_ack_raw t (m\<lparr>retry_strategy := dc_retry_strategy cfg\<rparr>))
     \<lparr>handler_duration_seconds := Some (ce_duration cenv)\<rparr>"

lemma acknowledged_simps [simp]:
  "outcome (acknowledged cfg cenv t m) = Some Ack"
  "row_id (acknowledged cfg cenv t m) = row_id m"
  "acquired_token (acknowledged cfg cenv t m) = acquired_token m"
  "attempts_count (acknowledged cfg cenv t m) = attempts_count m + 1"
  by (simp_all add: acknowledged_def msg_ack_raw_def record_attempt_def)

lemma acked_dispatch:
  assumes "outcome m = None" and "acquired_token m = Some tok" and "passes_gate cfg m"
    and "ce_calls cenv = [CallAck t]" and "ce_exit cenv = None" and "we_fault env = NoFault"
    and "op_delete ops (dc_writer_conn cfg) (we_now env) (row_id m) tok None (ds_store st) = (s', Inr True)"
  shows "dispatch_one ops cfg env cenv True running' False m st =
    (st\<lparr>ds_store := s', ds_events := ds_events st @ [dispatched_event cfg (m\<lparr>retry_strategy := dc_retry_strategy cfg\<rparr>),
       (''acked'', outcome_tags cfg (acknowledged cfg cenv t m))]\<rparr>, Inr False)"
proof -
  let ?m = "m\<lparr>retry_strategy := dc_retry_strategy cfg\<rparr>" and ?a = "acknowledged cfg cenv t m"
  have gate: "allow_delivery (dc_max_deliveries cfg) ?m = (True, ?m)"
    using assms(3) by (auto simp: allow_delivery_def passes_gate_def split: option.splits)
  have consumed: "consume True cenv ?m = (msg_ack_raw t ?m, None)"
    using assms(1,4,5) by (simp add: consume_def msg_ack_def update_state_if_not_set_def)
  have dlq: "dlq_payload_of cfg ?a = Inr None"
    by (simp add: dlq_payload_of_def terminal_failure_reason_def)
  have "flush_terminal ops cfg env ?a st1 = (st1\<lparr>ds_store := s'\<rparr>, Inr True)" if "ds_store st1 = ds_store st" for st1
    using assms(2,6,7) that by (simp add: flush_terminal_def dlq)
  then have "write_outcome ops cfg env running' n False ?a st1 =
      (emit [(''acked'', outcome_tags cfg ?a)] (st1\<lparr>ds_store := s'\<rparr>), Inr False)" if "ds_store st1 = ds_store st" for st1 n
    using that by (simp add: write_outcome_def state_set_def assert_state_set_def write_settled_def
        flush_or_buffer_def safe_flush_def)
  then show ?thesis
    by (simp add: dispatch_one_def gate run_pipeline_def finish_pipeline_def consumed acknowledged_def [symmetric] emit_def)
qed

text \<open>On Postgres, with the lease held.\<close>

lemma real_delete_held:
  assumes "wf_rows (db_rows db)" and "r \<in> set (db_rows db)" and "acquired_token r = Some tok"
  shows "op_delete (real_ops order locked d) True now (row_id r) tok None db =
    (db\<lparr>db_rows := filter (\<lambda>x. row_id x \<noteq> row_id r) (db_rows db)\<rparr>, Inr True)"
proof -
  have "holds_lease (row_id r) tok x \<longleftrightarrow> row_id x = row_id r" if "x \<in> set (db_rows db)" for x
    using that assms inj_row_id [OF assms(1) that assms(2)] by (auto simp: holds_lease_def)
  then have "filter (\<lambda>x. \<not> holds_lease (row_id r) tok x) (db_rows db) = filter (\<lambda>x. row_id x \<noteq> row_id r) (db_rows db)"
    and "filter (holds_lease (row_id r) tok) (db_rows db) \<noteq> []"
    using assms(2) by (auto intro!: filter_cong simp: filter_empty_conv)
  then show ?thesis by (simp add: real_ops_def client_delete_with_lease_def delete_stmt_def)
qed

section \<open>Properties\<close>

text \<open>
  Property C13. Published is delivered, and acknowledged is gone. After a publish on Postgres with valid
  arguments and no timer, any fetch of the queue at or after the due time with room for the table's rows
  returns the new row, leased to that fetch, on its first delivery, and the parser reads from it the
  bytes and the content type of the encoder and the correlation id. If its handler then returns and
  acknowledges while the lease is held, the dispatch removes exactly that row, archives nothing and
  emits \<open>dispatched\<close> and \<open>acked\<close>.
\<close>

theorem published_delivered_acked:
  assumes "pg_inv (ps_store st)" and "validate_publish_args a = None" and "pa_timer_id a = None"
    and "pe_encoder env body = Inr (b, ct)" and "encode_payload (b, ct) (pe_fresh_id env 0) (Some hdrs) cid = Inr (b', h)"
    and "broker_publish (pg_publish_ops client_now now) env body hdrs cid a st = (st', res)"
    and "queue_text (pa_queue a) \<in> set qs"
    and "server_next_attempt now (pa_activate_in a) (map_option instant (pa_activate_at a)) \<le> later"
    and "length (pg_rows (ps_store st')) \<le> n"
    and "client_fetch order {} True later clk tok qs n ttl (pg_db (ps_store st')) = (db, Inr ms)"
  shows "\<exists>m \<in> set ms. res = Inr (Some (row_id m)) \<and> acquired_token m = Some tok \<and> deliveries_count m = 1 \<and>
    sm_body (parse_message m) = b \<and> (truthy ct \<longrightarrow> sm_content_type (parse_message m) = ct) \<and>
    sm_correlation_id (parse_message m) =
      str_or cid (str_or (dict_get hdrs correlation_id_header) (pe_fresh_id env 0)) \<and>
    (passes_gate cfg m \<and> dc_writer_conn cfg \<and> ce_calls cenv = [CallAck t] \<and> ce_exit cenv = None \<and> we_fault wenv = NoFault \<longrightarrow>
       (let (ds, r) = dispatch_one (real_ops order locked d) cfg wenv cenv True running' False m
              \<lparr>ds_store = db, ds_events = [], ds_buffer = [], ds_done = 0\<rparr>
        in r = Inr False \<and> db_rows (ds_store ds) = filter (\<lambda>r. row_id r \<noteq> row_id m) (db_rows db) \<and>
           db_dlq (ds_store ds) = db_dlq db \<and> map fst (ds_events ds) = [''dispatched'', ''acked'']))"
proof -
  have "encode_body env 0 body hdrs cid = Inr (b', h)"
    using assms(4,5) by (simp add: encode_body_def)
  from broker_publish_effect [OF assms(1,2) this assms(6)] assms(3)
  obtain i r where res: "res = Inr (Some (row_id r))" and r: "pg_rows (ps_store st') = pg_rows (ps_store st) @ [r]"
      "queue r = queue_text (pa_queue a)" "payload r = b'" "headers r = Some h" "acquired_token r = None"
      "next_attempt_at r = server_next_attempt now (pa_activate_in a) (map_option instant (pa_activate_at a))"
      "deliveries_count r = 0" and inv: "pg_inv (ps_store st')"
    by (auto simp: insert_effect_def fresh_row_def extends_timer_def holds_timer_def split: option.splits)
  let ?db = "pg_db (ps_store st')"
  have wf: "wf_rows (db_rows ?db)" and mem: "r \<in> set (db_rows ?db)" and len: "length (db_rows ?db) \<le> n"
    using inv r(1) assms(9) by (simp_all add: pg_inv_def pg_rows_def)
  have "available later ttl qs r" using assms(7,8) r by (simp add: available_def unleased_def)
  note f = fetch_with_room [OF wf len mem this assms(10)]
  let ?c = "claim_row later tok r"
  let ?m = "row_to_message clk ?c"
  have fields: "payload ?c = b'" "headers ?c = Some h" using r by (simp_all add: claim_row_def)
  have parsed: "sm_body (parse_message ?m) = b" "truthy ct \<longrightarrow> sm_content_type (parse_message ?m) = ct"
      "sm_correlation_id (parse_message ?m) = str_or cid (str_or (dict_get hdrs correlation_id_header) (pe_fresh_id env 0))"
    using encode_payload_Inr [OF assms(5)] fields by (simp_all add: parse_message_def dict_get_default_def)
  have acked: "let (ds, x) = dispatch_one (real_ops order locked d) cfg wenv cenv True running' False ?m
        \<lparr>ds_store = db, ds_events = [], ds_buffer = [], ds_done = 0\<rparr>
      in x = Inr False \<and> db_rows (ds_store ds) = filter (\<lambda>x. row_id x \<noteq> row_id ?m) (db_rows db) \<and>
         db_dlq (ds_store ds) = db_dlq db \<and> map fst (ds_events ds) = [''dispatched'', ''acked'']"
    if "passes_gate cfg ?m" "dc_writer_conn cfg" "ce_calls cenv = [CallAck t]" "ce_exit cenv = None" "we_fault wenv = NoFault"
  proof -
    have "op_delete (real_ops order locked d) (dc_writer_conn cfg) (we_now wenv) (row_id ?m) tok None
        (ds_store \<lparr>ds_store = db, ds_events = [], ds_buffer = [], ds_done = 0\<rparr>) =
        (db\<lparr>db_rows := filter (\<lambda>x. row_id x \<noteq> row_id ?c) (db_rows db)\<rparr>, Inr True)"
      using real_delete_held [of db ?c tok] f that(2) by simp
    from acked_dispatch [OF _ _ that(1,3,4,5) this] show ?thesis by (simp add: dispatched_event_def)
  qed
  show ?thesis
  proof (rule bexI [of _ ?m])
    show "?m \<in> set ms" using f by simp
  qed (use res r(7) parsed acked in \<open>simp add: Let_def\<close>)
qed

definition sample_dispatch_config :: dispatch_config where
  "sample_dispatch_config = \<lparr>dc_call_name = ''h'', dc_retry_strategy = None, dc_max_deliveries = Some 3,
     dc_terminal_flush_batch_size = 1, dc_dlq = True, dc_renderer = None, dc_writer_conn = True\<rparr>"

definition sample_ack :: consume_env where
  "sample_ack = \<lparr>ce_calls = [CallAck 101], ce_exit = None, ce_stop = None, ce_duration = 1, ce_now = 101\<rparr>"

theorem published_delivered_acked_witness:
  "\<exists>db ms. \<exists>m \<in> set ms. client_fetch [] {} True 100 0 8 [''q''] 10 60
      (pg_db (ps_store (fst (broker_publish (pg_publish_ops 0 100) sample_env (Some [1]) [] None sample_args
        sample_producer)))) = (db, Inr ms) \<and>
    sm_body (parse_message m) = [1] \<and> sm_correlation_id (parse_message m) = ''id'' \<and>
    map fst (ds_events (fst (dispatch_one (real_ops [] {} True) sample_dispatch_config \<lparr>we_now = 102, we_fault = NoFault\<rparr>
      sample_ack True True False m \<lparr>ds_store = db, ds_events = [], ds_buffer = [], ds_done = 0\<rparr>))) =
      [''dispatched'', ''acked'']"
proof -
  let ?r = "broker_publish (pg_publish_ops 0 100) sample_env (Some [1]) [] None sample_args sample_producer"
  let ?db = "pg_db (ps_store (fst ?r))"
  have enc: "pe_encoder sample_env (Some [1]) = Inr ([1], None)" by (simp add: sample_env_def)
  have pay: "encode_payload ([1], None) (pe_fresh_id sample_env 0) (Some []) None = Inr ([1], [(''correlation_id'', ''id'')])"
    by (simp add: sample_env_def encode_payload_def truthy_def str_or_def Let_def dict_set_def correlation_id_header_def)
  have e: "encode_body sample_env 0 (Some [1]) [] None = Inr ([1], [(''correlation_id'', ''id'')])"
    by (rule sample_encode)
  from broker_publish_effect [OF sample_producer_inv sample_args_valid e prod.collapse [symmetric, of ?r]]
  have inv: "pg_inv (ps_store (fst ?r))" and "length (pg_rows (ps_store (fst ?r))) \<le> 4"
    by (auto simp: insert_effect_def extends_timer_def sample_producer_def pg_rows_def sample_db_def
        split: option.splits)
  then have len: "length (pg_rows (ps_store (fst ?r))) \<le> 10" by simp
  obtain db ms where f: "client_fetch [] {} True 100 0 8 [''q''] 10 60 ?db = (db, Inr ms)"
    using fetch_claims_eq [of ?db "[''q'']"] inv by (auto simp: pg_inv_def Let_def)
  have "queue_text (pa_queue sample_args) \<in> set [''q'']" "pa_timer_id sample_args = None"
    "server_next_attempt 100 (pa_activate_in sample_args) (map_option instant (pa_activate_at sample_args)) \<le> 100"
    by (simp_all add: sample_args_def server_next_attempt_def)
  from published_delivered_acked [OF sample_producer_inv sample_args_valid this(2) enc pay prod.collapse [symmetric, of ?r]
      this(1,3) len f, where cfg = sample_dispatch_config and cenv = sample_ack and t = 101 and
      wenv = "\<lparr>we_now = 102, we_fault = NoFault\<rparr>" and locked = "{}" and d = True and running' = True]
  obtain m where "m \<in> set ms" "sm_body (parse_message m) = [1]" "deliveries_count m = 1"
    "sm_correlation_id (parse_message m) = str_or None (str_or None ''id'')"
    "passes_gate sample_dispatch_config m \<longrightarrow> map fst (ds_events (fst (dispatch_one (real_ops [] {} True)
      sample_dispatch_config \<lparr>we_now = 102, we_fault = NoFault\<rparr>
      sample_ack True True False m \<lparr>ds_store = db, ds_events = [], ds_buffer = [], ds_done = 0\<rparr>))) =
      [''dispatched'', ''acked'']"
    by (auto simp: sample_dispatch_config_def sample_ack_def sample_env_def Let_def case_prod_unfold)
  moreover have "passes_gate sample_dispatch_config m" using calculation(3)
    by (simp add: passes_gate_def sample_dispatch_config_def)
  ultimately show ?thesis using f by (auto simp: str_or_def truthy_def)
qed

end
