(* ===== verification/Subscriber_Config.thy ===== *)
theory Subscriber_Config
  imports Publish Subscriber_Loop "HOL-Library.List_Lexorder" "HOL-Library.Char_ord"
begin

text \<open>
  \<open>subscriber/config.py\<close>: the validation every subscriber's configuration goes through, as the error it
  raises first or the warnings it gives, and the defaults it fills in. Configured values are as dynamic
  as Python's: a count may be an \<open>int\<close>, a \<open>bool\<close> or something else, a duration may be infinite or NaN.
\<close>

datatype py_count = IntValue int | NoInt

datatype py_float = Finite rat | NonFinite

datatype strategy_arg = NoStrategy | NoRetryStrategy | Strategy retry_fn

text \<open>FastStream's policies as far as the code tells them apart; \<open>None\<close> is the \<open>EMPTY\<close> default.\<close>

datatype ack_policy = AckFirst | RejectOnError | NackOnError | OtherPolicy

record subscriber_config =
  sc_queues :: "queue_arg list"
  sc_max_workers :: py_count
  sc_retry_strategy :: strategy_arg
  sc_fetch_batch_size :: py_count
  sc_min_fetch_interval :: py_float
  sc_max_fetch_interval :: py_float
  sc_lease_ttl_seconds :: py_float
  sc_query_timeout_seconds :: "py_float option"
  sc_max_deliveries :: "py_count option"
  sc_terminal_flush_batch_size :: py_count
  sc_propagate_inbound_headers :: bool
  sc_ack_policy :: "ack_policy option"

datatype config_error = QueueType string | EmptyQueue | LongQueue nat | DuplicateQueues "string list"
  | CountType string | NotFinite string | MaxDeliveriesLow int | CountLow string int
  | DurationLow string rat | QueryTimeoutLow rat | QueryTimeoutHigh rat rat | IntervalsCrossed rat rat
  | AckFirstUnsupported

datatype config_warning = StrategyIgnored | SameAsReject | CapUnreachable | LeaseShort rat rat

section \<open>The checks\<close>

definition queue_error :: "queue_arg \<Rightarrow> config_error option" where
  "queue_error qa = (case qa of
     QueueObject t \<Rightarrow> Some (QueueType t)
   | QueueText q \<Rightarrow> first_error [(q = [], EmptyQueue), (length q > max_queue_length, LongQueue (length q))])"

fun first_queue_error :: "queue_arg list \<Rightarrow> config_error option" where
  "first_queue_error [] = None"
| "first_queue_error (qa # qas) = (case queue_error qa of Some e \<Rightarrow> Some e | None \<Rightarrow> first_queue_error qas)"

text \<open>\<open>sorted({q for q in queues if queues.count(q) > 1})\<close>.\<close>

definition duplicate_queues :: "string list \<Rightarrow> string list" where
  "duplicate_queues qs = sort (remdups (filter (\<lambda>q. count_list qs q > 1) qs))"

definition validate_queues :: "queue_arg list \<Rightarrow> config_error option" where
  "validate_queues qas =
     (case first_queue_error qas of
        Some e \<Rightarrow> Some e
      | None \<Rightarrow>
          let dups = duplicate_queues (map queue_text qas)
          in if dups \<noteq> [] then Some (DuplicateQueues dups) else None)"

fun int_of :: "py_count \<Rightarrow> int" where
  "int_of (IntValue n) = n"
| "int_of NoInt = 0"

fun rat_of :: "py_float \<Rightarrow> rat" where
  "rat_of (Finite x) = x"
| "rat_of NonFinite = 0"

definition validate_numbers :: "subscriber_config \<Rightarrow> config_error option" where
  "validate_numbers c = first_error
     [(sc_max_workers c = NoInt, CountType ''max_workers''),
      (sc_fetch_batch_size c = NoInt, CountType ''fetch_batch_size''),
      (sc_terminal_flush_batch_size c = NoInt, CountType ''terminal_flush_batch_size''),
      (sc_max_deliveries c = Some NoInt, CountType ''max_deliveries''),
      (sc_min_fetch_interval c = NonFinite, NotFinite ''min_fetch_interval''),
      (sc_max_fetch_interval c = NonFinite, NotFinite ''max_fetch_interval''),
      (sc_lease_ttl_seconds c = NonFinite, NotFinite ''lease_ttl_seconds''),
      (sc_query_timeout_seconds c = Some NonFinite, NotFinite ''query_timeout_seconds''),
      (case sc_max_deliveries c of Some n \<Rightarrow> int_of n < 1 | None \<Rightarrow> False,
       MaxDeliveriesLow (case sc_max_deliveries c of Some n \<Rightarrow> int_of n | None \<Rightarrow> 0))]"

definition validate_query_timeout :: "subscriber_config \<Rightarrow> config_error option" where
  "validate_query_timeout c =
     (case sc_query_timeout_seconds c of
        None \<Rightarrow> None
      | Some t \<Rightarrow> first_error
          [(rat_of t \<le> 0, QueryTimeoutLow (rat_of t)),
           (rat_of t > rat_of (sc_lease_ttl_seconds c), QueryTimeoutHigh (rat_of t) (rat_of (sc_lease_ttl_seconds c)))])"

definition count_checks :: "subscriber_config \<Rightarrow> config_error option" where
  "count_checks c = first_error
     [(int_of (sc_max_workers c) \<le> 0, CountLow ''max_workers'' (int_of (sc_max_workers c))),
      (int_of (sc_fetch_batch_size c) \<le> 0, CountLow ''fetch_batch_size'' (int_of (sc_fetch_batch_size c))),
      (int_of (sc_terminal_flush_batch_size c) \<le> 0,
       CountLow ''terminal_flush_batch_size'' (int_of (sc_terminal_flush_batch_size c))),
      (rat_of (sc_min_fetch_interval c) \<le> 0, DurationLow ''min_fetch_interval'' (rat_of (sc_min_fetch_interval c))),
      (rat_of (sc_max_fetch_interval c) \<le> 0, DurationLow ''max_fetch_interval'' (rat_of (sc_max_fetch_interval c))),
      (rat_of (sc_lease_ttl_seconds c) \<le> 0, DurationLow ''lease_ttl_seconds'' (rat_of (sc_lease_ttl_seconds c)))]"

definition last_checks :: "subscriber_config \<Rightarrow> config_error option" where
  "last_checks c = first_error
     [(rat_of (sc_min_fetch_interval c) > rat_of (sc_max_fetch_interval c),
       IntervalsCrossed (rat_of (sc_min_fetch_interval c)) (rat_of (sc_max_fetch_interval c))),
      (sc_ack_policy c = Some AckFirst, AckFirstUnsupported)]"

definition config_warnings :: "subscriber_config \<Rightarrow> config_warning list" where
  "config_warnings c =
     (let no_retry = (sc_retry_strategy c = NoRetryStrategy)
      in (if sc_ack_policy c = Some RejectOnError \<and> sc_retry_strategy c \<noteq> NoStrategy \<and> \<not> no_retry
          then [StrategyIgnored] else []) @
         (if sc_ack_policy c = Some NackOnError \<and> no_retry then [SameAsReject] else []) @
         (if sc_max_deliveries c \<noteq> None \<and> no_retry then [CapUnreachable] else []) @
         (if rat_of (sc_lease_ttl_seconds c) \<le> rat_of (sc_max_fetch_interval c)
          then [LeaseShort (rat_of (sc_lease_ttl_seconds c)) (rat_of (sc_max_fetch_interval c))] else []))"

text \<open>\<open>_validate\<close>: the groups of checks in their order, then the warnings.\<close>

fun first_some :: "'a option list \<Rightarrow> 'a option" where
  "first_some [] = None"
| "first_some (x # xs) = (case x of Some e \<Rightarrow> Some e | None \<Rightarrow> first_some xs)"

definition validate_config :: "subscriber_config \<Rightarrow> config_error + config_warning list" where
  "validate_config c =
     (case first_some [validate_queues (sc_queues c), validate_numbers c, count_checks c,
         validate_query_timeout c, last_checks c] of
        Some e \<Rightarrow> Inl e
      | None \<Rightarrow> Inr (config_warnings c))"

text \<open>\<open>__post_init__\<close>: \<open>dflt\<close> is the default strategy with its random source.\<close>

definition config_post_init :: "retry_fn \<Rightarrow> subscriber_config \<Rightarrow> config_error + subscriber_config \<times> config_warning list" where
  "config_post_init dflt c =
     (case validate_config c of
        Inl e \<Rightarrow> Inl e
      | Inr ws \<Rightarrow> Inr (if sc_retry_strategy c = NoStrategy then c\<lparr>sc_retry_strategy := Strategy dflt\<rparr> else c, ws))"

definition query_timeout :: "subscriber_config \<Rightarrow> rat" where
  "query_timeout c = (case sc_query_timeout_seconds c of None \<Rightarrow> rat_of (sc_lease_ttl_seconds c) | Some t \<Rightarrow> rat_of t)"

definition effective_ack_policy :: "subscriber_config \<Rightarrow> ack_policy" where
  "effective_ack_policy c = (case sc_ack_policy c of None \<Rightarrow> NackOnError | Some p \<Rightarrow> p)"

section \<open>What the subscriber reads\<close>

fun strategy_fn :: "strategy_arg \<Rightarrow> retry_fn option" where
  "strategy_fn NoStrategy = None"
| "strategy_fn NoRetryStrategy = Some no_retry_strategy"
| "strategy_fn (Strategy f) = Some f"

text \<open>The loops' view of the configuration, on a broker with a connection.\<close>

definition loop_config_of :: "string \<Rightarrow> bool \<Rightarrow> (exn \<Rightarrow> exn + py_text option) option \<Rightarrow> subscriber_config \<Rightarrow> loop_config" where
  "loop_config_of name has_dlq renderer c = \<lparr>
     lc_dispatch = \<lparr>dc_call_name = name, dc_retry_strategy = strategy_fn (sc_retry_strategy c),
       dc_max_deliveries = map_option int_of (sc_max_deliveries c),
       dc_terminal_flush_batch_size = nat (int_of (sc_terminal_flush_batch_size c)), dc_dlq = has_dlq,
       dc_renderer = renderer, dc_writer_conn = True\<rparr>,
     lc_queues = map queue_text (sc_queues c),
     lc_fetch_batch_size = nat (int_of (sc_fetch_batch_size c)),
     lc_lease_ttl_seconds = rat_of (sc_lease_ttl_seconds c)\<rparr>"

section \<open>What is accepted\<close>

lemma first_queue_error_None: "first_queue_error qas = None \<longleftrightarrow> (\<forall>qa \<in> set qas. queue_error qa = None)"
  by (induction qas) (auto split: option.split)

lemma first_some_None: "first_some xs = None \<longleftrightarrow> list_all (\<lambda>x. x = None) xs"
  by (induction xs) (auto split: option.split)

lemma duplicate_queues_Nil: "duplicate_queues qs = [] \<longleftrightarrow> distinct qs"
proof -
  have "duplicate_queues qs = [] \<longleftrightarrow> (\<forall>q \<in> set qs. count_list qs q \<le> 1)"
    by (auto simp: duplicate_queues_def filter_empty_conv not_less simp flip: set_empty)
  also have "\<dots> \<longleftrightarrow> distinct qs"
  proof (induction qs)
    case (Cons x xs)
    show ?case
    proof (cases "x \<in> set xs")
      case True
      then have "count_list xs x \<noteq> 0" by (simp add: count_list_0_iff)
      with True show ?thesis by simp
    next
      case False
      then have "\<forall>q \<in> set xs. count_list (x # xs) q = count_list xs q" by auto
      with False Cons show ?thesis by (simp add: count_list_0_iff)
    qed
  qed simp
  finally show ?thesis .
qed

lemma queue_error_None: "queue_error qa = None \<longleftrightarrow> (\<exists>q. qa = QueueText q \<and> 1 \<le> length q \<and> length q \<le> 255)"
  by (cases qa) (auto simp: queue_error_def max_queue_length_def Suc_le_eq)

lemma validate_queues_None: "validate_queues qas = None \<longleftrightarrow>
    (\<forall>qa \<in> set qas. \<exists>q. qa = QueueText q \<and> 1 \<le> length q \<and> length q \<le> 255) \<and> distinct (map queue_text qas)"
  unfolding queue_error_None [symmetric] first_queue_error_None [symmetric]
  by (simp add: validate_queues_def duplicate_queues_Nil Let_def split: option.split)

lemma count_ok: "n \<noteq> NoInt \<and> \<not> int_of n \<le> 0 \<longleftrightarrow> (\<exists>k \<ge> 1. n = IntValue k)"
  by (cases n) auto

lemma cap_ok: "x \<noteq> Some NoInt \<and> \<not> (case x of Some n \<Rightarrow> int_of n < 1 | None \<Rightarrow> False) \<longleftrightarrow>
    (\<forall>n \<in> set_option x. \<exists>k \<ge> 1. n = IntValue k)"
proof (cases x)
  case (Some n)
  then show ?thesis by (cases n) auto
qed simp

definition durations_ok :: "subscriber_config \<Rightarrow> bool" where
  "durations_ok c \<longleftrightarrow> (\<exists>lo hi ttl. sc_min_fetch_interval c = Finite lo \<and> sc_max_fetch_interval c = Finite hi \<and>
     sc_lease_ttl_seconds c = Finite ttl \<and> 0 < lo \<and> lo \<le> hi \<and> 0 < ttl \<and>
     (\<forall>x \<in> set_option (sc_query_timeout_seconds c). \<exists>t. x = Finite t \<and> 0 < t \<and> t \<le> ttl))"

lemma durations_ok_iff:
  "durations_ok c \<longleftrightarrow> sc_min_fetch_interval c \<noteq> NonFinite \<and> sc_max_fetch_interval c \<noteq> NonFinite \<and>
     sc_lease_ttl_seconds c \<noteq> NonFinite \<and> sc_query_timeout_seconds c \<noteq> Some NonFinite \<and>
     \<not> rat_of (sc_min_fetch_interval c) \<le> 0 \<and> \<not> rat_of (sc_max_fetch_interval c) \<le> 0 \<and>
     \<not> rat_of (sc_lease_ttl_seconds c) \<le> 0 \<and> validate_query_timeout c = None \<and>
     \<not> rat_of (sc_min_fetch_interval c) > rat_of (sc_max_fetch_interval c)"
proof -
  have t: "(\<forall>x \<in> set_option o'. \<exists>t. x = Finite t \<and> 0 < t \<and> t \<le> ttl) \<longleftrightarrow> o' \<noteq> Some NonFinite \<and>
      (case o' of None \<Rightarrow> True | Some t \<Rightarrow> 0 < rat_of t \<and> rat_of t \<le> ttl)" for o' ttl
  proof (cases o')
    case (Some x)
    then show ?thesis by (cases x) auto
  qed simp
  show ?thesis unfolding durations_ok_def t validate_query_timeout_def
    by (cases "sc_min_fetch_interval c"; cases "sc_max_fetch_interval c"; cases "sc_lease_ttl_seconds c")
      (auto split: option.splits)
qed

lemma validate_config_Inr:
  "validate_config c = Inr ws \<longleftrightarrow> ws = config_warnings c \<and>
     (\<forall>qa \<in> set (sc_queues c). \<exists>q. qa = QueueText q \<and> 1 \<le> length q \<and> length q \<le> 255) \<and>
     distinct (map queue_text (sc_queues c)) \<and>
     (\<forall>n \<in> {sc_max_workers c, sc_fetch_batch_size c, sc_terminal_flush_batch_size c} \<union> set_option (sc_max_deliveries c).
        \<exists>k \<ge> 1. n = IntValue k) \<and>
     durations_ok c \<and> sc_ack_policy c \<noteq> Some AckFirst"
proof -
  have "first_some [validate_queues (sc_queues c), validate_numbers c, count_checks c,
         validate_query_timeout c, last_checks c] = None \<longleftrightarrow>
     validate_queues (sc_queues c) = None \<and>
     (sc_max_workers c \<noteq> NoInt \<and> \<not> int_of (sc_max_workers c) \<le> 0) \<and>
     (sc_fetch_batch_size c \<noteq> NoInt \<and> \<not> int_of (sc_fetch_batch_size c) \<le> 0) \<and>
     (sc_terminal_flush_batch_size c \<noteq> NoInt \<and> \<not> int_of (sc_terminal_flush_batch_size c) \<le> 0) \<and>
     (sc_max_deliveries c \<noteq> Some NoInt \<and> \<not> (case sc_max_deliveries c of Some n \<Rightarrow> int_of n < 1 | None \<Rightarrow> False)) \<and>
     durations_ok c \<and> sc_ack_policy c \<noteq> Some AckFirst"
    unfolding first_some_None durations_ok_iff validate_numbers_def count_checks_def last_checks_def
    by (simp add: first_error_None)
  also have "\<dots> \<longleftrightarrow>
     (\<forall>qa \<in> set (sc_queues c). \<exists>q. qa = QueueText q \<and> 1 \<le> length q \<and> length q \<le> 255) \<and>
     distinct (map queue_text (sc_queues c)) \<and>
     (\<forall>n \<in> {sc_max_workers c, sc_fetch_batch_size c, sc_terminal_flush_batch_size c} \<union> set_option (sc_max_deliveries c).
        \<exists>k \<ge> 1. n = IntValue k) \<and>
     durations_ok c \<and> sc_ack_policy c \<noteq> Some AckFirst"
    unfolding validate_queues_None count_ok cap_ok by blast
  finally show ?thesis by (auto simp: validate_config_def split: option.splits)
qed

section \<open>Properties\<close>

text \<open>
  Property C28. The configuration guard: it passes exactly distinct, storable queue names, integer counts
  of at least one, finite positive durations with the fetch interval's bounds in order, a query timeout
  within the lease, and any policy but \<open>ACK_FIRST\<close>. Then the subscriber works: a \<open>publish\<close> to each of
  its queues passes the queue checks, an empty in-flight queue always starts a claim of at least one
  row, the query timeout is positive and at most the lease, and a nack always has a strategy to ask.
\<close>

theorem config_guard:
  "(case config_post_init dflt c of
      Inl e \<Rightarrow> True
    | Inr (c', ws) \<Rightarrow> ws = config_warnings c \<and> 0 < query_timeout c' \<and> query_timeout c' \<le> rat_of (sc_lease_ttl_seconds c') \<and>
        strategy_fn (sc_retry_strategy c') \<noteq> None \<and> effective_ack_policy c' \<noteq> AckFirst \<and>
        (\<forall>a. pa_queue a \<in> set (sc_queues c) \<longrightarrow> (case validate_publish_args a of
           None \<Rightarrow> True
         | Some e \<Rightarrow> e \<noteq> QueueEmpty \<and> (\<forall>t n. e \<noteq> QueueNotText t \<and> e \<noteq> QueueTooLong n))) \<and>
        (\<forall>(s :: 's loop_state). ls_running s \<and> \<not> ls_stopping s \<and> ls_claim s = None \<and> ls_inflight s = [] \<longrightarrow>
           (\<exists>n \<ge> 1. ls_claim (fetch_begin (loop_config_of name has_dlq renderer c') s) = Some n))) \<and>
   ((\<exists>r. config_post_init dflt c = Inr r) \<longleftrightarrow>
      (\<forall>qa \<in> set (sc_queues c). \<exists>q. qa = QueueText q \<and> 1 \<le> length q \<and> length q \<le> 255) \<and>
      distinct (map queue_text (sc_queues c)) \<and>
      (\<forall>n \<in> {sc_max_workers c, sc_fetch_batch_size c, sc_terminal_flush_batch_size c} \<union> set_option (sc_max_deliveries c).
         \<exists>k \<ge> 1. n = IntValue k) \<and>
      (\<exists>lo hi ttl. sc_min_fetch_interval c = Finite lo \<and> sc_max_fetch_interval c = Finite hi \<and>
         sc_lease_ttl_seconds c = Finite ttl \<and> 0 < lo \<and> lo \<le> hi \<and> 0 < ttl \<and>
         (\<forall>x \<in> set_option (sc_query_timeout_seconds c). \<exists>t. x = Finite t \<and> 0 < t \<and> t \<le> ttl)) \<and>
      sc_ack_policy c \<noteq> Some AckFirst)"
proof (cases "validate_config c")
  case (Inl e)
  then have p: "config_post_init dflt c = Inl e" by (simp add: config_post_init_def)
  have "validate_config c \<noteq> Inr (config_warnings c)" using Inl by simp
  then show ?thesis
    unfolding validate_config_Inr p durations_ok_def [symmetric] by (simp only: sum.case sum.distinct) blast
next
  case (Inr ws)
  note ok = Inr [unfolded validate_config_Inr]
  define c' where "c' = (if sc_retry_strategy c = NoStrategy then c\<lparr>sc_retry_strategy := Strategy dflt\<rparr> else c)"
  have p: "config_post_init dflt c = Inr (c', ws)" by (simp add: config_post_init_def Inr c'_def)
  have same: "sc_lease_ttl_seconds c' = sc_lease_ttl_seconds c" "sc_query_timeout_seconds c' = sc_query_timeout_seconds c"
      "sc_ack_policy c' = sc_ack_policy c" "sc_fetch_batch_size c' = sc_fetch_batch_size c"
    by (simp_all add: c'_def)
  have d: "durations_ok c" using ok by blast
  have timeout: "0 < query_timeout c' \<and> query_timeout c' \<le> rat_of (sc_lease_ttl_seconds c')"
    using d by (auto simp: query_timeout_def same durations_ok_def split: option.split)
  have strategy: "strategy_fn (sc_retry_strategy c') \<noteq> None"
    by (cases "sc_retry_strategy c") (simp_all add: c'_def)
  have policy: "effective_ack_policy c' \<noteq> AckFirst"
    using ok by (auto simp: effective_ack_policy_def same split: option.split)
  have publish: "case validate_publish_args a of None \<Rightarrow> True
      | Some e \<Rightarrow> e \<noteq> QueueEmpty \<and> (\<forall>t n. e \<noteq> QueueNotText t \<and> e \<noteq> QueueTooLong n)"
    if in_queues: "pa_queue a \<in> set (sc_queues c)" for a
  proof -
    obtain q where q: "pa_queue a = QueueText q" "1 \<le> length q" "length q \<le> 255"
      using bspec [OF ok [THEN conjunct2, THEN conjunct1] in_queues] by (elim exE conjE) (rule that)
    have "e \<noteq> QueueEmpty \<and> (\<forall>t n. e \<noteq> QueueNotText t \<and> e \<noteq> QueueTooLong n)" if "validate_publish_args a = Some e" for e
    proof -
      from that [unfolded validate_publish_args_def Let_def, THEN first_error_Some] show ?thesis
        using q by (auto simp: max_queue_length_def)
    qed
    then show ?thesis by (simp split: option.split)
  qed
  obtain k where "sc_fetch_batch_size c = IntValue k" "k \<ge> 1" using ok by auto
  then have n: "1 \<le> lc_fetch_batch_size (loop_config_of name has_dlq renderer c')"
    by (simp add: loop_config_of_def same)
  have fetch: "\<exists>n \<ge> 1. ls_claim (fetch_begin (loop_config_of name has_dlq renderer c') s) = Some n"
    if "ls_running s \<and> \<not> ls_stopping s \<and> ls_claim s = None \<and> ls_inflight s = []" for s :: "'s loop_state"
  proof -
    have "refill_at (loop_config_of name has_dlq renderer c') \<le> free_slots (loop_config_of name has_dlq renderer c') s"
      using n that by (simp add: refill_at_def free_slots_def)
    then show ?thesis using n that by (simp add: fetch_begin_def free_slots_def)
  qed
  have iff: "(\<forall>qa \<in> set (sc_queues c). \<exists>q. qa = QueueText q \<and> 1 \<le> length q \<and> length q \<le> 255) \<and>
      distinct (map queue_text (sc_queues c)) \<and>
      (\<forall>n \<in> {sc_max_workers c, sc_fetch_batch_size c, sc_terminal_flush_batch_size c} \<union> set_option (sc_max_deliveries c).
         \<exists>k \<ge> 1. n = IntValue k) \<and> durations_ok c \<and> sc_ack_policy c \<noteq> Some AckFirst"
    using ok by blast
  show ?thesis unfolding p durations_ok_def [symmetric]
  proof (intro conjI)
    show "case Inr (c', ws) of Inl e \<Rightarrow> True
      | Inr (c', ws) \<Rightarrow> ws = config_warnings c \<and> 0 < query_timeout c' \<and> query_timeout c' \<le> rat_of (sc_lease_ttl_seconds c') \<and>
        strategy_fn (sc_retry_strategy c') \<noteq> None \<and> effective_ack_policy c' \<noteq> AckFirst \<and>
        (\<forall>a. pa_queue a \<in> set (sc_queues c) \<longrightarrow> (case validate_publish_args a of
           None \<Rightarrow> True
         | Some e \<Rightarrow> e \<noteq> QueueEmpty \<and> (\<forall>t n. e \<noteq> QueueNotText t \<and> e \<noteq> QueueTooLong n))) \<and>
        (\<forall>(s :: 's loop_state). ls_running s \<and> \<not> ls_stopping s \<and> ls_claim s = None \<and> ls_inflight s = [] \<longrightarrow>
           (\<exists>n \<ge> 1. ls_claim (fetch_begin (loop_config_of name has_dlq renderer c') s) = Some n))"
      unfolding sum.case prod.case
      by (intro conjI allI impI) (rule ok [THEN conjunct1] timeout [THEN conjunct1] timeout [THEN conjunct2]
          strategy policy publish fetch, assumption?)+
  qed (rule iffI, rule iff, rule exI, rule refl)
qed


definition sample_subscriber :: subscriber_config where
  "sample_subscriber = \<lparr>sc_queues = [QueueText ''q'', QueueText ''r''], sc_max_workers = IntValue 4,
     sc_retry_strategy = NoStrategy, sc_fetch_batch_size = IntValue 10, sc_min_fetch_interval = Finite 1,
     sc_max_fetch_interval = Finite 10, sc_lease_ttl_seconds = Finite 60, sc_query_timeout_seconds = Some (Finite 5),
     sc_max_deliveries = None, sc_terminal_flush_batch_size = IntValue 1, sc_propagate_inbound_headers = False,
     sc_ack_policy = None\<rparr>"

theorem config_guard_witness:
  "(\<exists>r. config_post_init no_retry_strategy sample_subscriber = Inr r) \<and>
   \<not> (\<exists>r. config_post_init no_retry_strategy (sample_subscriber\<lparr>sc_query_timeout_seconds := Some (Finite 61)\<rparr>) = Inr r)"
proof
  show "\<exists>r. config_post_init no_retry_strategy sample_subscriber = Inr r"
    by (rule iffD2 [OF config_guard [THEN conjunct2]]) (simp add: sample_subscriber_def)
  show "\<not> (\<exists>r. config_post_init no_retry_strategy (sample_subscriber\<lparr>sc_query_timeout_seconds := Some (Finite 61)\<rparr>) = Inr r)"
    using iffD1 [OF config_guard [THEN conjunct2],
      of no_retry_strategy "sample_subscriber\<lparr>sc_query_timeout_seconds := Some (Finite 61)\<rparr>"]
    by (auto simp: sample_subscriber_def)
qed

end
