(* ===== verification/Metrics.thy ===== *)
theory Metrics
  imports Publish
begin

text \<open>
  The two adapters of the metrics seam: \<open>PrometheusRecorder\<close> (\<open>metrics/prometheus.py\<close>) and
  \<open>OpenTelemetryRecorder\<close> (\<open>metrics/opentelemetry.py\<close>). A recorder turns one event into operations on
  instruments of the client library; it may raise after some of them, and its callers swallow that.
\<close>

section \<open>Reading tags\<close>

text \<open>\<open>tags.get(k)\<close> that is then compared with \<open>None\<close>, and \<open>tags.get(k, d)\<close>.\<close>

definition tag_get :: "tags \<Rightarrow> string \<Rightarrow> tag option" where
  "tag_get tgs k = (case dict_get tgs k of None \<Rightarrow> None | Some TNone \<Rightarrow> None | Some v \<Rightarrow> Some v)"

definition tag_or :: "tags \<Rightarrow> string \<Rightarrow> tag \<Rightarrow> tag" where
  "tag_or tgs k d = dict_get_default tgs k d"

fun tag_number :: "tag \<Rightarrow> rat" where
  "tag_number (TInt n) = of_int n"
| "tag_number (TFloat x) = x"
| "tag_number (TStr s) = 0"
| "tag_number TNone = 0"

definition key_error :: "string \<Rightarrow> exn" where
  "key_error k = py_exn ''KeyError'' k"

definition broker_system :: string where
  "broker_system = ''outbox''"

section \<open>Prometheus\<close>

datatype metric = ReceivedTotal | ReceivedSize | InProcess | ProcessedTotal | ProcessedDuration
  | ProcessedExceptions | PublishedTotal | PublishedDuration | PublishedExceptions
  | FetchBatches | TerminalReason | LeaseLost | DlqWritten | DrainTimeout

text \<open>An operation on the child of a metric for the given label values.\<close>

datatype metric_op = Inc metric "tag list" rat | Dec metric "tag list" rat | Observe metric "tag list" rat

text \<open>A custom label is a string or a function of the event's tags, which may raise.\<close>

record prometheus_recorder =
  pr_app_name :: string
  pr_custom :: "(tags \<Rightarrow> exn + tag) list"
  pr_bus :: bool

fun resolve_custom :: "(tags \<Rightarrow> exn + tag) list \<Rightarrow> tags \<Rightarrow> exn + tag list" where
  "resolve_custom [] tgs = Inr []"
| "resolve_custom (f # fs) tgs =
     (case f tgs of
        Inl e \<Rightarrow> Inl e
      | Inr v \<Rightarrow> (case resolve_custom fs tgs of Inl e \<Rightarrow> Inl e | Inr vs \<Rightarrow> Inr (v # vs)))"

definition label_values :: "prometheus_recorder \<Rightarrow> string \<Rightarrow> tags \<Rightarrow> exn + tag list" where
  "label_values rc k tgs =
     (case resolve_custom (pr_custom rc) tgs of
        Inl e \<Rightarrow> Inl e
      | Inr vs \<Rightarrow> Inr (TStr (pr_app_name rc) # TStr broker_system # tag_or tgs k (TStr []) # vs))"

definition consume_values :: "prometheus_recorder \<Rightarrow> tags \<Rightarrow> exn + tag list" where
  "consume_values rc tgs = label_values rc ''subscriber'' tgs"

definition publish_values :: "prometheus_recorder \<Rightarrow> tags \<Rightarrow> exn + tag list" where
  "publish_values rc tgs = label_values rc ''queue'' tgs"

definition record_published :: "prometheus_recorder \<Rightarrow> tags \<Rightarrow> metric_op list \<times> exn option" where
  "record_published rc tgs =
     (case publish_values rc tgs of
        Inl e \<Rightarrow> ([], Some e)
      | Inr base \<Rightarrow>
          let status = tag_or tgs ''status'' (TStr ''success'');
              n = tag_number (tag_or tgs ''count'' (TInt 0))
          in ((if status = TStr ''error'' then [Inc PublishedTotal (base @ [status]) 1]
               else if n > 0 then [Inc PublishedTotal (base @ [status]) n] else []) @
              (case tag_get tgs ''duration_seconds'' of
                 None \<Rightarrow> [] | Some d \<Rightarrow> [Observe PublishedDuration base (tag_number d)]) @
              (case tag_get tgs ''exception_type'' of
                 None \<Rightarrow> [] | Some x \<Rightarrow> [Inc PublishedExceptions (base @ [x]) 1]), None))"

definition settled_events :: "string list" where
  "settled_events = [''acked'', ''nacked_retried'', ''nacked_terminal'']"

definition record_bus_consume :: "string \<Rightarrow> tags \<Rightarrow> tag list \<Rightarrow> tag option \<Rightarrow> metric_op list" where
  "record_bus_consume event tgs base duration =
     (if event = ''dispatched'' then
        [Inc ReceivedTotal base 1] @
        (case tag_get tgs ''size_bytes'' of None \<Rightarrow> [] | Some s \<Rightarrow> [Observe ReceivedSize base (tag_number s)]) @
        [Inc InProcess base 1]
      else if event \<in> set settled_events then
        [Inc ProcessedTotal (base @ [TStr (if event = ''acked'' then ''acked'' else ''nacked'')]) 1] @
        (case duration of None \<Rightarrow> []
         | Some d \<Rightarrow> [Dec InProcess base 1, Observe ProcessedDuration base (tag_number d)]) @
        (case tag_get tgs ''exception_type'' of
           None \<Rightarrow> [] | Some x \<Rightarrow> [Inc ProcessedExceptions (base @ [x]) 1])
      else
        (if event = ''lease_lost'' then [Inc ProcessedTotal (base @ [TStr ''error'']) 1] else []) @
        (if event \<in> {''lease_lost'', ''dispatch_abandoned''} \<and> duration \<noteq> None then [Dec InProcess base 1] else []))"

text \<open>\<open>tags[k]\<close> as a label: a missing key raises.\<close>

definition inc_with :: "metric \<Rightarrow> tag list \<Rightarrow> tags \<Rightarrow> string \<Rightarrow> metric_op list \<times> exn option" where
  "inc_with m base tgs k =
     (case dict_get tgs k of None \<Rightarrow> ([], Some (key_error k)) | Some v \<Rightarrow> ([Inc m (base @ [v]) 1], None))"

definition record_outbox :: "string \<Rightarrow> tags \<Rightarrow> tag list \<Rightarrow> metric_op list \<times> exn option" where
  "record_outbox event tgs base =
     (if event = ''nacked_terminal'' then inc_with TerminalReason base tgs ''reason''
      else if event = ''lease_lost'' then inc_with LeaseLost base tgs ''phase''
      else if event = ''dlq_written'' then inc_with DlqWritten base tgs ''failure_reason''
      else if event = ''drain_timeout'' then ([Inc DrainTimeout base 1], None)
      else ([], None))"

definition prometheus_call :: "prometheus_recorder \<Rightarrow> metric_event \<Rightarrow> metric_op list \<times> exn option" where
  "prometheus_call rc ev =
     (let (event, tgs) = ev
      in if event = ''published'' then (if pr_bus rc then record_published rc tgs else ([], None))
         else case consume_values rc tgs of
           Inl e \<Rightarrow> ([], Some e)
         | Inr base \<Rightarrow>
             if event = ''fetched''
             then ([Inc FetchBatches (base @ [TStr (if tag_number (tag_or tgs ''count'' (TInt 0)) \<noteq> 0
                      then ''true'' else ''false'')]) 1], None)
             else let bus = (if pr_bus rc then record_bus_consume event tgs base (tag_get tgs ''duration_seconds'') else []);
                      (ops, err) = record_outbox event tgs base
                  in (bus @ ops, err))"

text \<open>All the operations for a sequence of events; the emitter swallows what a recorder raises.\<close>

definition prometheus_run :: "prometheus_recorder \<Rightarrow> metric_event list \<Rightarrow> metric_op list" where
  "prometheus_run rc evs = concat (map (\<lambda>ev. fst (prometheus_call rc ev)) evs)"

text \<open>The value of a gauge's or counter's child, and the number of observations of a histogram's.\<close>

fun op_delta :: "metric \<Rightarrow> tag list \<Rightarrow> metric_op \<Rightarrow> rat" where
  "op_delta m ls (Inc m' ls' x) = (if m' = m \<and> ls' = ls then x else 0)"
| "op_delta m ls (Dec m' ls' x) = (if m' = m \<and> ls' = ls then - x else 0)"
| "op_delta m ls (Observe m' ls' x) = 0"

definition metric_value :: "metric \<Rightarrow> tag list \<Rightarrow> metric_op list \<Rightarrow> rat" where
  "metric_value m ls ops = sum_list (map (op_delta m ls) ops)"

section \<open>OpenTelemetry\<close>

datatype instrument = FetchBatchesCounter | ProcessDuration | PublishDuration | ProcessMessages
  | PublishMessages | LeaseLostCounter | DlqWrittenCounter | DrainTimeoutCounter

datatype otel_op = Add instrument rat tags | Record instrument rat tags

record otel_recorder =
  ot_bus :: bool
  ot_counters :: bool

text \<open>The attributes of a point: the destination is required.\<close>

definition otel_attrs :: "tags \<Rightarrow> string \<Rightarrow> exn + tags" where
  "otel_attrs tgs operation =
     (case dict_get tgs ''queue'' of
        None \<Rightarrow> Inl (key_error ''queue'')
      | Some q \<Rightarrow> Inr ([(''messaging.system'', TStr broker_system), (''messaging.destination.name'', q),
            (''messaging.operation'', TStr operation)] @
          (case tag_get tgs ''subscriber'' of
             None \<Rightarrow> []
           | Some h \<Rightarrow> if h = TStr [] then [] else [(''messaging.outbox.handler'', h)])))"

definition with_error_type :: "tags \<Rightarrow> tags \<Rightarrow> tags" where
  "with_error_type tgs attrs = (case tag_get tgs ''exception_type'' of
     None \<Rightarrow> attrs | Some x \<Rightarrow> dict_set ''error.type'' x attrs)"

definition otel_process :: "otel_recorder \<Rightarrow> string \<Rightarrow> tags \<Rightarrow> otel_op list \<times> exn option" where
  "otel_process rc event tgs =
     (if \<not> ot_bus rc then ([], None)
      else case otel_attrs tgs ''process'' of
        Inl e \<Rightarrow> ([], Some e)
      | Inr attrs0 \<Rightarrow>
          let attrs1 = dict_set ''messaging.outbox.status'' (TStr (if event = ''acked'' then ''acked'' else ''nacked'')) attrs0
          in case (if event = ''nacked_terminal'' then dict_get tgs ''reason'' else Some TNone) of
               None \<Rightarrow> ([], Some (key_error ''reason''))
             | Some reason \<Rightarrow>
                 let attrs2 = (if event = ''nacked_terminal'' then dict_set ''messaging.outbox.terminal_reason'' reason attrs1
                       else attrs1);
                     attrs = with_error_type tgs attrs2
                 in ((case tag_get tgs ''duration_seconds'' of
                        None \<Rightarrow> [] | Some d \<Rightarrow> [Record ProcessDuration (tag_number d) attrs]) @
                     (if ot_counters rc then [Add ProcessMessages 1 attrs] else []), None))"

definition otel_published :: "otel_recorder \<Rightarrow> tags \<Rightarrow> otel_op list \<times> exn option" where
  "otel_published rc tgs =
     (if \<not> ot_bus rc then ([], None)
      else case otel_attrs tgs ''publish'' of
        Inl e \<Rightarrow> ([], Some e)
      | Inr attrs0 \<Rightarrow>
          let attrs = with_error_type tgs (dict_set ''messaging.outbox.status'' (tag_or tgs ''status'' (TStr ''success'')) attrs0);
              n = tag_number (tag_or tgs ''count'' (TInt 0))
          in ((case tag_get tgs ''duration_seconds'' of
                 None \<Rightarrow> [] | Some d \<Rightarrow> [Record PublishDuration (tag_number d) attrs]) @
              (if ot_counters rc \<and> n \<noteq> 0 then [Add PublishMessages n attrs] else []), None))"

text \<open>A counter of the outbox: one, with the attributes and the tag \<open>k\<close> under the key \<open>key\<close>.\<close>

definition otel_reason :: "instrument \<Rightarrow> tags \<Rightarrow> string \<Rightarrow> string \<Rightarrow> (tags \<Rightarrow> tags) \<Rightarrow> otel_op list \<times> exn option" where
  "otel_reason inst tgs key k extra =
     (case otel_attrs tgs ''process'' of
        Inl e \<Rightarrow> ([], Some e)
      | Inr attrs \<Rightarrow>
          (case dict_get tgs k of
             None \<Rightarrow> ([], Some (key_error k))
           | Some v \<Rightarrow> ([Add inst 1 (extra (dict_set key v attrs))], None)))"

definition otel_plain :: "instrument \<Rightarrow> tags \<Rightarrow> string \<Rightarrow> otel_op list \<times> exn option" where
  "otel_plain inst tgs operation =
     (case otel_attrs tgs operation of Inl e \<Rightarrow> ([], Some e) | Inr attrs \<Rightarrow> ([Add inst 1 attrs], None))"

definition otel_call :: "otel_recorder \<Rightarrow> metric_event \<Rightarrow> otel_op list \<times> exn option" where
  "otel_call rc ev =
     (let (event, tgs) = ev
      in if event = ''fetched'' then otel_plain FetchBatchesCounter tgs ''receive''
         else if event = ''dispatched'' then ([], None)
         else if event \<in> set settled_events then otel_process rc event tgs
         else if event = ''lease_lost''
         then otel_reason LeaseLostCounter tgs ''messaging.outbox.lease_phase'' ''phase''
                (dict_set ''error.type'' (TStr ''lease_lost''))
         else if event = ''dlq_written''
         then otel_reason DlqWrittenCounter tgs ''messaging.outbox.dlq_reason'' ''failure_reason'' (with_error_type tgs)
         else if event = ''drain_timeout'' then otel_plain DrainTimeoutCounter tgs ''process''
         else if event = ''published'' then otel_published rc tgs
         else ([], None))"

end
