(* ===== verification/Metrics_Properties.thy ===== *)
theory Metrics_Properties
  imports Metrics Dispatch_Properties Publish_Properties
begin

text \<open>
  What the instruments show: the in-process gauge counts the dispatches that are open, and the two
  adapters report the same publishes.
\<close>

section \<open>The events of a subscriber\<close>

definition closing_names :: "string list" where
  "closing_names = [''acked'', ''nacked_retried'', ''nacked_terminal'', ''lease_lost'', ''dispatch_abandoned'']"

text \<open>
  An event of the subscriber \<open>h\<close>: its name is one of the vocabulary, its handler label is there, a
  duration is a number and comes with the closing events only.
\<close>

definition event_ok :: "string \<Rightarrow> metric_event \<Rightarrow> bool" where
  "event_ok h ev \<longleftrightarrow> fst ev \<in> set (closing_names @ [''dispatched'', ''dlq_written'']) \<and>
     dict_get (snd ev) ''subscriber'' = Some (TStr h) \<and> dict_get (snd ev) ''queue'' \<noteq> None \<and>
     dict_get (snd ev) ''duration_seconds'' \<noteq> Some TNone \<and> (closes ev \<longrightarrow> fst ev \<in> set closing_names)"

definition adds_ok :: "string \<Rightarrow> 's dispatch_state \<Rightarrow> 's dispatch_state \<Rightarrow> bool" where
  "adds_ok h st st' \<longleftrightarrow> (\<exists>new. ds_events st' = ds_events st @ new \<and> list_all (event_ok h) new) \<and>
     (\<forall>p \<in> set (ds_buffer st'). p \<in> set (ds_buffer st) \<or> event_ok h (pf_event p, pf_tags p))"

lemma adds_ok_refl [simp]: "adds_ok h st st"
  by (simp add: adds_ok_def)

lemma adds_ok_store [simp]: "adds_ok h st (st'\<lparr>ds_store := x\<rparr>) \<longleftrightarrow> adds_ok h st st'"
  by (simp add: adds_ok_def)

lemma adds_ok_trans: "adds_ok h st st1 \<Longrightarrow> adds_ok h st1 st2 \<Longrightarrow> adds_ok h st st2"
  unfolding adds_ok_def by fastforce

lemma adds_ok_emit: "adds_ok h st st' \<Longrightarrow> list_all (event_ok h) evs \<Longrightarrow> adds_ok h st (emit evs st')"
  unfolding adds_ok_def by fastforce

lemma get_with_exception_type:
  "k \<noteq> ''exception_type'' \<Longrightarrow> dict_get (with_exception_type tgs m) k = dict_get tgs k"
  by (simp add: with_exception_type_def split: option.split)

lemmas event_ok_defs = event_ok_def closing_names_def closes_def base_tags_def get_with_exception_type

lemma event_ok_lease_lost [simp]: "event_ok (dc_call_name cfg) (lease_lost_event cfg m phase)"
  by (cases "handler_duration_seconds m") (simp_all add: event_ok_defs lease_lost_event_def)

lemma event_ok_abandoned [simp]: "list_all (event_ok (dc_call_name cfg)) (dispatch_abandoned_events cfg m)"
  by (simp add: event_ok_defs dispatch_abandoned_events_def split: option.split)

lemma event_ok_dlq [simp]: "event_ok (dc_call_name cfg) (dlq_written_event cfg m c)"
  by (simp add: event_ok_defs dlq_written_event_def)

lemma event_ok_dispatched [simp]: "event_ok (dc_call_name cfg) (dispatched_event cfg m)"
  by (simp add: event_ok_defs dispatched_event_def)

lemma flush_terminal_adds: "flush_terminal ops cfg env m st = (st', r) \<Longrightarrow> adds_ok (dc_call_name cfg) st st'"
  by (auto simp: flush_terminal_def Let_def intro!: adds_ok_emit split: option.splits sum.splits prod.splits if_splits)

lemma flush_retry_adds: "flush_retry ops cfg env m st = (st', r) \<Longrightarrow> adds_ok (dc_call_name cfg) st st'"
  by (auto simp: flush_retry_def Let_def intro!: adds_ok_emit split: option.splits sum.splits prod.splits if_splits)

lemma safe_flush_adds:
  assumes "safe_flush ops cfg env terminal m st = (st', r)"
  shows "adds_ok (dc_call_name cfg) st st'"
proof -
  obtain st1 r1 where f: "(if terminal then flush_terminal else flush_retry) ops cfg env m st = (st1, r1)" by fastforce
  then have "adds_ok (dc_call_name cfg) st st1"
    using flush_terminal_adds flush_retry_adds by (cases terminal) fastforce+
  with f assms show ?thesis
    by (auto simp: safe_flush_def Let_def intro!: adds_ok_emit split: sum.splits if_splits)
qed

lemma flush_or_buffer_adds:
  assumes "flush_or_buffer ops cfg env use_buffer event tgs m st = (st', r)"
    and "event_ok (dc_call_name cfg) (event, tgs)"
  shows "adds_ok (dc_call_name cfg) st st'"
proof (cases "use_buffer \<and> dc_terminal_flush_batch_size cfg > 1 \<and> \<not> terminal_has_dlq cfg m")
  case True
  with assms show ?thesis by (auto simp: flush_or_buffer_def adds_ok_def)
next
  case False
  obtain st1 r1 where f: "safe_flush ops cfg env True m st = (st1, r1)" by fastforce
  with False assms safe_flush_adds [OF f] show ?thesis
    by (auto simp: flush_or_buffer_def Let_def intro!: adds_ok_emit split: sum.splits if_splits)
qed

lemma write_settled_adds:
  assumes "write_settled ops cfg env use_buffer m st = (st', r)" and "handler_duration_seconds m = Some d"
  shows "adds_ok (dc_call_name cfg) st st'"
proof -
  have acked: "event_ok (dc_call_name cfg) (''acked'', outcome_tags cfg m)"
    and terminal: "event_ok (dc_call_name cfg) (''nacked_terminal'',
      with_exception_type (outcome_tags cfg m @ [(''reason'', x)]) m)"
    and retried: "event_ok (dc_call_name cfg) (''nacked_retried'',
      with_exception_type (outcome_tags cfg m @ [(''next_delay_seconds'', x)]) m)" for x
    using assms(2) by (simp_all add: event_ok_defs outcome_tags_def tag_option_def)
  show ?thesis
  proof (cases "\<exists>x. outcome m = Some (Retry x)")
    case True
    then obtain x where x: "outcome m = Some (Retry x)" by blast
    obtain st1 r1 where f: "safe_flush ops cfg env False m st = (st1, r1)" by fastforce
    with assms(1) x safe_flush_adds [OF f] show ?thesis
      by (auto simp: write_settled_def intro!: adds_ok_emit retried split: sum.splits if_splits)
  next
    case False
    with assms(1) show ?thesis
      by (auto simp: write_settled_def intro: flush_or_buffer_adds [OF _ acked] flush_or_buffer_adds [OF _ terminal]
          split: option.splits outcome.splits)
  qed
qed

lemma write_outcome_adds:
  assumes "write_outcome ops cfg env running now use_buffer m st = (st', r)" and "handler_duration_seconds m = Some d"
  shows "adds_ok (dc_call_name cfg) st st'"
proof (cases "\<not> state_set m \<and> \<not> running")
  case True
  with assms(1) show ?thesis by (auto simp: write_outcome_def intro!: adds_ok_emit)
next
  case False
  have "handler_duration_seconds (assert_state_set now m) = Some d"
    using assms(2) by (auto simp: assert_state_set_def msg_defs Let_def split: option.split sum.split)
  moreover have "write_settled ops cfg env use_buffer (assert_state_set now m) st = (st', r)"
    using assms(1) False by (auto simp: write_outcome_def split: if_splits)
  ultimately show ?thesis using write_settled_adds by blast
qed

lemma dispatch_one_adds:
  assumes "dispatch_one ops cfg env cenv running running' use_buffer m st = (st', r)"
    and "handler_duration_seconds m = None"
  shows "adds_ok (dc_call_name cfg) st st'"
proof -
  obtain ok m0 where al: "allow_delivery (dc_max_deliveries cfg) (m\<lparr>retry_strategy := dc_retry_strategy cfg\<rparr>) = (ok, m0)"
    by fastforce
  show ?thesis
  proof (cases ok)
    case False
    have "event_ok (dc_call_name cfg) (''nacked_terminal'', max_deliveries_tags cfg m0)"
      by (simp add: event_ok_defs max_deliveries_tags_def)
    from flush_or_buffer_adds [OF _ this] show ?thesis using assms(1) False by (simp add: dispatch_one_def al)
  next
    case True
    obtain m1 raised where c: "consume running cenv m0 = (m1, raised)" by fastforce
    let ?m2 = "m1\<lparr>handler_duration_seconds := Some (ce_duration cenv)\<rparr>" and ?st1 = "emit [dispatched_event cfg m0] st"
    have one: "adds_ok (dc_call_name cfg) st ?st1" by (rule adds_ok_emit) simp_all
    have w: "write_outcome ops cfg env running' (ce_now cenv) b ?m2 ?st1 = (st2, r2) \<Longrightarrow>
        adds_ok (dc_call_name cfg) st st2" for b st2 r2
      using adds_ok_trans [OF one write_outcome_adds] by force
    have d: "run_pipeline ops cfg env cenv running running' use_buffer m0 st = (st', r)"
      using assms(1) True by (simp add: dispatch_one_def al)
    show ?thesis
    proof (cases raised)
      case None
      with d c w show ?thesis by (simp add: run_pipeline_def finish_pipeline_def Let_def)
    next
      case (Some e)
      show ?thesis
      proof (cases "exn_kind e = OutboxConfigError")
        case True
        obtain st2 r2 where w2: "write_outcome ops cfg env running' (ce_now cenv) False ?m2 ?st1 = (st2, r2)" by fastforce
        with d c Some True have "st' = st2" by (cases r2) (auto simp: run_pipeline_def finish_pipeline_def Let_def)
        with w [OF w2] show ?thesis by simp
      next
        case False
        with d c Some one show ?thesis by (auto simp: run_pipeline_def finish_pipeline_def Let_def intro!: adds_ok_emit split: if_splits)
      qed
    qed
  qed
qed

lemma flush_buffer_adds:
  assumes "flush_buffer ops cfg env st = (st', r)"
    and "\<forall>p \<in> set (ds_buffer st). event_ok (dc_call_name cfg) (pf_event p, pf_tags p)"
  shows "adds_ok (dc_call_name cfg) st st'"
proof -
  let ?ab = "concat (map (\<lambda>p. dispatch_abandoned_events cfg (pf_row p)) (ds_buffer st))"
  have "list_all (event_ok (dc_call_name cfg)) (map (pending_event cfg del) (ds_buffer st))" for del
    using assms(2) by (auto simp: list_all_iff pending_event_def)
  moreover have "list_all (event_ok (dc_call_name cfg)) ?ab"
    using event_ok_abandoned by (fastforce simp: list_all_iff)
  ultimately show ?thesis using assms(1)
    by (auto simp: flush_buffer_def Let_def adds_ok_def emit_def split: if_splits sum.splits prod.splits)
qed

section \<open>The in-process gauge\<close>

text \<open>A recorder whose custom labels are fixed strings, and its labels for the handler \<open>h\<close>.\<close>

definition static_recorder :: "string \<Rightarrow> string list \<Rightarrow> prometheus_recorder" where
  "static_recorder app custom = \<lparr>pr_app_name = app, pr_custom = map (\<lambda>s _. Inr (TStr s)) custom, pr_bus = True\<rparr>"

definition handler_labels :: "string \<Rightarrow> string list \<Rightarrow> string \<Rightarrow> tag list" where
  "handler_labels app custom h = TStr app # TStr broker_system # TStr h # map TStr custom"

lemma resolve_static: "resolve_custom (map (\<lambda>s _. Inr (TStr s)) custom) tgs = Inr (map TStr custom)"
  by (induction custom) simp_all

lemma metric_value_append [simp]: "metric_value m ls (a @ b) = metric_value m ls a + metric_value m ls b"
  by (simp add: metric_value_def)

lemma metric_value_Nil [simp]: "metric_value m ls [] = 0"
  by (simp add: metric_value_def)

lemma metric_value_Cons: "metric_value m ls (x # xs) = op_delta m ls x + metric_value m ls xs"
  by (simp add: metric_value_def)

lemma record_outbox_gauge: "metric_value InProcess ls (fst (record_outbox e tgs base)) = 0"
  by (simp add: record_outbox_def inc_with_def metric_value_Cons split: option.split)

lemma gauge_event:
  assumes "event_ok h ev"
  shows "metric_value InProcess (handler_labels app custom h) (fst (prometheus_call (static_recorder app custom) ev)) =
    of_int (net [ev])"
proof -
  obtain e tgs where ev: "ev = (e, tgs)" by fastforce
  let ?base = "handler_labels app custom h"
  let ?d = "tag_get tgs ''duration_seconds''"
  have base: "consume_values (static_recorder app custom) tgs = Inr ?base"
    using assms by (simp add: ev event_ok_def consume_values_def label_values_def static_recorder_def
        resolve_static tag_or_def dict_get_default_def handler_labels_def)
  have d: "?d \<noteq> None \<longleftrightarrow> closes ev"
    using assms by (auto simp: ev event_ok_def closes_def tag_get_def split: option.split tag.split)
  have names: "e \<noteq> ''published''" "e \<noteq> ''fetched''" using assms by (auto simp: ev event_ok_def closing_names_def)
  have "fst (prometheus_call (static_recorder app custom) ev) =
      record_bus_consume e tgs ?base ?d @ fst (record_outbox e tgs ?base)"
    using names base by (simp add: prometheus_call_def ev static_recorder_def Let_def case_prod_unfold)
  moreover have "metric_value InProcess ?base (record_bus_consume e tgs ?base ?d) = of_int (net [ev])"
  proof (cases "e = ''dispatched''")
    case True
    then have "\<not> closes ev" using assms by (auto simp: event_ok_def closing_names_def ev)
    with True show ?thesis
      by (simp add: record_bus_consume_def metric_value_Cons net_def opens_def ev split: option.split)
  next
    case False
    show ?thesis
    proof (cases "closes ev")
      case True
      then obtain x where x: "?d = Some x" using d by blast
      have "e \<in> set closing_names" using assms True by (simp add: event_ok_def ev)
      with False True x show ?thesis
        by (auto simp: record_bus_consume_def settled_events_def closing_names_def metric_value_Cons net_def
            opens_def ev split: option.split)
    next
      case False
      then have "?d = None" using d by blast
      with False \<open>e \<noteq> ''dispatched''\<close> show ?thesis
        by (simp add: record_bus_consume_def metric_value_Cons net_def opens_def ev split: option.split)
    qed
  qed
  ultimately show ?thesis by (simp add: record_outbox_gauge)
qed

lemma gauge_events:
  "list_all (event_ok h) evs \<Longrightarrow>
     metric_value InProcess (handler_labels app custom h) (prometheus_run (static_recorder app custom) evs) = of_int (net evs)"
proof (induction evs)
  case (Cons ev evs)
  then show ?case using gauge_event [of h ev app custom] net_append [of "[ev]" evs]
    by (simp add: prometheus_run_def)
qed (simp add: prometheus_run_def)

text \<open>The gauge of the handler after all the events of a state, and the dispatched rows in its buffer.\<close>

definition in_process_gauge :: "string \<Rightarrow> string list \<Rightarrow> string \<Rightarrow> 's dispatch_state \<Rightarrow> rat" where
  "in_process_gauge app custom h st =
     metric_value InProcess (handler_labels app custom h) (prometheus_run (static_recorder app custom) (ds_events st))"

definition waiting_rows :: "'s dispatch_state \<Rightarrow> int" where
  "waiting_rows st = sum_list (map (closing \<circ> pf_row) (ds_buffer st))"

lemma in_process_gauge_net:
  "list_all (event_ok h) (ds_events st) \<Longrightarrow> in_process_gauge app custom h st = of_int (balance st + waiting_rows st)"
  by (simp add: in_process_gauge_def gauge_events balance_def waiting_rows_def)

text \<open>
  Property C27. The in-process gauge is true: fed with every event of a subscriber through any dispatch,
  whatever the handler, the outcome, the faults and the buffering, the gauge of its handler label minus
  the dispatched rows waiting in the buffer is what it was before; only an interrupted handler leaves it
  raised, by one. Together with a flush, which lowers it by exactly the buffered rows, it never drifts.
\<close>

theorem gauge_counts_open_dispatches:
  assumes "list_all (event_ok (dc_call_name cfg)) (ds_events st)"
    and "\<forall>p \<in> set (ds_buffer st). pending_ok p \<and> event_ok (dc_call_name cfg) (pf_event p, pf_tags p)"
    and "acquired_token m \<noteq> None" and "handler_duration_seconds m = None"
    and "dispatch_one ops cfg env cenv running running' use_buffer m st = (st', r)"
    and "flush_buffer ops cfg env' st' = (st'', r')"
  shows "in_process_gauge app custom (dc_call_name cfg) st' - of_int (waiting_rows st') =
      in_process_gauge app custom (dc_call_name cfg) st - of_int (waiting_rows st) +
      (if passes_gate cfg m \<and> interrupted running cenv then 1 else 0) \<and>
    in_process_gauge app custom (dc_call_name cfg) st'' =
      in_process_gauge app custom (dc_call_name cfg) st' - of_int (waiting_rows st') \<and> ds_buffer st'' = []"
proof -
  let ?h = "dc_call_name cfg"
  have a: "adds_ok ?h st st'" by (rule dispatch_one_adds [OF assms(5,4)])
  then have ev': "list_all (event_ok ?h) (ds_events st')" and b': "\<forall>p \<in> set (ds_buffer st'). event_ok ?h (pf_event p, pf_tags p)"
    using assms(1,2) by (auto simp: adds_ok_def)
  note bal = dispatch_one_balance [OF assms(5,3,4)]
  then have p': "\<forall>p \<in> set (ds_buffer st'). pending_ok p" using assms(2) by blast
  have ev'': "list_all (event_ok ?h) (ds_events st'')" using flush_buffer_adds [OF assms(6) b'] ev' by (auto simp: adds_ok_def)
  have f: "balance st'' = balance st' \<and> ds_buffer st'' = []" using flush_buffer_balance [OF assms(6) p'] by blast
  then have w: "waiting_rows st'' = 0" by (simp add: waiting_rows_def)
  show ?thesis
    using bal f by (simp add: in_process_gauge_net [OF assms(1)] in_process_gauge_net [OF ev'] in_process_gauge_net [OF ev''] w)
qed

theorem gauge_counts_open_dispatches_witness:
  "in_process_gauge ''app'' [''eu''] ''h'' (fst (dispatch_one (real_ops [] {} True) sample_config sample_write sample_cancel
     True True True sample_leased sample_state)) =
   1 + of_int (waiting_rows (fst (dispatch_one (real_ops [] {} True) sample_config sample_write sample_cancel
     True True True sample_leased sample_state)))"
proof -
  have "ds_events sample_state = []" "ds_buffer sample_state = []" by (simp_all add: sample_state_def)
  moreover have "passes_gate sample_config sample_leased" "interrupted True sample_cancel"
    by (simp_all add: passes_gate_def interrupted_def sample_defs new_row_def)
  ultimately show ?thesis
    using gauge_counts_open_dispatches [where app = "''app''" and custom = "[''eu'']" and env' = sample_write,
        OF _ _ _ _ prod.collapse [symmetric] prod.collapse [symmetric],
        where cfg = sample_config and st = sample_state and m = sample_leased and ops = "real_ops [] {} True" and
          env = sample_write and cenv = sample_cancel and running = True and running' = True and use_buffer = True]
    by (simp add: in_process_gauge_def prometheus_run_def waiting_rows_def sample_config_def)
qed

section \<open>The adapters agree\<close>

text \<open>The events of a producer: an error counts nothing. What the subscribers emit has other names.\<close>

definition published_ok :: "metric_event \<Rightarrow> bool" where
  "published_ok ev \<longleftrightarrow> fst ev \<noteq> ''published'' \<or>
     (\<exists>(env :: bytes producer_env) q n size_bytes exc. ev = published_event env q n size_bytes exc \<and> (exc = None \<or> n = 0))"

definition otel_run :: "otel_recorder \<Rightarrow> metric_event list \<Rightarrow> otel_op list" where
  "otel_run rc evs = concat (map (\<lambda>ev. fst (otel_call rc ev)) evs)"

text \<open>The sum of a counter and the number of records of a histogram, over the points with some attributes.\<close>

fun otel_added :: "instrument \<Rightarrow> (tags \<Rightarrow> bool) \<Rightarrow> otel_op list \<Rightarrow> rat" where
  "otel_added inst P [] = 0"
| "otel_added inst P (Add inst' x attrs # ops) = (if inst' = inst \<and> P attrs then x else 0) + otel_added inst P ops"
| "otel_added inst P (Record inst' x attrs # ops) = otel_added inst P ops"

fun otel_records :: "instrument \<Rightarrow> (tags \<Rightarrow> bool) \<Rightarrow> otel_op list \<Rightarrow> rat list" where
  "otel_records inst P [] = []"
| "otel_records inst P (Add inst' x attrs # ops) = otel_records inst P ops"
| "otel_records inst P (Record inst' x attrs # ops) = (if inst' = inst \<and> P attrs then [x] else []) @ otel_records inst P ops"

fun observations :: "metric \<Rightarrow> tag list \<Rightarrow> metric_op list \<Rightarrow> rat list" where
  "observations m ls [] = []"
| "observations m ls (Observe m' ls' x # ops) = (if m' = m \<and> ls' = ls then [x] else []) @ observations m ls ops"
| "observations m ls (Inc m' ls' x # ops) = observations m ls ops"
| "observations m ls (Dec m' ls' x # ops) = observations m ls ops"

lemma added_append [simp]: "otel_added inst P (xs @ ys) = otel_added inst P xs + otel_added inst P ys"
  by (induction inst P xs rule: otel_added.induct) simp_all

lemma records_append [simp]: "otel_records inst P (xs @ ys) = otel_records inst P xs @ otel_records inst P ys"
  by (induction inst P xs rule: otel_records.induct) simp_all

lemma observations_append [simp]: "observations m ls (xs @ ys) = observations m ls xs @ observations m ls ys"
  by (induction m ls xs rule: observations.induct) simp_all

text \<open>The label values of a publish to \<open>q\<close>, and the attributes that say the same.\<close>

definition publish_labels :: "string \<Rightarrow> string list \<Rightarrow> string \<Rightarrow> tag list" where
  "publish_labels app custom q = TStr app # TStr broker_system # TStr q # map TStr custom"

definition sent_to :: "string \<Rightarrow> tags \<Rightarrow> bool" where
  "sent_to q attrs \<longleftrightarrow> dict_get attrs ''messaging.destination.name'' = Some (TStr q)"

definition sent_with :: "string \<Rightarrow> string \<Rightarrow> tags \<Rightarrow> bool" where
  "sent_with q status attrs \<longleftrightarrow> sent_to q attrs \<and> dict_get attrs ''messaging.outbox.status'' = Some (TStr status)"

definition messages_to :: "string \<Rightarrow> metric_event \<Rightarrow> rat" where
  "messages_to q ev = (if fst ev = ''published'' \<and> tag_get (snd ev) ''queue'' = Some (TStr q)
     then tag_number (tag_or (snd ev) ''count'' (TInt 0)) else 0)"

definition full_otel :: otel_recorder where
  "full_otel = \<lparr>ot_bus = True, ot_counters = True\<rparr>"

lemma consume_not_published [simp]:
  "metric_value PublishedTotal ls (record_bus_consume e tgs base d) = 0"
  "observations PublishedDuration ls (record_bus_consume e tgs base d) = []"
  "metric_value PublishedTotal ls (fst (record_outbox e tgs base)) = 0"
  "observations PublishedDuration ls (fst (record_outbox e tgs base)) = []"
  by (simp_all add: record_bus_consume_def record_outbox_def inc_with_def metric_value_Cons split: option.split)

lemma other_event_prometheus:
  assumes "fst ev \<noteq> ''published''"
  shows "metric_value PublishedTotal ls (fst (prometheus_call rc ev)) = 0 \<and>
    observations PublishedDuration ls (fst (prometheus_call rc ev)) = []"
  using assms
  by (cases ev; cases "consume_values rc (snd ev)") (simp_all add: prometheus_call_def Let_def case_prod_unfold metric_value_Cons)

lemma process_not_published [simp]:
  "otel_added PublishMessages P (fst (otel_plain FetchBatchesCounter tgs opn)) = 0"
  "otel_added PublishMessages P (fst (otel_plain DrainTimeoutCounter tgs opn)) = 0"
  "otel_records PublishDuration P (fst (otel_plain inst tgs opn)) = []"
  "otel_added PublishMessages P (fst (otel_reason LeaseLostCounter tgs key k extra)) = 0"
  "otel_added PublishMessages P (fst (otel_reason DlqWrittenCounter tgs key k extra)) = 0"
  "otel_records PublishDuration P (fst (otel_reason inst tgs key k extra)) = []"
  by (simp_all add: otel_plain_def otel_reason_def split: sum.split option.split)

lemma otel_process_not_published [simp]:
  "otel_added PublishMessages P (fst (otel_process rc e tgs)) = 0 \<and> otel_records PublishDuration P (fst (otel_process rc e tgs)) = []"
proof (cases "ot_bus rc \<and> (e = ''nacked_terminal'' \<longrightarrow> dict_get tgs ''reason'' \<noteq> None)")
  case False
  then show ?thesis by (auto simp: otel_process_def split: sum.split)
next
  case True
  then show ?thesis
    by (cases "otel_attrs tgs ''process''") (auto simp: otel_process_def Let_def split: option.split)
qed

lemma other_event_otel:
  assumes "fst ev \<noteq> ''published''"
  shows "otel_added PublishMessages P (fst (otel_call rc ev)) = 0 \<and> otel_records PublishDuration P (fst (otel_call rc ev)) = []"
  using assms by (cases ev) (simp add: otel_call_def)

lemma published_event_tags:
  "tag_get (snd (published_event env q n b exc)) ''queue'' = Some (TStr q)"
  "tag_or (snd (published_event env q n b exc)) k d = (case dict_get (snd (published_event env q n b exc)) k of None \<Rightarrow> d | Some v \<Rightarrow> v)"
  "fst (published_event env q n b exc) = ''published''"
  by (simp_all add: published_event_def tag_get_def tag_or_def dict_get_default_def)

lemma prometheus_published:
  "fst (prometheus_call (static_recorder app custom) (published_event env q n b exc)) =
    (if exc \<noteq> None then [Inc PublishedTotal (publish_labels app custom q @ [TStr ''error'']) 1]
     else if n > 0 then [Inc PublishedTotal (publish_labels app custom q @ [TStr ''success'']) (of_nat n)] else []) @
    [Observe PublishedDuration (publish_labels app custom q) (pe_duration env)] @
    (case exc of None \<Rightarrow> [] | Some e \<Rightarrow> [Inc PublishedExceptions (publish_labels app custom q @ [TStr (exn_name e)]) 1])"
  by (cases exc) (simp_all add: prometheus_call_def published_event_def static_recorder_def record_published_def
      publish_values_def label_values_def resolve_static tag_or_def tag_get_def dict_get_default_def publish_labels_def Let_def)

lemma otel_published_event:
  "\<exists>attrs. fst (otel_call full_otel (published_event env q n b exc)) =
    Record PublishDuration (pe_duration env) attrs # (if n \<noteq> 0 then [Add PublishMessages (of_nat n) attrs] else []) \<and>
    (\<forall>q'. sent_to q' attrs \<longleftrightarrow> q' = q) \<and> (\<forall>q' s. sent_with q' s attrs \<longleftrightarrow> q' = q \<and> s = (if exc = None then ''success'' else ''error''))"
  by (cases exc) (auto simp: otel_call_def published_event_def full_otel_def settled_events_def otel_published_def otel_attrs_def
      with_error_type_def tag_or_def tag_get_def dict_get_default_def sent_to_def sent_with_def dict_set_def update_conv'
      broker_system_def Let_def)

lemma publish_labels_inject [simp]:
  "publish_labels app custom q @ xs = publish_labels app custom q' @ ys \<longleftrightarrow> q = q' \<and> xs = ys"
  "publish_labels app custom q = publish_labels app custom q' \<longleftrightarrow> q = q'"
  by (auto simp: publish_labels_def)

text \<open>
  Property C35. The two adapters report the same publishes. Over any sequence of events of producers and
  subscribers, for each queue, the Prometheus total with the status \<open>success\<close> equals what the OpenTelemetry
  counter adds up to for that destination and status, which is the number of messages the producers
  reported, and both duration histograms record the same values in the same order, failures included.
\<close>

theorem recorders_agree_on_publishes:
  assumes "list_all published_ok evs"
  shows "metric_value PublishedTotal (publish_labels app custom q @ [TStr ''success''])
      (prometheus_run (static_recorder app custom) evs) = sum_list (map (messages_to q) evs) \<and>
    otel_added PublishMessages (sent_with q ''success'') (otel_run full_otel evs) = sum_list (map (messages_to q) evs) \<and>
    observations PublishedDuration (publish_labels app custom q) (prometheus_run (static_recorder app custom) evs) =
      otel_records PublishDuration (sent_to q) (otel_run full_otel evs)"
  using assms
proof (induction evs)
  case Nil
  then show ?case by (simp add: prometheus_run_def otel_run_def)
next
  case (Cons ev evs)
  let ?prom = "fst (prometheus_call (static_recorder app custom) ev)" and ?otel = "fst (otel_call full_otel ev)"
  have "metric_value PublishedTotal (publish_labels app custom q @ [TStr ''success'']) ?prom = messages_to q ev \<and>
    otel_added PublishMessages (sent_with q ''success'') ?otel = messages_to q ev \<and>
    observations PublishedDuration (publish_labels app custom q) ?prom = otel_records PublishDuration (sent_to q) ?otel"
  proof (cases "fst ev = ''published''")
    case False
    then show ?thesis by (simp add: other_event_prometheus other_event_otel messages_to_def)
  next
    case True
    then obtain env :: "bytes producer_env" and q0 n b exc where
      ev: "ev = published_event env q0 n b exc" "exc = None \<or> n = 0"
      using Cons.prems by (auto simp: published_ok_def)
    obtain attrs where o: "?otel = Record PublishDuration (pe_duration env) attrs #
        (if n \<noteq> 0 then [Add PublishMessages (of_nat n) attrs] else [])"
      and P: "\<And>q'. sent_to q' attrs \<longleftrightarrow> q' = q0"
        "\<And>q' s. sent_with q' s attrs \<longleftrightarrow> q' = q0 \<and> s = (if exc = None then ''success'' else ''error'')"
      using otel_published_event [of env q0 n b exc] unfolding ev by blast
    have "messages_to q ev = (if q0 = q then of_nat n else 0)"
      by (simp add: ev messages_to_def published_event_tags) (simp add: published_event_def)
    then show ?thesis using ev(2) unfolding o
      by (auto simp: ev(1) prometheus_published P metric_value_Cons split: option.split)
  qed
  then show ?case using Cons by (simp add: prometheus_run_def otel_run_def)
qed

theorem recorders_agree_on_publishes_witness:
  "metric_value PublishedTotal (publish_labels ''app'' [] ''q'' @ [TStr ''success''])
     (prometheus_run (static_recorder ''app'' []) [published_event sample_env ''q'' 2 8 None, published_event sample_env ''q'' 0 0 (Some (py_exn ''ValueError'' []))]) = 2 \<and>
   observations PublishedDuration (publish_labels ''app'' [] ''q'')
     (prometheus_run (static_recorder ''app'' []) [published_event sample_env ''q'' 2 8 None, published_event sample_env ''q'' 0 0 (Some (py_exn ''ValueError'' []))]) =
   otel_records PublishDuration (sent_to ''q'') (otel_run full_otel
     [published_event sample_env ''q'' 2 8 None, published_event sample_env ''q'' 0 0 (Some (py_exn ''ValueError'' []))])"
proof -
  let ?evs = "[published_event sample_env ''q'' 2 8 None, published_event sample_env ''q'' 0 0 (Some (py_exn ''ValueError'' []))]"
  have "published_ok (published_event sample_env ''q'' n b exc)" if "exc = None \<or> n = 0" for n b exc
    using that unfolding published_ok_def by blast
  then have "list_all published_ok ?evs" by simp
  from recorders_agree_on_publishes [OF this, of "''app''" "[]" "''q''"]
  show ?thesis by (simp add: messages_to_def published_event_tags) (simp add: published_event_def)
qed

end
