(* ===== verification/Queue_Lag.thy ===== *)
theory Queue_Lag
  imports Client
begin

text \<open>
  The opt-in sampling of queue lag: the statement that reads the age of the oldest claimable row
  (\<open>metrics/lag.py\<close>), the lease each queue is sampled with (\<open>OutboxBroker._start_queue_lag\<close>) and what
  the sampler does to its two gauges.
\<close>

section \<open>The statement\<close>

text \<open>\<open>ORDER BY next_attempt_at LIMIT 1\<close> as a scalar subquery: \<open>None\<close> is NULL.\<close>

definition oldest_due :: "time \<Rightarrow> string \<Rightarrow> (outbox_row \<Rightarrow> bool) \<Rightarrow> outbox_row list \<Rightarrow> time option" where
  "oldest_due now q lease_state rs =
     (case sort (map next_attempt_at (filter (\<lambda>r. queue r = q \<and> next_attempt_at r \<le> now \<and> lease_state r) rs)) of
        [] \<Rightarrow> None | t # ts \<Rightarrow> Some t)"

text \<open>Postgres' \<open>LEAST\<close> skips NULLs.\<close>

fun sql_least :: "time option \<Rightarrow> time option \<Rightarrow> time option" where
  "sql_least None y = y"
| "sql_least x None = x"
| "sql_least (Some x) (Some y) = Some (min x y)"

definition lag_statement :: "time \<Rightarrow> rat \<Rightarrow> string \<Rightarrow> outbox_row list \<Rightarrow> rat option \<times> time" where
  "lag_statement now ttl q rs =
     (let pending = oldest_due now q unleased rs;
          bound = (case pending of None \<Rightarrow> now | Some t \<Rightarrow> t);
          overdue = oldest_due now q (\<lambda>r. lease_expired (now - ttl) r \<and> next_attempt_at r \<le> bound) rs
      in (map_option (\<lambda>t. now - t) (sql_least pending overdue), now))"

section \<open>The sampler\<close>

text \<open>
  \<open>lease_ttl_by_queue\<close>: for each queue, in the order met, the shortest lease among its subscribers,
  which are given by their queues and their \<open>lease_ttl_seconds\<close>.
\<close>

fun lag_ttl_queues :: "string list \<Rightarrow> rat \<Rightarrow> (string \<times> rat) list \<Rightarrow> (string \<times> rat) list" where
  "lag_ttl_queues [] ttl d = d"
| "lag_ttl_queues (q # qs) ttl d = lag_ttl_queues qs ttl (dict_set q (min ttl (dict_get_default d q ttl)) d)"

fun lag_ttls :: "(string list \<times> rat) list \<Rightarrow> (string \<times> rat) list \<Rightarrow> (string \<times> rat) list" where
  "lag_ttls [] d = d"
| "lag_ttls ((qs, ttl) # subs) d = lag_ttls subs (lag_ttl_queues qs ttl d)"

text \<open>The age gauge starts as NaN; the freshness gauge holds the database time of the last success.\<close>

datatype gauge_value = NotANumber | Value rat

record lag_gauges =
  lg_age :: "(string \<times> gauge_value) list"
  lg_freshness :: "(string \<times> rat) list"

fun lag_start :: "(string \<times> rat) list \<Rightarrow> lag_gauges \<Rightarrow> lag_gauges" where
  "lag_start [] g = g"
| "lag_start ((q, ttl) # d) g =
     lag_start d (g\<lparr>lg_age := dict_set q NotANumber (lg_age g), lg_freshness := dict_set q 0 (lg_freshness g)\<rparr>)"

text \<open>
  One pass over the queues. What the database answers, or \<open>None\<close> for a failure or a timeout, may differ
  from queue to queue; \<open>delay or 0\<close> turns a NULL into 0.
\<close>

fun lag_pass :: "(string \<Rightarrow> rat \<Rightarrow> (rat option \<times> time) option) \<Rightarrow> (string \<times> rat) list \<Rightarrow> lag_gauges \<Rightarrow> lag_gauges" where
  "lag_pass answer [] g = g"
| "lag_pass answer ((q, ttl) # d) g =
     lag_pass answer d
       (case answer q ttl of
          None \<Rightarrow> g
        | Some (delay, sampled_at) \<Rightarrow>
            g\<lparr>lg_age := dict_set q (Value (case delay of None \<Rightarrow> 0 | Some x \<Rightarrow> x)) (lg_age g),
              lg_freshness := dict_set q sampled_at (lg_freshness g)\<rparr>)"

fun lag_stop :: "(string \<times> rat) list \<Rightarrow> lag_gauges \<Rightarrow> lag_gauges" where
  "lag_stop [] g = g"
| "lag_stop ((q, ttl) # d) g =
     lag_stop d (g\<lparr>lg_age := dict_pop q (lg_age g), lg_freshness := dict_pop q (lg_freshness g)\<rparr>)"

section \<open>Facts\<close>

lemma oldest_due_None: "oldest_due now q P rs = None \<longleftrightarrow>
    (\<forall>r \<in> set rs. \<not> (queue r = q \<and> next_attempt_at r \<le> now \<and> P r))"
proof -
  let ?xs = "map next_attempt_at (filter (\<lambda>r. queue r = q \<and> next_attempt_at r \<le> now \<and> P r) rs)"
  have "oldest_due now q P rs = None \<longleftrightarrow> sort ?xs = []" by (simp add: oldest_due_def split: list.split)
  also have "\<dots> \<longleftrightarrow> ?xs = []" by (simp only: length_0_conv [symmetric] length_sort)
  finally show ?thesis by (simp add: filter_empty_conv)
qed

lemma oldest_due_Some:
  assumes "oldest_due now q P rs = Some t"
  shows "(\<exists>r \<in> set rs. queue r = q \<and> next_attempt_at r \<le> now \<and> P r \<and> next_attempt_at r = t) \<and>
    (\<forall>r \<in> set rs. queue r = q \<and> next_attempt_at r \<le> now \<and> P r \<longrightarrow> t \<le> next_attempt_at r)"
proof -
  let ?xs = "map next_attempt_at (filter (\<lambda>r. queue r = q \<and> next_attempt_at r \<le> now \<and> P r) rs)"
  obtain ts where s: "sort ?xs = t # ts" using assms by (auto simp: oldest_due_def split: list.splits)
  have "set (t # ts) = set ?xs" by (simp only: s [symmetric] set_sort)
  moreover have "sorted (t # ts)" by (simp only: s [symmetric] sorted_sort)
  then have "\<forall>x \<in> set (t # ts). t \<le> x" by simp
  ultimately have "\<forall>x \<in> set ?xs. t \<le> x" "t \<in> set ?xs" by (metis, metis list.set_intros(1))
  then show ?thesis by auto
qed

lemma min_lag_ttl_queues:
  "dict_get (lag_ttl_queues qs ttl d) q =
     (if q \<in> set qs then Some (min ttl (dict_get_default d q ttl)) else dict_get d q)"
proof (induction qs arbitrary: d)
  case (Cons p qs)
  then show ?case by (auto simp: dict_get_default_def split: option.split)
qed simp

lemma lag_ttls_lower:
  "dict_get (lag_ttls subs d) q = Some ttl \<Longrightarrow>
     (\<forall>t \<in> set_option (dict_get d q). ttl \<le> t) \<and> (\<forall>(qs, t) \<in> set subs. q \<in> set qs \<longrightarrow> ttl \<le> t)"
proof (induction subs d rule: lag_ttls.induct)
  case (2 qs t subs d)
  then show ?case by (auto simp: min_lag_ttl_queues dict_get_default_def split: if_splits option.splits)
qed simp

lemma lag_ttls_attained:
  "dict_get (lag_ttls subs d) q = Some ttl \<Longrightarrow>
     dict_get d q = Some ttl \<or> (\<exists>(qs, t) \<in> set subs. q \<in> set qs \<and> t = ttl)"
proof (induction subs d rule: lag_ttls.induct)
  case (2 qs t subs d)
  then show ?case by (auto simp: min_lag_ttl_queues dict_get_default_def min_def split: if_splits option.splits)
qed simp

lemma lag_ttls_served: "(\<exists>(qs, t) \<in> set subs. q \<in> set qs) \<or> dict_get d q \<noteq> None \<Longrightarrow> dict_get (lag_ttls subs d) q \<noteq> None"
proof (induction subs d rule: lag_ttls.induct)
  case (2 qs t subs d)
  then show ?case by (cases "q \<in> set qs") (auto simp: min_lag_ttl_queues)
qed simp

lemma available_mono: "available now t qs r \<Longrightarrow> ttl \<le> t \<Longrightarrow> available now ttl qs r"
  by (auto simp: available_def lease_expired_def split: option.splits)

lemma lag_pass_other: "q \<notin> fst ` set d \<Longrightarrow> dict_get (lg_age (lag_pass answer d g)) q = dict_get (lg_age g) q \<and>
    dict_get (lg_freshness (lag_pass answer d g)) q = dict_get (lg_freshness g) q"
  by (induction answer d g rule: lag_pass.induct) (auto split: option.split prod.split)

lemma lag_pass_sampled:
  assumes "distinct (map fst d)" and "(q, ttl) \<in> set d"
  shows "dict_get (lg_age (lag_pass answer d g)) q =
      (case answer q ttl of None \<Rightarrow> dict_get (lg_age g) q
       | Some (delay, sampled) \<Rightarrow> Some (Value (case delay of None \<Rightarrow> 0 | Some x \<Rightarrow> x))) \<and>
    dict_get (lg_freshness (lag_pass answer d g)) q =
      (case answer q ttl of None \<Rightarrow> dict_get (lg_freshness g) q | Some (delay, sampled) \<Rightarrow> Some sampled)"
  using assms
proof (induction answer d g rule: lag_pass.induct)
  case (2 answer q' ttl' d g)
  show ?case
  proof (cases "q = q'")
    case True
    with 2 have "ttl' = ttl" "q \<notin> fst ` set d" by force+
    with True show ?thesis by (auto simp: lag_pass_other split: option.split)
  next
    case False
    then show ?thesis using 2 by (auto split: option.split prod.split)
  qed
qed simp

lemma distinct_lag_ttls: "distinct (map fst d) \<Longrightarrow> distinct (map fst (lag_ttls subs d))"
proof (induction subs d rule: lag_ttls.induct)
  case (2 qs ttl subs d)
  have "distinct (map fst d) \<Longrightarrow> distinct (map fst (lag_ttl_queues qs ttl d))" for d
    by (induction qs arbitrary: d) simp_all
  with 2 show ?case by simp
qed simp

section \<open>The property\<close>

lemma lag_statement_None:
  "fst (lag_statement now ttl q rs) = None \<longleftrightarrow> (\<forall>r \<in> set rs. \<not> available now ttl [q] r)"
proof -
  let ?p = "oldest_due now q unleased rs"
  have least: "sql_least x y = None \<longleftrightarrow> x = None \<and> y = None" for x y by (cases x; cases y) simp_all
  show ?thesis
  proof (cases ?p)
    case None
    then have "fst (lag_statement now ttl q rs) = None \<longleftrightarrow>
        oldest_due now q (\<lambda>r. lease_expired (now - ttl) r \<and> next_attempt_at r \<le> now) rs = None"
      by (simp add: lag_statement_def Let_def)
    with None show ?thesis by (auto simp: oldest_due_None available_def)
  next
    case (Some p)
    then have "fst (lag_statement now ttl q rs) \<noteq> None" by (simp add: lag_statement_def Let_def least)
    with oldest_due_Some [OF Some] show ?thesis by (auto simp: available_def)
  qed
qed

lemma lag_statement_Some:
  assumes "fst (lag_statement now ttl q rs) = Some d"
  shows "(\<exists>r \<in> set rs. available now ttl [q] r \<and> next_attempt_at r = now - d) \<and>
    (\<forall>r \<in> set rs. available now ttl [q] r \<longrightarrow> now - d \<le> next_attempt_at r)"
proof (cases "oldest_due now q unleased rs")
  case None
  then have "oldest_due now q (\<lambda>r. lease_expired (now - ttl) r \<and> next_attempt_at r \<le> now) rs = Some (now - d)"
    using assms by (auto simp: lag_statement_def Let_def)
  from oldest_due_Some [OF this] show ?thesis using None [unfolded oldest_due_None] by (auto simp: available_def)
next
  case (Some p)
  note pend = oldest_due_Some [OF Some]
  show ?thesis
  proof (cases "oldest_due now q (\<lambda>r. lease_expired (now - ttl) r \<and> next_attempt_at r \<le> p) rs")
    case None
    then have "p = now - d" using assms Some by (auto simp: lag_statement_def Let_def)
    moreover have "p \<le> next_attempt_at r" if "r \<in> set rs" "available now ttl [q] r" for r
      using that pend None [unfolded oldest_due_None] by (cases "next_attempt_at r \<le> p") (auto simp: available_def)
    ultimately show ?thesis using pend by (auto simp: available_def)
  next
    case (Some e)
    note over = oldest_due_Some [OF this]
    then have e: "e \<le> p" by auto
    then have "e = now - d" using assms Some \<open>oldest_due now q unleased rs = Some p\<close>
      by (auto simp: lag_statement_def Let_def min_def split: if_splits)
    moreover have "e \<le> next_attempt_at r" if "r \<in> set rs" "available now ttl [q] r" for r
      using that pend over e by (cases "next_attempt_at r \<le> p") (auto simp: available_def)
    ultimately show ?thesis using over by (auto simp: available_def)
  qed
qed

text \<open>
  Property C36. The lag that is sampled is the lag that is fetched: for every queue the statement with
  its two bounded subqueries yields exactly the age of the row a fetch would claim first, and NULL
  exactly when a fetch would claim none. The lease it samples with is the right one when subscribers
  with different leases share the queue: a row counts exactly when one of them could claim it. A pass
  publishes that age and the database's time, or leaves both gauges alone when the query fails.
\<close>

theorem queue_lag_matches_fetch:
  assumes "distinct (map row_id rs)" and "dict_get (lag_ttls subs []) q = Some ttl"
  shows "lag_statement now ttl q rs =
      (case ready now ttl 1 {} [q] rs of [] \<Rightarrow> None | r # others \<Rightarrow> Some (now - next_attempt_at r), now) \<and>
    {r \<in> set rs. available now ttl [q] r} =
      {r \<in> set rs. queue r = q \<and> (\<exists>(qs, t) \<in> set subs. q \<in> set qs \<and> available now t qs r)} \<and>
    (let g' = lag_pass answer (lag_ttls subs []) g
     in (dict_get (lg_age g') q, dict_get (lg_freshness g') q) =
       (case answer q ttl of
          None \<Rightarrow> (dict_get (lg_age g) q, dict_get (lg_freshness g) q)
        | Some (delay, sampled) \<Rightarrow> (Some (Value (case delay of None \<Rightarrow> 0 | Some x \<Rightarrow> x)), Some sampled)))"
proof (intro conjI)
  let ?A = "filter (available now ttl [q]) rs"
  have ready: "ready now ttl 1 {} [q] rs = top_by fetch_key 1 ?A" using ready_eq [OF assms(1)] by simp
  show "lag_statement now ttl q rs =
      (case ready now ttl 1 {} [q] rs of [] \<Rightarrow> None | r # others \<Rightarrow> Some (now - next_attempt_at r), now)"
  proof (cases "fst (lag_statement now ttl q rs)")
    case None
    then have "?A = []" by (simp add: lag_statement_None filter_empty_conv)
    then have "ready now ttl 1 {} [q] rs = []" by (simp only: ready) (simp add: top_by_def)
    moreover have "snd (lag_statement now ttl q rs) = now" by (simp add: lag_statement_def Let_def)
    ultimately show ?thesis using None by (simp add: prod_eq_iff)
  next
    case (Some d)
    note d = lag_statement_Some [OF Some]
    then have "?A \<noteq> []" by (auto simp: filter_empty_conv)
    then have "length (top_by fetch_key 1 ?A) = 1" by (cases ?A) (simp_all add: length_top_by)
    then obtain r where r: "top_by fetch_key 1 ?A = [r]" by (auto simp: length_Suc_conv)
    then have "r \<in> set ?A" using set_top_by [of fetch_key 1 ?A] by simp
    moreover have "fetch_key r \<le> fetch_key y" if "y \<in> set ?A" for y
      using top_by_least [of r fetch_key 1 ?A y] that r by (cases "y = r") simp_all
    then have "next_attempt_at r \<le> next_attempt_at y" if "y \<in> set ?A" for y
      using that by (fastforce simp: fetch_key_def less_eq_prod_def)
    ultimately have "next_attempt_at r = now - d" using d by fastforce
    moreover have "ready now ttl 1 {} [q] rs = [r]" by (simp only: ready r)
    moreover have "snd (lag_statement now ttl q rs) = now" by (simp add: lag_statement_def Let_def)
    ultimately show ?thesis using Some by (simp add: prod_eq_iff)
  qed
next
  show "{r \<in> set rs. available now ttl [q] r} =
      {r \<in> set rs. queue r = q \<and> (\<exists>(qs, t) \<in> set subs. q \<in> set qs \<and> available now t qs r)}"
    using lag_ttls_lower [OF assms(2)] lag_ttls_attained [OF assms(2)]
    by (fastforce simp: available_def lease_expired_def split: option.splits)
next
  have "distinct (map fst (lag_ttls subs []))" by (simp add: distinct_lag_ttls)
  moreover have "(q, ttl) \<in> set (lag_ttls subs [])" using assms(2) by (rule map_of_SomeD)
  ultimately show "let g' = lag_pass answer (lag_ttls subs []) g
     in (dict_get (lg_age g') q, dict_get (lg_freshness g') q) =
       (case answer q ttl of
          None \<Rightarrow> (dict_get (lg_age g) q, dict_get (lg_freshness g) q)
        | Some (delay, sampled) \<Rightarrow> (Some (Value (case delay of None \<Rightarrow> 0 | Some x \<Rightarrow> x)), Some sampled))"
    using lag_pass_sampled by (auto simp: Let_def split: option.split)
qed

definition lag_rows :: "outbox_row list" where
  "lag_rows = [new_row 1 0 ''q'' [1] None 5 None, claim_row 0 7 (new_row 2 0 ''q'' [2] None 3 None)]"

theorem queue_lag_matches_fetch_witness:
  "lag_statement 40 30 ''q'' lag_rows =
     (case ready 40 30 1 {} [''q''] lag_rows of [] \<Rightarrow> None | r # others \<Rightarrow> Some (40 - next_attempt_at r), 40) \<and>
   dict_get (lg_age (lag_pass (\<lambda>q ttl. Some (lag_statement 40 ttl q lag_rows)) (lag_ttls [([''q'', ''r''], 60), ([''q''], 30)] [])
     \<lparr>lg_age = [], lg_freshness = []\<rparr>)) ''q'' = Some (Value 37)"
proof -
  have "dict_get (lag_ttls [([''q'', ''r''], 60), ([''q''], 30)] []) ''q'' = Some (30 :: rat)"
    by (simp add: dict_get_default_def)
  moreover have "distinct (map row_id lag_rows)" by (simp add: lag_rows_def new_row_def)
  moreover have "lag_statement 40 30 ''q'' lag_rows = (Some 37, 40)"
    by (simp add: lag_statement_def lag_rows_def oldest_due_def unleased_def lease_expired_def new_row_def claim_row_def Let_def)
  ultimately show ?thesis
    using queue_lag_matches_fetch [THEN conjunct1, of lag_rows "[([''q'', ''r''], 60), ([''q''], 30)]" "''q''" 30 40]
      queue_lag_matches_fetch [THEN conjunct2, THEN conjunct2, unfolded Let_def prod.inject, of lag_rows
        "[([''q'', ''r''], 60), ([''q''], 30)]" "''q''" 30
        "\<lambda>q ttl. Some (lag_statement 40 ttl q lag_rows)" "\<lparr>lg_age = [], lg_freshness = []\<rparr>"]
    by (simp del: lag_ttls.simps lag_ttl_queues.simps lag_pass.simps)
qed

end
