(* ===== verification/Autovacuum.thy ===== *)
theory Autovacuum
  imports Prelude
begin

text \<open>
  The autovacuum settings of the outbox table (\<open>autovacuum.py\<close>): the statement a migration runs, and
  the check that reads the settings back from \<open>pg_class.reloptions\<close>. SQLAlchemy's quoting of
  identifiers is an argument.
\<close>

section \<open>Numbers as text\<close>

text \<open>\<open>str\<close> of an integer.\<close>

definition digit :: "nat \<Rightarrow> char" where
  "digit n = char_of (48 + n mod 10)"

fun nat_text :: "nat \<Rightarrow> string" where
  "nat_text n = (if n < 10 then [digit n] else nat_text (n div 10) @ [digit n])"

declare nat_text.simps [simp del]

definition int_text :: "int \<Rightarrow> string" where
  "int_text n = (if n < 0 then ''-'' @ nat_text (nat (- n)) else nat_text (nat n))"

text \<open>
  \<open>float\<close> of a decimal numeral: a sign, digits with at most one point, an exponent; \<open>None\<close> is the
  \<open>ValueError\<close>. The other spellings Python accepts (blanks around the number, underscores, \<open>inf\<close>,
  \<open>nan\<close>) cannot be reloptions, and the value is exact.
\<close>

definition is_digit :: "char \<Rightarrow> bool" where
  "is_digit c \<longleftrightarrow> 48 \<le> (of_char c :: nat) \<and> (of_char c :: nat) \<le> 57"

definition digits_value :: "string \<Rightarrow> int" where
  "digits_value ds = foldl (\<lambda>n c. 10 * n + (int (of_char c) - 48)) 0 ds"

definition signed :: "string \<Rightarrow> int \<times> string" where
  "signed s = (case s of [] \<Rightarrow> (1, s)
     | c # cs \<Rightarrow> if c = CHR ''-'' then (-1, cs) else if c = CHR ''+'' then (1, cs) else (1, s))"

definition exponent_value :: "string \<Rightarrow> int option" where
  "exponent_value s =
     (case s of
        [] \<Rightarrow> Some 0
      | e # rest \<Rightarrow>
          let (sg, ds) = signed rest
          in if e \<in> {CHR ''e'', CHR ''E''} \<and> ds \<noteq> [] \<and> list_all is_digit ds then Some (sg * digits_value ds) else None)"

definition power_ten :: "int \<Rightarrow> rat" where
  "power_ten n = (if 0 \<le> n then 10 ^ nat n else 1 / 10 ^ nat (- n))"

definition float_of_text :: "string \<Rightarrow> rat option" where
  "float_of_text s =
     (let (sg, body) = signed s;
          whole = takeWhile is_digit body;
          rest = dropWhile is_digit body;
          (frac, rest') = (case rest of
             c # cs \<Rightarrow> if c = CHR ''.'' then (takeWhile is_digit cs, dropWhile is_digit cs) else ([], rest)
           | [] \<Rightarrow> ([], rest))
      in if whole = [] \<and> frac = [] then None
         else map_option (\<lambda>e. of_int (sg * digits_value (whole @ frac)) * power_ten (e - int (length frac)))
                (exponent_value rest'))"

section \<open>The statement\<close>

definition scale_factor_keys :: "string list" where
  "scale_factor_keys = [''autovacuum_vacuum_scale_factor'', ''autovacuum_vacuum_insert_scale_factor'']"

definition vacuum_threshold_key :: string where
  "vacuum_threshold_key = ''autovacuum_vacuum_threshold''"

definition insert_threshold_key :: string where
  "insert_threshold_key = ''autovacuum_vacuum_insert_threshold''"

definition autovacuum_options :: "int \<Rightarrow> int \<Rightarrow> int option \<Rightarrow> int option \<Rightarrow> (string \<times> string) list" where
  "autovacuum_options vacuum_threshold insert_threshold cost_delay cost_limit =
     [(scale_factor_keys ! 0, ''0''), (vacuum_threshold_key, int_text vacuum_threshold),
      (scale_factor_keys ! 1, ''0''), (insert_threshold_key, int_text insert_threshold)] @
     (case cost_delay of None \<Rightarrow> [] | Some n \<Rightarrow> [(''autovacuum_vacuum_cost_delay'', int_text n)]) @
     (case cost_limit of None \<Rightarrow> [] | Some n \<Rightarrow> [(''autovacuum_vacuum_cost_limit'', int_text n)])"

text \<open>\<open>', '.join(...)\<close>.\<close>

fun join_text :: "string \<Rightarrow> string list \<Rightarrow> string" where
  "join_text sep [] = []"
| "join_text sep [x] = x"
| "join_text sep (x # y # ys) = x @ sep @ join_text sep (y # ys)"

definition outbox_autovacuum_ddl :: "(string \<Rightarrow> string) \<Rightarrow> string \<Rightarrow> string option \<Rightarrow> int \<Rightarrow> int \<Rightarrow> int option \<Rightarrow>
    int option \<Rightarrow> string" where
  "outbox_autovacuum_ddl quote table_name schema vacuum_threshold insert_threshold cost_delay cost_limit =
     (let quoted_name = (case schema of None \<Rightarrow> quote table_name | Some s \<Rightarrow> quote s @ ''.'' @ quote table_name);
          settings = join_text '', '' (map (\<lambda>(k, v). k @ '' = '' @ v)
            (autovacuum_options vacuum_threshold insert_threshold cost_delay cost_limit))
      in ''ALTER TABLE '' @ quoted_name @ '' SET ('' @ settings @ '')'')"

section \<open>The check\<close>

text \<open>\<open>item.partition('=')\<close>, of which the separator is dropped.\<close>

definition partition_eq :: "string \<Rightarrow> string \<times> string" where
  "partition_eq item = (takeWhile (\<lambda>c. c \<noteq> CHR ''='') item, drop 1 (dropWhile (\<lambda>c. c \<noteq> CHR ''='') item))"

definition parse_reloptions :: "string list option \<Rightarrow> (string \<times> string) list" where
  "parse_reloptions reloptions =
     (case reloptions of
        None \<Rightarrow> []
      | Some items \<Rightarrow> foldl (\<lambda>d item. let (k, v) = partition_eq item in dict_set k v d) [] items)"

datatype finding = Unset string | NotZero string string

text \<open>The loop over the scale factors; \<open>float\<close> may raise on a value that is no number.\<close>

fun scale_findings :: "(string \<times> string) list \<Rightarrow> string list \<Rightarrow> exn + finding list" where
  "scale_findings opts [] = Inr []"
| "scale_findings opts (k # ks) =
     (case dict_get opts k of
        None \<Rightarrow> map_sum (\<lambda>e. e) (Cons (Unset k)) (scale_findings opts ks)
      | Some v \<Rightarrow>
          (case float_of_text v of
             None \<Rightarrow> Inl (py_exn ''ValueError'' v)
           | Some x \<Rightarrow> if x \<noteq> 0 then map_sum (\<lambda>e. e) (Cons (NotZero k v)) (scale_findings opts ks)
               else scale_findings opts ks))"

definition autovacuum_findings :: "string list option \<Rightarrow> exn + finding list" where
  "autovacuum_findings reloptions =
     (let opts = parse_reloptions reloptions
      in map_sum (\<lambda>e. e)
           (\<lambda>fs. fs @ map Unset (filter (\<lambda>k. \<not> dict_has opts k) [vacuum_threshold_key, insert_threshold_key]))
           (scale_findings opts scale_factor_keys))"

section \<open>Facts\<close>

text \<open>
  What \<open>ALTER TABLE ... SET\<close> does to the stored options: those that are set again are dropped from the
  old ones, and the new ones follow as \<open>key=value\<close>.
\<close>

definition set_reloptions :: "(string \<times> string) list \<Rightarrow> string list option \<Rightarrow> string list option" where
  "set_reloptions opts old =
     Some (filter (\<lambda>item. fst (partition_eq item) \<notin> fst ` set opts) (case old of None \<Rightarrow> [] | Some items \<Rightarrow> items) @
           map (\<lambda>(k, v). k @ ''='' @ v) opts)"

lemma partition_eq_item [simp]: "CHR ''='' \<notin> set k \<Longrightarrow> partition_eq (k @ CHR ''='' # v) = (k, v)"
  by (induction k) (auto simp: partition_eq_def)

lemma get_parse_items:
  "dict_get (foldl (\<lambda>d item. let (k, v) = partition_eq item in dict_set k v d) d items) k =
     (case dict_get (rev (map partition_eq items)) k of Some v \<Rightarrow> Some v | None \<Rightarrow> dict_get d k)"
  by (induction items arbitrary: d) (auto simp: Let_def case_prod_unfold map_add_def split: option.split)

lemma get_parse_set_reloptions:
  assumes "\<forall>(k, v) \<in> set opts. CHR ''='' \<notin> set k" and "distinct (map fst opts)"
  shows "dict_get (parse_reloptions (set_reloptions opts old)) k =
    (case dict_get opts k of Some v \<Rightarrow> Some v | None \<Rightarrow> dict_get (parse_reloptions old) k)"
proof -
  let ?old = "case old of None \<Rightarrow> [] | Some items \<Rightarrow> items"
  have new: "map partition_eq (map (\<lambda>(k, v). k @ ''='' @ v) opts) = opts"
    using assms(1) by (induction opts) auto
  have "map_of (rev opts) = map_of opts"
    using assms(2) by (intro map_of_inject_set [THEN iffD2]) (simp_all add: rev_map [symmetric])
  then have rev: "dict_get (rev opts) k = dict_get opts k" by simp
  have old: "dict_get (rev (map partition_eq (filter (\<lambda>item. fst (partition_eq item) \<notin> fst ` set opts) items))) k =
      (if k \<in> fst ` set opts then None else dict_get (rev (map partition_eq items)) k)" for items
    by (induction items) (auto simp: map_add_def split: option.split)
  have parse: "dict_get (parse_reloptions x) k = dict_get (rev (map partition_eq (case x of None \<Rightarrow> [] | Some items \<Rightarrow> items))) k" for x
    using get_parse_items [of "[]"] by (simp add: parse_reloptions_def split: option.split)
  show ?thesis
  proof (cases "dict_get opts k")
    case None
    then have "k \<notin> fst ` set opts" by (simp add: map_of_eq_None_iff)
    then show ?thesis unfolding parse set_reloptions_def option.case map_append rev_append map_of_append new old map_add_def
      using None rev by simp
  next
    case (Some v)
    then show ?thesis unfolding parse set_reloptions_def option.case map_append rev_append map_of_append new map_add_def
      using rev by simp
  qed
qed

lemma scale_findings_nil:
  "scale_findings opts ks = Inr [] \<longleftrightarrow> (\<forall>k \<in> set ks. \<exists>v. dict_get opts k = Some v \<and> float_of_text v = Some 0)"
proof (induction ks)
  case (Cons k ks)
  then show ?case by (cases "scale_findings opts ks") (auto split: option.split)
qed simp

lemma autovacuum_findings_nil:
  "autovacuum_findings x = Inr [] \<longleftrightarrow>
     (\<forall>k \<in> set scale_factor_keys. \<exists>v. dict_get (parse_reloptions x) k = Some v \<and> float_of_text v = Some 0) \<and>
     dict_has (parse_reloptions x) vacuum_threshold_key \<and> dict_has (parse_reloptions x) insert_threshold_key"
  unfolding scale_findings_nil [symmetric] autovacuum_findings_def
  by (cases "scale_findings (parse_reloptions x) scale_factor_keys") (auto simp: Let_def)

lemma float_zero: "float_of_text ''0'' = Some 0"
  by (simp add: float_of_text_def signed_def is_digit_def digits_value_def exponent_value_def power_ten_def)

lemmas autovacuum_key_defs = scale_factor_keys_def vacuum_threshold_key_def insert_threshold_key_def

section \<open>The property\<close>

text \<open>
  Property C40. The statement and the check agree: whatever options a table had, after the recommended
  statement with any thresholds and any cost settings the check finds nothing, every option it sets
  reads back with its value and every other one keeps its own. The check in turn passes exactly the tables
  whose two scale factors are set to zero, in any notation, and whose two thresholds are set.
\<close>

theorem autovacuum_ddl_passes_check:
  "autovacuum_findings (set_reloptions (autovacuum_options vt it cost_delay cost_limit) old) = Inr [] \<and>
   dict_get (parse_reloptions (set_reloptions (autovacuum_options vt it cost_delay cost_limit) old)) k =
     (case dict_get (autovacuum_options vt it cost_delay cost_limit) k of
        Some v \<Rightarrow> Some v | None \<Rightarrow> dict_get (parse_reloptions old) k) \<and>
   (autovacuum_findings live = Inr [] \<longleftrightarrow>
      list_all (\<lambda>k. map_option float_of_text (dict_get (parse_reloptions live) k) = Some (Some 0)) scale_factor_keys \<and>
      list_all (dict_has (parse_reloptions live)) [vacuum_threshold_key, insert_threshold_key])"
proof -
  let ?opts = "autovacuum_options vt it cost_delay cost_limit"
  have keys: "\<forall>(k, v) \<in> set ?opts. CHR ''='' \<notin> set k" "distinct (map fst ?opts)"
    by (auto simp: autovacuum_options_def autovacuum_key_defs split: option.split)
  note get = get_parse_set_reloptions [OF this]
  have "autovacuum_findings (set_reloptions ?opts old) = Inr []"
    unfolding autovacuum_findings_nil get
    by (simp add: autovacuum_options_def autovacuum_key_defs float_zero)
  then show ?thesis by (auto simp: get autovacuum_findings_nil list_all_iff)
qed

end
