(* ===== verification/Schema_Validation.thy ===== *)
theory Schema_Validation
  imports Schema Autovacuum
begin

text \<open>
  The opt-in check that the live tables have the shape the package needs (\<open>schema_validation.py\<close>).
  What Postgres' catalogs answer, Alembic's diff and the name lookup through the search path are the
  inputs; an error is a value that carries what its message quotes.
\<close>

section \<open>Predicates as text\<close>

definition lower_char :: "char \<Rightarrow> char" where
  "lower_char c = (let n = (of_char c :: nat)
     in if 65 \<le> n \<and> n \<le> 90 \<or> 192 \<le> n \<and> n \<le> 222 \<and> n \<noteq> 215 then char_of (n + 32) else c)"

text \<open>The characters below 256 that \<open>str.split()\<close> splits at.\<close>

definition py_space :: "char \<Rightarrow> bool" where
  "py_space c \<longleftrightarrow> (of_char c :: nat) \<in> {9, 10, 11, 12, 13, 28, 29, 30, 31, 32, 133, 160}"

fun split_from :: "string \<Rightarrow> string \<Rightarrow> string list" where
  "split_from w [] = (if w = [] then [] else [w])"
| "split_from w (c # cs) =
     (if py_space c then (if w = [] then split_from [] cs else w # split_from [] cs) else split_from (w @ [c]) cs)"

definition split_words :: "string \<Rightarrow> string list" where
  "split_words s = split_from [] s"

text \<open>\<open>_normalize_predicate\<close>: lower case, parentheses and runs of blanks as one blank.\<close>

definition clean_predicate :: "string \<Rightarrow> string" where
  "clean_predicate s = map (\<lambda>c. if c = CHR ''('' \<or> c = CHR '')'' then CHR '' '' else c) (map lower_char s)"

definition normalize_predicate :: "string \<Rightarrow> string" where
  "normalize_predicate s = join_text '' '' (split_words (clean_predicate s))"

section \<open>The probes\<close>

datatype drift_error = NotPartial string string | WrongPredicate string string string | NotUnique string
  | MissingCheck string string | MissingTable string | MissingColumn string string
  | TypeMismatch string string string string | NullabilityMismatch string string
  | MissingIndex string "string list" string bool "string option"

definition pending_idx_suffix :: string where
  "pending_idx_suffix = ''_pending_idx''"

definition timer_id_uq_suffix :: string where
  "timer_id_uq_suffix = ''_timer_id_uq''"

definition leased_idx_suffix :: string where
  "leased_idx_suffix = ''_leased_idx''"

definition lease_ck_suffix :: string where
  "lease_ck_suffix = ''_lease_ck''"

definition expected_index_predicates :: "(string \<times> string) list" where
  "expected_index_predicates =
     [(pending_idx_suffix, ''acquired_token is null''), (timer_id_uq_suffix, ''timer_id is not null''),
      (leased_idx_suffix, ''acquired_token is not null'')]"

definition expected_unique_indexes :: "string list" where
  "expected_unique_indexes = [timer_id_uq_suffix]"

text \<open>A row of \<open>_INDEX_PREDICATE_QUERY\<close>; no predicate is an index that is not partial.\<close>

record live_index =
  li_name :: string
  li_predicate :: "string option"
  li_unique :: bool

definition live_indexes :: "live_index list \<Rightarrow> (string \<times> live_index) list" where
  "live_indexes rows = foldl (\<lambda>d row. dict_set (li_name row) row d) [] rows"

definition index_errors :: "string \<Rightarrow> (string \<times> live_index) list \<Rightarrow> string \<times> string \<Rightarrow> drift_error list" where
  "index_errors table_name live expected =
     (let (suffx, want) = expected; name = table_name @ suffx
      in case dict_get live name of
           None \<Rightarrow> []
         | Some row \<Rightarrow>
             (case li_predicate row of
                None \<Rightarrow> [NotPartial name want]
              | Some p \<Rightarrow> if normalize_predicate p \<noteq> want then [WrongPredicate name want (normalize_predicate p)] else []) @
             (if suffx \<in> set expected_unique_indexes \<and> \<not> li_unique row then [NotUnique name] else []))"

definition validate_index_predicates :: "string \<Rightarrow> live_index list \<Rightarrow> drift_error list" where
  "validate_index_predicates table_name rows =
     concat (map (index_errors table_name (live_indexes rows)) expected_index_predicates)"

definition expected_check_constraints :: "(string \<times> string) list" where
  "expected_check_constraints = [(lease_ck_suffix, ''acquired_token is null = acquired_at is null'')]"

text \<open>\<open>_normalize_predicate(definition).removeprefix('check ').strip()\<close>; the rows are name and definition.\<close>

definition remove_prefix :: "string \<Rightarrow> string \<Rightarrow> string" where
  "remove_prefix p s = (if take (length p) s = p then drop (length p) s else s)"

definition strip_text :: "string \<Rightarrow> string" where
  "strip_text s = rev (dropWhile py_space (rev (dropWhile py_space s)))"

definition check_predicate :: "string \<Rightarrow> string" where
  "check_predicate s = strip_text (remove_prefix ''check '' (normalize_predicate s))"

definition validate_check_constraints :: "string \<Rightarrow> (string \<times> string) list \<Rightarrow> drift_error list" where
  "validate_check_constraints table_name rows =
     map (\<lambda>(suffx, want). MissingCheck want (table_name @ suffx))
       (filter (\<lambda>(suffx, want). want \<notin> set (map (check_predicate \<circ> snd) rows)) expected_check_constraints)"

section \<open>Alembic's diff\<close>

text \<open>An operation of the diff, and an entry: a table operation or the list of a table's other ones.\<close>

datatype drift_op = AddTable | AddColumn string | ModifyType string string string | ModifyNullable string
  | AddIndex string "string list" bool | OtherOp string

datatype diff_entry = TableOp drift_op | NestedOps "drift_op list"

definition ends_with :: "string \<Rightarrow> string \<Rightarrow> bool" where
  "ends_with s t \<longleftrightarrow> length t \<le> length s \<and> drop (length s - length t) s = t"

definition pending_idx_upgrade_url :: string where
  "pending_idx_upgrade_url = ''https://faststream-outbox.modern-python.org/operations/alembic/#upgrading-to-015''"

definition leased_idx_upgrade_url :: string where
  "leased_idx_upgrade_url = ''https://faststream-outbox.modern-python.org/operations/alembic/#upgrading-to-017''"

fun drift_entry_to_error :: "string \<Rightarrow> drift_op \<Rightarrow> drift_error option" where
  "drift_entry_to_error t AddTable = Some (MissingTable t)"
| "drift_entry_to_error t (AddColumn col) = Some (MissingColumn t col)"
| "drift_entry_to_error t (ModifyType col existing expected) = Some (TypeMismatch t col expected existing)"
| "drift_entry_to_error t (ModifyNullable col) = Some (NullabilityMismatch t col)"
| "drift_entry_to_error t (AddIndex name cols unique) =
     Some (MissingIndex t cols name unique
       (if ends_with name pending_idx_suffix then Some pending_idx_upgrade_url
        else if ends_with name leased_idx_suffix then Some leased_idx_upgrade_url else None))"
| "drift_entry_to_error t (OtherOp op) = None"

fun flatten_drift_errors :: "diff_entry list \<Rightarrow> string \<Rightarrow> drift_error list" where
  "flatten_drift_errors [] t = []"
| "flatten_drift_errors (entry # diff) t =
     (case entry of
        NestedOps ops \<Rightarrow> List.map_filter (drift_entry_to_error t) ops
      | TableOp op \<Rightarrow> (case drift_entry_to_error t op of None \<Rightarrow> [] | Some e \<Rightarrow> [e])) @ flatten_drift_errors diff t"

text \<open>
  \<open>_include_name\<close>: what Alembic reflects. It reports the default schema as \<open>None\<close>, so the schema the
  table resolves to is normalized the same way.
\<close>

datatype name_kind = SchemaName | TableName | MemberName string

definition include_name :: "string option \<Rightarrow> string option \<Rightarrow> string \<Rightarrow> string option \<Rightarrow> name_kind \<Rightarrow> bool" where
  "include_name default_schema schema table_name name kind =
     (let target_schema = (if schema = default_schema then None else schema)
      in case kind of
           SchemaName \<Rightarrow> name = target_schema
         | TableName \<Rightarrow> name = Some table_name
         | MemberName parent \<Rightarrow> parent = table_name)"

section \<open>The whole check\<close>

text \<open>
  What the database and Alembic answer for one connection: where an unqualified name resolves, the
  default schema, the catalog rows and the options of a table in a schema, and the diff against the
  outbox or the dead-letter table as the \<open>include_name\<close> filter lets it through.
\<close>

datatype canonical = OutboxTable | DlqTable

record catalog =
  ca_alembic :: bool
  ca_resolve :: "string \<Rightarrow> string option"
  ca_default_schema :: "string option"
  ca_indexes :: "string \<Rightarrow> string option \<Rightarrow> live_index list"
  ca_checks :: "string \<Rightarrow> string option \<Rightarrow> (string \<times> string) list"
  ca_reloptions :: "string \<Rightarrow> string option \<Rightarrow> string list option"
  ca_diff :: "canonical \<Rightarrow> string option \<Rightarrow> string \<Rightarrow> (string option \<Rightarrow> name_kind \<Rightarrow> bool) \<Rightarrow> diff_entry list"

record table_ref =
  tr_name :: string
  tr_schema :: "string option"

definition resolve_schema :: "catalog \<Rightarrow> table_ref \<Rightarrow> string option" where
  "resolve_schema ca t = (if tr_schema t \<noteq> None then tr_schema t else ca_resolve ca (tr_name t))"

definition run_validate :: "catalog \<Rightarrow> table_ref \<Rightarrow> string option \<Rightarrow> canonical \<Rightarrow> exn + drift_error list" where
  "run_validate ca t schema canonical =
     (if \<not> ca_alembic ca then Inl (py_exn ''ImportError'' ''validate_schema() requires alembic'')
      else Inr (flatten_drift_errors
             (ca_diff ca canonical schema (tr_name t) (include_name (ca_default_schema ca) schema (tr_name t)))
             (tr_name t)))"

datatype message_part = SchemaMismatch "drift_error list" bool | AutovacuumNotTuned "finding list"

text \<open>
  \<open>validate_schema\<close>: an exception from a probe, or the parts of the \<open>RuntimeError\<close>; no part is success.
  A mismatch is composed with the hint on hand-written migrations if a probe Alembic is blind to fired.
\<close>

definition validate_schema :: "catalog \<Rightarrow> table_ref \<Rightarrow> table_ref option \<Rightarrow> bool \<Rightarrow> exn + message_part list" where
  "validate_schema ca t dlq check_autovacuum =
     (let schema = resolve_schema ca t
      in case run_validate ca t schema OutboxTable of
           Inl e \<Rightarrow> Inl e
         | Inr errors0 \<Rightarrow>
             let blind_errors = validate_index_predicates (tr_name t) (ca_indexes ca (tr_name t) schema) @
                   validate_check_constraints (tr_name t) (ca_checks ca (tr_name t) schema)
             in case (case dlq of None \<Rightarrow> Inr [] | Some d \<Rightarrow> run_validate ca d (resolve_schema ca d) DlqTable) of
                  Inl e \<Rightarrow> Inl e
                | Inr dlq_errors \<Rightarrow>
                    let errors = errors0 @ blind_errors @ dlq_errors
                    in case (if check_autovacuum then autovacuum_findings (ca_reloptions ca (tr_name t) schema) else Inr []) of
                         Inl e \<Rightarrow> Inl e
                       | Inr findings \<Rightarrow>
                           Inr ((if errors \<noteq> [] then [SchemaMismatch errors (blind_errors \<noteq> [])] else []) @
                                (if findings \<noteq> [] then [AutovacuumNotTuned findings] else [])))"

section \<open>Words\<close>

definition words_ok :: "string list \<Rightarrow> bool" where
  "words_ok ws \<longleftrightarrow> list_all (\<lambda>w. w \<noteq> [] \<and> list_all (\<lambda>c. \<not> py_space c) w) ws"

lemma py_space_blank [simp]: "py_space (CHR '' '')"
  by (simp add: py_space_def)

lemma words_ok_split_from: "list_all (\<lambda>c. \<not> py_space c) w \<Longrightarrow> words_ok (split_from w s)"
  by (induction w s rule: split_from.induct) (auto simp: words_ok_def)

lemma words_ok_split [simp]: "words_ok (split_words s)"
  by (simp add: split_words_def words_ok_split_from)

lemma split_from_word:
  "list_all (\<lambda>c. \<not> py_space c) v \<Longrightarrow> split_from w (v @ s) = split_from (w @ v) s"
  by (induction v arbitrary: w) auto

lemma split_join: "words_ok ws \<Longrightarrow> split_words (join_text '' '' ws) = ws"
proof (induction "'' ''" ws rule: join_text.induct)
  case (2 x)
  then show ?case using split_from_word [of x "[]" "[]"] by (simp add: words_ok_def split_words_def)
next
  case (3 x y ys)
  then have "split_from x (CHR '' '' # join_text '' '' (y # ys)) = x # y # ys"
    by (simp add: words_ok_def split_words_def)
  then show ?case using 3(2) split_from_word [of x "[]" "CHR '' '' # join_text '' '' (y # ys)"]
    by (simp add: words_ok_def split_words_def)
qed (simp add: split_words_def)

lemma join_inject: "words_ok ws \<Longrightarrow> words_ok vs \<Longrightarrow> join_text '' '' ws = join_text '' '' vs \<longleftrightarrow> ws = vs"
  by (metis split_join)

lemma join_ends:
  "words_ok ws \<Longrightarrow> join_text '' '' ws \<noteq> [] \<Longrightarrow>
     \<not> py_space (hd (join_text '' '' ws)) \<and> \<not> py_space (last (join_text '' '' ws))"
proof (induction "'' ''" ws rule: join_text.induct)
  case (2 x)
  then show ?case by (cases x) (auto simp: words_ok_def list_all_iff)
next
  case (3 x y ys)
  have "join_text '' '' (y # ys) \<noteq> []" using 3(2) by (cases ys) (auto simp: words_ok_def)
  then show ?case using 3 by (cases x) (auto simp: words_ok_def list_all_iff)
qed simp

lemma strip_join [simp]: "words_ok ws \<Longrightarrow> strip_text (join_text '' '' ws) = join_text '' '' ws"
proof (cases "join_text '' '' ws = []")
  case False
  assume "words_ok ws"
  note ends = join_ends [OF this False]
  have "dropWhile py_space s = s" if "s \<noteq> []" "\<not> py_space (hd s)" for s using that by (cases s) auto
  then show ?thesis using False ends by (simp add: strip_text_def hd_rev)
qed (simp add: strip_text_def)

lemma normalize_eq: "words_ok want \<Longrightarrow> normalize_predicate p = join_text '' '' want \<longleftrightarrow> split_words (clean_predicate p) = want"
  by (simp add: normalize_predicate_def join_inject)

text \<open>The keyword in front of a constraint's definition is dropped, and nothing else.\<close>

definition drop_check :: "string list \<Rightarrow> string list" where
  "drop_check ws = (if ws \<noteq> [] \<and> hd ws = ''check'' \<and> tl ws \<noteq> [] then tl ws else ws)"

lemma drop_check_join:
  assumes "words_ok ws"
  shows "remove_prefix ''check '' (join_text '' '' ws) = join_text '' '' (drop_check ws)"
proof (cases "('' '', ws)" rule: join_text.cases)
  case (2 sep x)
  have "take (length ''check '') x \<noteq> ''check ''" if "ws = [x]"
  proof
    assume a: "take (length ''check '') x = ''check ''"
    have "CHR '' '' \<in> set x" by (rule in_set_takeD [of _ "length ''check ''"]) (simp only: a, simp)
    then show False using assms that by (auto simp: words_ok_def list_all_iff)
  qed
  with 2 show ?thesis unfolding remove_prefix_def by (simp add: drop_check_def)
next
  case (3 sep x y ys)
  then have ws: "ws = x # y # ys" by simp
  let ?rest = "join_text '' '' (y # ys)"
  have space: "CHR '' '' \<notin> set x" and "x \<noteq> []" using assms ws by (auto simp: words_ok_def list_all_iff)
  have split: "takeWhile (\<lambda>c. c \<noteq> CHR '' '') (x @ CHR '' '' # s) = x" for s using space by (induction x) auto
  have "take (length ''check '') (x @ CHR '' '' # ?rest) = ''check '' \<longleftrightarrow> x = ''check''"
  proof
    assume a: "take (length ''check '') (x @ CHR '' '' # ?rest) = ''check ''"
    then have "x @ CHR '' '' # ?rest = ''check '' @ drop (length ''check '') (x @ CHR '' '' # ?rest)"
      by (metis append_take_drop_id)
    then have "takeWhile (\<lambda>c. c \<noteq> CHR '' '') (x @ CHR '' '' # ?rest) =
        takeWhile (\<lambda>c. c \<noteq> CHR '' '') (''check '' @ drop (length ''check '') (x @ CHR '' '' # ?rest))" by simp
    then show "x = ''check''" by (simp only: split) simp
  qed simp
  then show ?thesis unfolding ws remove_prefix_def by (auto simp: drop_check_def)
qed (auto simp: remove_prefix_def drop_check_def)

lemma words_ok_drop_check [simp]: "words_ok ws \<Longrightarrow> words_ok (drop_check ws)"
  by (cases ws) (auto simp: drop_check_def words_ok_def)

lemma check_predicate_eq:
  "words_ok want \<Longrightarrow> check_predicate d = join_text '' '' want \<longleftrightarrow> drop_check (split_words (clean_predicate d)) = want"
  by (simp add: check_predicate_def normalize_predicate_def drop_check_join join_inject)

section \<open>The property\<close>

text \<open>The shape the broker relies on, stated on what the catalogs answer.\<close>

definition diff_clean :: "diff_entry list \<Rightarrow> bool" where
  "diff_clean diff \<longleftrightarrow> list_all (\<lambda>entry. list_all (\<lambda>op. \<exists>x. op = OtherOp x)
     (case entry of TableOp op \<Rightarrow> [op] | NestedOps ops \<Rightarrow> ops)) diff"

definition index_sound :: "string \<Rightarrow> live_index list \<Rightarrow> string \<Rightarrow> string list \<Rightarrow> bool" where
  "index_sound table_name rows suffx want \<longleftrightarrow>
     (case dict_get (live_indexes rows) (table_name @ suffx) of
        None \<Rightarrow> True
      | Some row \<Rightarrow> map_option (split_words \<circ> clean_predicate) (li_predicate row) = Some want \<and>
          (suffx = timer_id_uq_suffix \<longrightarrow> li_unique row))"

definition blind_clean :: "string \<Rightarrow> live_index list \<Rightarrow> (string \<times> string) list \<Rightarrow> bool" where
  "blind_clean table_name indexes checks \<longleftrightarrow>
     index_sound table_name indexes ''_pending_idx'' [''acquired_token'', ''is'', ''null''] \<and>
     index_sound table_name indexes ''_timer_id_uq'' [''timer_id'', ''is'', ''not'', ''null''] \<and>
     index_sound table_name indexes ''_leased_idx'' [''acquired_token'', ''is'', ''not'', ''null''] \<and>
     list_ex (\<lambda>(name, d). drop_check (split_words (clean_predicate d)) =
       [''acquired_token'', ''is'', ''null'', ''='', ''acquired_at'', ''is'', ''null'']) checks"

lemmas suffix_defs = pending_idx_suffix_def timer_id_uq_suffix_def leased_idx_suffix_def lease_ck_suffix_def

lemma flatten_nil: "flatten_drift_errors diff t = [] \<longleftrightarrow> diff_clean diff"
proof -
  have op: "drift_entry_to_error t op = None \<longleftrightarrow> (\<exists>x. op = OtherOp x)" for op by (cases op) simp_all
  have ops: "List.map_filter (drift_entry_to_error t) ops = [] \<longleftrightarrow> list_all (\<lambda>op. \<exists>x. op = OtherOp x) ops" for ops
    by (induction ops) (auto simp: map_filter_simps op [symmetric] split: option.splits)
  show ?thesis unfolding diff_clean_def
    by (induction diff) (auto simp: ops op [symmetric] split: diff_entry.split option.splits)
qed

lemma index_errors_nil:
  assumes "words_ok want"
  shows "index_errors t (live_indexes rows) (suffx, join_text '' '' want) = [] \<longleftrightarrow> index_sound t rows suffx want"
  using normalize_eq [OF assms]
  by (auto simp: index_errors_def index_sound_def expected_unique_indexes_def Let_def split: option.split)

lemma blind_nil:
  "validate_index_predicates t rows @ validate_check_constraints t checks = [] \<longleftrightarrow> blind_clean t rows checks"
proof -
  have ix: "expected_index_predicates =
      [(''_pending_idx'', join_text '' '' [''acquired_token'', ''is'', ''null'']),
       (''_timer_id_uq'', join_text '' '' [''timer_id'', ''is'', ''not'', ''null'']),
       (''_leased_idx'', join_text '' '' [''acquired_token'', ''is'', ''not'', ''null''])]"
    by (simp add: expected_index_predicates_def suffix_defs)
  have ck: "expected_check_constraints =
      [(''_lease_ck'', join_text '' '' [''acquired_token'', ''is'', ''null'', ''='', ''acquired_at'', ''is'', ''null''])]"
    by (simp add: expected_check_constraints_def suffix_defs)
  have ok: "words_ok [''acquired_token'', ''is'', ''null'']" "words_ok [''timer_id'', ''is'', ''not'', ''null'']"
      "words_ok [''acquired_token'', ''is'', ''not'', ''null'']"
      "words_ok [''acquired_token'', ''is'', ''null'', ''='', ''acquired_at'', ''is'', ''null'']"
    by (simp_all add: words_ok_def py_space_def)
  have "validate_index_predicates t rows = [] \<longleftrightarrow>
     index_sound t rows ''_pending_idx'' [''acquired_token'', ''is'', ''null''] \<and>
     index_sound t rows ''_timer_id_uq'' [''timer_id'', ''is'', ''not'', ''null''] \<and>
     index_sound t rows ''_leased_idx'' [''acquired_token'', ''is'', ''not'', ''null'']"
    unfolding validate_index_predicates_def ix
    by (simp only: list.map concat.simps append_is_Nil_conv index_errors_nil [OF ok(1)] index_errors_nil [OF ok(2)]
        index_errors_nil [OF ok(3)] simp_thms)
  moreover have "validate_check_constraints t checks = [] \<longleftrightarrow>
     list_ex (\<lambda>(name, d). drop_check (split_words (clean_predicate d)) =
       [''acquired_token'', ''is'', ''null'', ''='', ''acquired_at'', ''is'', ''null'']) checks"
  proof -
    have one: "map f (filter (\<lambda>(s, w). w \<notin> A) [(a, w)]) = [] \<longleftrightarrow> w \<in> A" for f :: "string \<times> string \<Rightarrow> drift_error" and A a w
      by simp
    have "w \<in> set (map (check_predicate \<circ> snd) checks) \<longleftrightarrow> list_ex (\<lambda>(name, d). check_predicate d = w) checks" for w
      by (force simp: list_ex_iff)
    then show ?thesis unfolding validate_check_constraints_def ck one check_predicate_eq [OF ok(4), symmetric] by blast
  qed
  ultimately show ?thesis by (simp add: blind_clean_def)
qed

definition table_clean :: "catalog \<Rightarrow> canonical \<Rightarrow> table_ref \<Rightarrow> bool" where
  "table_clean ca c t \<longleftrightarrow> diff_clean (ca_diff ca c (resolve_schema ca t) (tr_name t)
     (include_name (ca_default_schema ca) (resolve_schema ca t) (tr_name t)))"

definition probes_clean :: "catalog \<Rightarrow> table_ref \<Rightarrow> bool" where
  "probes_clean ca t \<longleftrightarrow> blind_clean (tr_name t) (ca_indexes ca (tr_name t) (resolve_schema ca t))
     (ca_checks ca (tr_name t) (resolve_schema ca t))"

definition shape_clean :: "catalog \<Rightarrow> table_ref \<Rightarrow> table_ref option \<Rightarrow> bool" where
  "shape_clean ca t dlq \<longleftrightarrow> table_clean ca OutboxTable t \<and> probes_clean ca t \<and>
     (case dlq of None \<Rightarrow> True | Some d \<Rightarrow> table_clean ca DlqTable d)"

lemma parts_report:
  assumes "result = Inr ((if \<not> shape then [SchemaMismatch es (\<not> probes)] else []) @
      (if (if check then fs else []) \<noteq> [] then [AutovacuumNotTuned (if check then fs else [])] else []))"
    and "\<not> probes \<Longrightarrow> \<not> shape"
  shows "\<exists>parts. result = Inr parts \<and>
    (parts = [] \<longleftrightarrow> shape \<and> (\<not> check \<or> fs = [])) \<and> ((\<exists>es hint. SchemaMismatch es hint \<in> set parts) \<longleftrightarrow> \<not> shape) \<and>
    ((\<exists>es. SchemaMismatch es True \<in> set parts) \<longleftrightarrow> \<not> probes) \<and>
    ((\<exists>gs. AutovacuumNotTuned gs \<in> set parts) \<longleftrightarrow> check \<and> fs \<noteq> [])"
  using assms(2) unfolding assms(1) by auto


text \<open>A table as the package declares it, in Postgres' rendering, and a database with a plain timer index.\<close>

definition sample_catalog :: "bool \<Rightarrow> catalog" where
  "sample_catalog plain = \<lparr>ca_alembic = True, ca_resolve = (\<lambda>t. Some ''public''), ca_default_schema = Some ''public'',
     ca_indexes = (\<lambda>t s. [\<lparr>li_name = ''outbox_timer_id_uq'',
       li_predicate = (if plain then None else Some ''(timer_id IS NOT NULL)''), li_unique = True\<rparr>]),
     ca_checks = (\<lambda>t s. [(''ck'', ''CHECK (((acquired_token IS NULL) = (acquired_at IS NULL)))'')]),
     ca_reloptions = (\<lambda>t s. None), ca_diff = (\<lambda>c s t f. [NestedOps [OtherOp ''remove_column'']])\<rparr>"

lemma sample_predicates:
  "split_words (clean_predicate ''(timer_id IS NOT NULL)'') = [''timer_id'', ''is'', ''not'', ''null'']"
  "drop_check (split_words (clean_predicate ''CHECK (((acquired_token IS NULL) = (acquired_at IS NULL)))'')) =
     [''acquired_token'', ''is'', ''null'', ''='', ''acquired_at'', ''is'', ''null'']"
  by code_simp+


end
