(* ===== verification/Broker.thy ===== *)
theory Broker
  imports Subscriber_Config Queue_Lag
begin

text \<open>
  The broker around its subscribers (\<open>broker.py\<close>, \<open>registrator.py\<close>): registration on a broker or a
  router, what \<open>start\<close> checks and warns about, \<open>stop\<close> and \<open>ping\<close>. FastStream's own start and its list
  of subscribers (the broker's, then the routers') are used as documented; warnings and log lines are
  returned in the order they are issued.
\<close>

section \<open>Registration\<close>

text \<open>
  A registered subscriber as the broker reads it: its queues, its workers and lease, and the foreign
  publishers on its handlers, each with the identity of its broker's configuration and whether that has a
  producer.
\<close>

record registered =
  rg_queues :: "string list"
  rg_max_workers :: int
  rg_lease_ttl :: rat
  rg_publishers :: "(nat \<times> bool) list"

datatype queues_arg = OneQueue string | QueueList "queue_arg list"

datatype register_error = NoQueues | BadConfig config_error

datatype warning = ConfigWarning config_warning | RegisteredTwice "string list" | ServedTwice "string list"
  | ForeignNotStarted nat "string list"

fun queue_list :: "queues_arg \<Rightarrow> queue_arg list" where
  "queue_list (OneQueue q) = [QueueText q]"
| "queue_list (QueueList qs) = qs"

definition registered_of :: "subscriber_config \<Rightarrow> (nat \<times> bool) list \<Rightarrow> registered" where
  "registered_of c pubs = \<lparr>rg_queues = map queue_text (sc_queues c), rg_max_workers = int_of (sc_max_workers c),
     rg_lease_ttl = rat_of (sc_lease_ttl_seconds c), rg_publishers = pubs\<rparr>"

text \<open>\<open>sorted(set(queue_list) & existing)\<close>.\<close>

definition registered_overlap :: "string list \<Rightarrow> registered list \<Rightarrow> string list" where
  "registered_overlap qs subs = sort (remdups (filter (\<lambda>q. list_ex (\<lambda>s. q \<in> set (rg_queues s)) subs) qs))"

text \<open>
  \<open>subscriber\<close>: the queues of \<open>c\<close> are replaced by the argument; a new subscriber comes after the
  registrator's own \<open>subs\<close>. The handler and its publishers are attached when it is decorated.
\<close>

definition register_subscriber :: "retry_fn \<Rightarrow> queues_arg \<Rightarrow> subscriber_config \<Rightarrow> (nat \<times> bool) list \<Rightarrow>
    registered list \<Rightarrow> register_error + registered list \<times> warning list" where
  "register_subscriber dflt qa c pubs subs =
     (let qs = queue_list qa
      in if qs = [] then Inl NoQueues
         else case config_post_init dflt (c\<lparr>sc_queues := qs\<rparr>) of
           Inl e \<Rightarrow> Inl (BadConfig e)
         | Inr (c', ws) \<Rightarrow>
             let overlap = registered_overlap (map queue_text qs) subs
             in Inr (subs @ [registered_of c' pubs],
                  map ConfigWarning ws @ (if overlap \<noteq> [] then [RegisteredTwice overlap] else [])))"

text \<open>Registering one subscriber after the other; the first error ends it.\<close>

fun register_all :: "retry_fn \<Rightarrow> (queues_arg \<times> subscriber_config \<times> (nat \<times> bool) list) list \<Rightarrow> registered list \<Rightarrow>
    register_error + registered list \<times> warning list" where
  "register_all dflt [] subs = Inr (subs, [])"
| "register_all dflt ((qa, c, pubs) # rest) subs =
     (case register_subscriber dflt qa c pubs subs of
        Inl e \<Rightarrow> Inl e
      | Inr (subs', ws) \<Rightarrow>
          (case register_all dflt rest subs' of
             Inl e \<Rightarrow> Inl e
           | Inr (subs'', ws') \<Rightarrow> Inr (subs'', ws @ ws')))"

section \<open>Starting\<close>

text \<open>
  The engine's pool: whether it is a \<open>QueuePool\<close>, its size, and its \<open>_max_overflow\<close> where there is one.
\<close>

record engine_pool =
  ep_queue_pool :: bool
  ep_size :: int
  ep_max_overflow :: "int option"

record broker_state =
  bk_engine :: "engine_pool option"
  bk_direct :: "registered list"
  bk_routers :: "registered list"
  bk_lag_interval :: "rat option"
  bk_queue_lag :: "(string \<times> rat) list option"
  bk_warned :: "nat list"
  bk_running :: bool

definition broker_subscribers :: "broker_state \<Rightarrow> registered list" where
  "broker_subscribers b = bk_direct b @ bk_routers b"

definition pooled_connections :: "registered \<Rightarrow> int" where
  "pooled_connections s = 1 + rg_max_workers s"

datatype start_error = PoolTooSmall int int | NotConnected

definition check_pool_capacity :: "broker_state \<Rightarrow> start_error option" where
  "check_pool_capacity b =
     (case bk_engine b of
        None \<Rightarrow> None
      | Some pool \<Rightarrow>
          (case ep_max_overflow pool of
             None \<Rightarrow> None
           | Some overflow \<Rightarrow>
               if \<not> ep_queue_pool pool \<or> overflow < 0 then None
               else let needed = sum_list (map pooled_connections (broker_subscribers b));
                        capacity = ep_size pool + overflow
                    in if needed > capacity then Some (PoolTooSmall needed capacity) else None))"

text \<open>\<open>_warn_on_duplicate_queues\<close>: each subscriber counts every one of its queues.\<close>

definition served_count :: "registered list \<Rightarrow> string \<Rightarrow> nat" where
  "served_count subs q = sum_list (map (\<lambda>s. count_list (rg_queues s) q) subs)"

definition duplicated_queues :: "broker_state \<Rightarrow> string list" where
  "duplicated_queues b =
     (let served = remdups (concat (map rg_queues (broker_subscribers b)));
          router_queues = concat (map rg_queues (bk_routers b))
      in sort (filter (\<lambda>q. served_count (broker_subscribers b) q > 1 \<and> q \<in> set router_queues) served))"

definition warn_on_duplicate_queues :: "broker_state \<Rightarrow> warning list" where
  "warn_on_duplicate_queues b = (if duplicated_queues b \<noteq> [] then [ServedTwice (duplicated_queues b)] else [])"

text \<open>\<open>_warn_on_unstarted_foreign_publishers\<close>: one warning per broker configuration, ever.\<close>

fun warn_foreign :: "(nat \<times> bool \<times> string list) list \<Rightarrow> nat list \<Rightarrow> nat list \<times> warning list" where
  "warn_foreign [] warned = (warned, [])"
| "warn_foreign ((key, wired, qs) # rest) warned =
     (if wired \<or> key \<in> set warned then warn_foreign rest warned
      else let (warned', ws) = warn_foreign rest (key # warned) in (warned', ForeignNotStarted key qs # ws))"

definition foreign_publishers :: "registered list \<Rightarrow> (nat \<times> bool \<times> string list) list" where
  "foreign_publishers subs = concat (map (\<lambda>s. map (\<lambda>(key, wired). (key, wired, sort (rg_queues s))) (rg_publishers s)) subs)"

text \<open>\<open>_start_queue_lag\<close>; the interval is there if the recorder is a \<open>PrometheusRecorder\<close> that samples.\<close>

definition start_queue_lag :: "broker_state \<Rightarrow> broker_state" where
  "start_queue_lag b =
     (if bk_queue_lag b \<noteq> None \<or> bk_engine b = None \<or> bk_lag_interval b = None then b
      else let ttls = lag_ttls (map (\<lambda>s. (rg_queues s, rg_lease_ttl s)) (broker_subscribers b)) []
           in if ttls = [] then b else b\<lparr>bk_queue_lag := Some ttls\<rparr>)"

definition broker_start :: "broker_state \<Rightarrow> start_error + broker_state \<times> warning list" where
  "broker_start b =
     (case check_pool_capacity b of
        Some e \<Rightarrow> Inl e
      | None \<Rightarrow>
          if bk_engine b = None then Inl NotConnected
          else let b1 = b\<lparr>bk_running := True\<rparr>;
                   (warned, foreign) = warn_foreign (foreign_publishers (broker_subscribers b1)) (bk_warned b1);
                   b2 = b1\<lparr>bk_warned := warned\<rparr>
               in Inr (start_queue_lag b2, foreign @ warn_on_duplicate_queues b2))"

section \<open>Stopping and probing\<close>

text \<open>What each subscriber's \<open>stop\<close> raised, if anything, is logged; \<open>stop\<close> itself never raises.\<close>

definition broker_stop :: "exn option list \<Rightarrow> broker_state \<Rightarrow> broker_state \<times> exn list" where
  "broker_stop outcomes b = (b\<lparr>bk_running := False, bk_queue_lag := None\<rparr>, List.map_filter (\<lambda>e. e) outcomes)"

text \<open>
  \<open>ping\<close>: whether there is a client, its answer or \<open>None\<close> when the timeout cut the probe off, and which
  tasks of the subscribers are done.
\<close>

definition broker_ping :: "bool \<Rightarrow> bool option \<Rightarrow> bool list list \<Rightarrow> bool" where
  "broker_ping has_client answer tasks_done =
     (if \<not> has_client then False
      else case answer of
        None \<Rightarrow> False
      | Some ok \<Rightarrow> if \<not> ok then False else \<not> list_ex (list_ex (\<lambda>d. d)) tasks_done)"

section \<open>Facts\<close>

lemma served_count_append [simp]: "served_count (xs @ ys) q = served_count xs q + served_count ys q"
  by (simp add: served_count_def)

lemma served_count_positive: "served_count subs q > 0 \<longleftrightarrow> (\<exists>s \<in> set subs. q \<in> set (rg_queues s))"
  by (induction subs) (auto simp: served_count_def count_list_0_iff)

lemma served_count_Nil [simp]: "served_count [] q = 0"
  by (simp add: served_count_def)

lemma count_list_distinct: "distinct xs \<Longrightarrow> count_list xs q = (if q \<in> set xs then 1 else 0)"
  by (induction xs) (auto simp: count_list_0_iff)

lemma served_count_one: "distinct (rg_queues s) \<Longrightarrow> served_count [s] q = (if q \<in> set (rg_queues s) then 1 else 0)"
proof -
  assume "distinct (rg_queues s)"
  then have "count_list (rg_queues s) q = (if q \<in> set (rg_queues s) then 1 else 0)"
    using count_list_distinct by fastforce
  then show ?thesis by (simp add: served_count_def)
qed

lemma set_registered_overlap: "set (registered_overlap qs subs) = {q \<in> set qs. served_count subs q > 0}"
  by (auto simp: registered_overlap_def served_count_positive list_ex_iff)

lemma registered_queues:
  assumes "register_subscriber dflt qa c pubs subs = Inr (subs', ws)"
  shows "\<exists>s. subs' = subs @ [s] \<and> distinct (rg_queues s) \<and>
    (q \<in> set (rg_queues s) \<and> served_count subs q > 0 \<longleftrightarrow> (\<exists>names. RegisteredTwice names \<in> set ws \<and> q \<in> set names))"
proof -
  let ?c = "c\<lparr>sc_queues := queue_list qa\<rparr>"
  obtain c' cws where init: "config_post_init dflt ?c = Inr (c', cws)"
    and subs: "subs' = subs @ [registered_of c' pubs]"
    and ws: "ws = map ConfigWarning cws @ (if registered_overlap (map queue_text (queue_list qa)) subs \<noteq> []
        then [RegisteredTwice (registered_overlap (map queue_text (queue_list qa)) subs)] else [])"
    using assms by (auto simp: register_subscriber_def Let_def split: if_splits sum.splits)
  have qs: "sc_queues c' = queue_list qa" and "validate_config ?c = Inr cws"
    using init by (auto simp: config_post_init_def split: sum.splits)
  then have "distinct (map queue_text (queue_list qa))" by (simp add: validate_config_Inr)
  then show ?thesis
    using set_registered_overlap [of "map queue_text (queue_list qa)" subs]
    by (auto simp: subs ws registered_of_def qs)
qed

lemma register_all_overlaps:
  "register_all dflt regs subs = Inr (subs', ws) \<Longrightarrow>
   \<exists>new. subs' = subs @ new \<and>
     ((\<exists>names. RegisteredTwice names \<in> set ws \<and> q \<in> set names) \<longleftrightarrow>
        served_count new q > 0 \<and> served_count subs' q > 1)"
proof (induction dflt regs subs arbitrary: subs' ws rule: register_all.induct)
  case (2 dflt qa c pubs rest subs)
  obtain subs1 ws1 where r: "register_subscriber dflt qa c pubs subs = Inr (subs1, ws1)"
    using 2(2) by (auto split: sum.splits)
  then obtain ws2 where rest: "register_all dflt rest subs1 = Inr (subs', ws2)" and ws: "ws = ws1 @ ws2"
    using 2(2) by (auto split: sum.splits)
  obtain s where s: "subs1 = subs @ [s]" "distinct (rg_queues s)"
      "q \<in> set (rg_queues s) \<and> served_count subs q > 0 \<longleftrightarrow> (\<exists>names. RegisteredTwice names \<in> set ws1 \<and> q \<in> set names)"
    using registered_queues [OF r] by blast
  obtain new where new: "subs' = subs1 @ new" and
      "(\<exists>names. RegisteredTwice names \<in> set ws2 \<and> q \<in> set names) \<longleftrightarrow> served_count new q > 0 \<and> served_count subs' q > 1"
    using 2(1) [OF r refl rest] by blast
  then show ?case using s(3) served_count_one [OF s(2), of q]
    by (intro exI [of _ "s # new"]) (auto simp: ws s(1) new served_count_append [of "[s]" new, simplified] split: if_splits)
qed simp

lemma warn_foreign_warned:
  "warn_foreign pubs warned = (warned', ws) \<Longrightarrow> set warned \<subseteq> set warned' \<and>
     (\<forall>(key, wired, qs) \<in> set pubs. wired \<or> key \<in> set warned')"
proof (induction pubs warned arbitrary: warned' ws rule: warn_foreign.induct)
  case (2 key wired qs rest warned)
  show ?case
  proof (cases "wired \<or> key \<in> set warned")
    case True
    with 2 have "set warned \<subseteq> set warned'" "\<forall>(key, wired, qs) \<in> set rest. wired \<or> key \<in> set warned'" by simp_all
    with True show ?thesis by auto
  next
    case False
    obtain ws2 where "warn_foreign rest (key # warned) = (warned', ws2)"
      using 2(3) False by (auto split: prod.splits simp: Let_def)
    from 2(2) [OF False this] show ?thesis by simp
  qed
qed simp

lemma warn_foreign_kind: "warn_foreign pubs warned = (warned', ws) \<Longrightarrow> ServedTwice names \<notin> set ws"
proof (induction pubs warned arbitrary: warned' ws rule: warn_foreign.induct)
  case (2 key wired qs rest warned)
  then show ?case by (cases "warn_foreign rest (key # warned)") (auto split: if_splits)
qed simp

lemma warn_foreign_none:
  "\<forall>(key, wired, qs) \<in> set pubs. wired \<or> key \<in> set warned \<Longrightarrow> warn_foreign pubs warned = (warned, [])"
  by (induction pubs warned rule: warn_foreign.induct) auto

lemma set_duplicated_queues: "set (duplicated_queues b) =
    {q. served_count (broker_subscribers b) q > 1 \<and> served_count (bk_routers b) q > 0}"
  by (auto simp: duplicated_queues_def Let_def served_count_positive broker_subscribers_def)

lemma check_pool_Some: "(\<exists>e. check_pool_capacity b = Some e) \<longleftrightarrow>
    (\<exists>pool overflow. bk_engine b = Some pool \<and> ep_max_overflow pool = Some overflow \<and> ep_queue_pool pool \<and> 0 \<le> overflow \<and>
       ep_size pool + overflow < sum_list (map pooled_connections (broker_subscribers b)))"
  by (auto simp: check_pool_capacity_def Let_def split: option.split)

lemma start_queue_lag_simps [simp]:
  "bk_engine (start_queue_lag b) = bk_engine b" "broker_subscribers (start_queue_lag b) = broker_subscribers b"
  "bk_warned (start_queue_lag b) = bk_warned b" "bk_routers (start_queue_lag b) = bk_routers b"
  "bk_direct (start_queue_lag b) = bk_direct b"
  by (simp_all add: start_queue_lag_def broker_subscribers_def Let_def)

lemma check_pool_capacity_cong: "bk_engine b = bk_engine b' \<Longrightarrow> broker_subscribers b = broker_subscribers b' \<Longrightarrow>
    check_pool_capacity b = check_pool_capacity b'"
  unfolding check_pool_capacity_def by (simp only:)

lemma lag_ttls_keys: "dict_has (lag_ttls (map (\<lambda>s. (rg_queues s, rg_lease_ttl s)) subs) []) q \<longleftrightarrow> served_count subs q > 0"
  using lag_ttls_served [of "map (\<lambda>s. (rg_queues s, rg_lease_ttl s)) subs" q "[]"]
    lag_ttls_attained [of "map (\<lambda>s. (rg_queues s, rg_lease_ttl s)) subs" "[]" q]
  by (fastforce simp: served_count_positive)

text \<open>The parts of a successful start.\<close>

lemma broker_start_Inr:
  assumes "broker_start b = Inr (b', ws)"
  obtains warned foreign where "warn_foreign (foreign_publishers (broker_subscribers b)) (bk_warned b) = (warned, foreign)"
    and "b' = start_queue_lag (b\<lparr>bk_running := True, bk_warned := warned\<rparr>)"
    and "ws = foreign @ warn_on_duplicate_queues b" and "check_pool_capacity b = None" and "bk_engine b \<noteq> None"
proof -
  have d: "duplicated_queues (b\<lparr>bk_running := True, bk_warned := w\<rparr>) = duplicated_queues b" for w
    by (simp add: duplicated_queues_def broker_subscribers_def)
  show ?thesis
    using assms by (auto simp: broker_start_def Let_def broker_subscribers_def warn_on_duplicate_queues_def d
        split: option.splits if_splits prod.splits intro: that)
qed

text \<open>
  Property C38. Starting a broker: it is refused exactly when there is no engine or a bounded pool is too
  small for one connection per worker and one per fetch loop. A queue that two subscribers serve is always
  reported, when the second one registers or when the broker starts, and no other queue is; a queue no
  router serves is reported at registration only. A second start repeats none of the warnings on foreign
  brokers. Where the recorder samples lag, exactly the served queues are sampled.
\<close>

theorem broker_start_exact:
  assumes "register_all dflt regs [] = Inr (bk_direct b, reg_ws)"
  shows "((\<exists>e. broker_start b = Inl e) \<longleftrightarrow> bk_engine b = None \<or>
      (\<exists>pool overflow. bk_engine b = Some pool \<and> ep_max_overflow pool = Some overflow \<and> ep_queue_pool pool \<and> 0 \<le> overflow \<and>
         ep_size pool + overflow < sum_list (map pooled_connections (broker_subscribers b)))) \<and>
    (case broker_start b of
       Inl e \<Rightarrow> True
     | Inr (b', ws) \<Rightarrow>
         (served_count (broker_subscribers b) q > 1 \<longleftrightarrow>
            (\<exists>names. q \<in> set names \<and> (RegisteredTwice names \<in> set reg_ws \<or> ServedTwice names \<in> set ws))) \<and>
         (served_count (bk_routers b) q = 0 \<longrightarrow> (\<forall>names. ServedTwice names \<in> set ws \<longrightarrow> q \<notin> set names)) \<and>
         (\<exists>b'' ws'. broker_start b' = Inr (b'', ws') \<and> (\<forall>key qs. ForeignNotStarted key qs \<notin> set ws')) \<and>
         (bk_queue_lag b = None \<and> bk_lag_interval b \<noteq> None \<longrightarrow>
            (served_count (broker_subscribers b) q > 0 \<longleftrightarrow> (\<exists>ttls. bk_queue_lag b' = Some ttls \<and> dict_has ttls q))))"
proof (rule conjI)
  show "(\<exists>e. broker_start b = Inl e) \<longleftrightarrow> bk_engine b = None \<or>
      (\<exists>pool overflow. bk_engine b = Some pool \<and> ep_max_overflow pool = Some overflow \<and> ep_queue_pool pool \<and> 0 \<le> overflow \<and>
         ep_size pool + overflow < sum_list (map pooled_connections (broker_subscribers b)))"
    unfolding check_pool_Some [symmetric] by (auto simp: broker_start_def Let_def split: option.split prod.split)
  show "case broker_start b of
       Inl e \<Rightarrow> True
     | Inr (b', ws) \<Rightarrow>
         (served_count (broker_subscribers b) q > 1 \<longleftrightarrow>
            (\<exists>names. q \<in> set names \<and> (RegisteredTwice names \<in> set reg_ws \<or> ServedTwice names \<in> set ws))) \<and>
         (served_count (bk_routers b) q = 0 \<longrightarrow> (\<forall>names. ServedTwice names \<in> set ws \<longrightarrow> q \<notin> set names)) \<and>
         (\<exists>b'' ws'. broker_start b' = Inr (b'', ws') \<and> (\<forall>key qs. ForeignNotStarted key qs \<notin> set ws')) \<and>
         (bk_queue_lag b = None \<and> bk_lag_interval b \<noteq> None \<longrightarrow>
            (served_count (broker_subscribers b) q > 0 \<longleftrightarrow> (\<exists>ttls. bk_queue_lag b' = Some ttls \<and> dict_has ttls q)))"
  proof (cases "broker_start b")
    case (Inr r)
    then obtain b' ws where start: "broker_start b = Inr (b', ws)" by (cases r) simp
    then obtain warned foreign
      where f: "warn_foreign (foreign_publishers (broker_subscribers b)) (bk_warned b) = (warned, foreign)"
        and b': "b' = start_queue_lag (b\<lparr>bk_running := True, bk_warned := warned\<rparr>)"
        and ws: "ws = foreign @ warn_on_duplicate_queues b" and pool: "check_pool_capacity b = None" "bk_engine b \<noteq> None"
      by (rule broker_start_Inr)
    have served: "(\<exists>names. ServedTwice names \<in> set ws \<and> q \<in> set names) \<longleftrightarrow>
        served_count (broker_subscribers b) q > 1 \<and> served_count (bk_routers b) q > 0"
      using set_duplicated_queues [of b] warn_foreign_kind [OF f] by (auto simp: ws warn_on_duplicate_queues_def)
    have direct: "(\<exists>names. RegisteredTwice names \<in> set reg_ws \<and> q \<in> set names) \<longleftrightarrow> served_count (bk_direct b) q > 1"
      using register_all_overlaps [OF assms, of q] by auto
    have subs: "broker_subscribers b' = broker_subscribers b" "bk_engine b' = bk_engine b" "bk_warned b' = warned"
      by (simp_all add: b' broker_subscribers_def)
    have "warn_foreign (foreign_publishers (broker_subscribers b')) (bk_warned b') = (warned, [])"
      using warn_foreign_warned [OF f] warn_foreign_none by (simp add: subs)
    moreover have "check_pool_capacity b' = None" using pool(1) check_pool_capacity_cong [OF subs(2,1)] by simp
    ultimately have again: "\<exists>b'' ws'. broker_start b' = Inr (b'', ws') \<and> (\<forall>key qs. ForeignNotStarted key qs \<notin> set ws')"
      using pool(2) by (auto simp: broker_start_def Let_def broker_subscribers_def warn_on_duplicate_queues_def subs(2))
    have "bk_queue_lag b = None \<and> bk_lag_interval b \<noteq> None \<longrightarrow>
        (served_count (broker_subscribers b) q > 0 \<longleftrightarrow> (\<exists>ttls. bk_queue_lag b' = Some ttls \<and> dict_has ttls q))"
      using pool(2) lag_ttls_keys [of "broker_subscribers b" q]
      by (auto simp: b' start_queue_lag_def broker_subscribers_def Let_def)
    moreover have "served_count (broker_subscribers b) q > 1 \<longleftrightarrow>
        (\<exists>names. q \<in> set names \<and> (RegisteredTwice names \<in> set reg_ws \<or> ServedTwice names \<in> set ws))"
      using served direct by (auto simp: broker_subscribers_def)
    ultimately show ?thesis using served again by (auto simp: start)
  qed simp
qed

definition sample_broker :: "engine_pool option \<Rightarrow> broker_state" where
  "sample_broker pool = \<lparr>bk_engine = pool, bk_direct = [registered_of sample_subscriber [(1, False)]],
     bk_routers = [\<lparr>rg_queues = [''r''], rg_max_workers = 1, rg_lease_ttl = 30, rg_publishers = []\<rparr>],
     bk_lag_interval = Some 5, bk_queue_lag = None, bk_warned = [], bk_running = False\<rparr>"

theorem broker_start_exact_witness:
  "(\<exists>e. broker_start (sample_broker (Some \<lparr>ep_queue_pool = True, ep_size = 5, ep_max_overflow = Some 1\<rparr>)) = Inl e) \<and>
   (\<exists>b' ws names. broker_start (sample_broker (Some \<lparr>ep_queue_pool = True, ep_size = 7, ep_max_overflow = Some 0\<rparr>)) = Inr (b', ws) \<and>
      ''r'' \<in> set names \<and> ServedTwice names \<in> set ws)"
proof -
  let ?b = "\<lambda>n k. sample_broker (Some \<lparr>ep_queue_pool = True, ep_size = n, ep_max_overflow = Some k\<rparr>)"
  have reg: "register_all no_retry_strategy [(QueueList (sc_queues sample_subscriber), sample_subscriber, [(1, False)])] [] =
      Inr (bk_direct (?b n k), [])" for n k
    by (simp add: register_subscriber_def config_post_init_def validate_config_def validate_queues_def queue_error_def
        duplicate_queues_def validate_numbers_def count_checks_def last_checks_def validate_query_timeout_def
        config_warnings_def registered_overlap_def registered_of_def sample_broker_def sample_subscriber_def
        max_queue_length_def Let_def)
  note p = broker_start_exact [OF reg, of _ _ "''r''"]
  have needed: "sum_list (map pooled_connections (broker_subscribers (?b n k))) = 7" for n k
    by (simp add: sample_broker_def broker_subscribers_def pooled_connections_def registered_of_def sample_subscriber_def)
  have twice: "served_count (broker_subscribers (?b n k)) ''r'' = 2" for n k
    by (simp add: sample_broker_def broker_subscribers_def served_count_def registered_of_def sample_subscriber_def)
  have engine: "bk_engine (?b n k) = Some \<lparr>ep_queue_pool = True, ep_size = n, ep_max_overflow = Some k\<rparr>" for n k
    by (simp add: sample_broker_def)
  have "\<exists>e. broker_start (?b 5 1) = Inl e" using p [of 5 1, THEN conjunct1] by (simp add: needed engine)
  moreover have "\<nexists>e. broker_start (?b 7 0) = Inl e" using p [of 7 0, THEN conjunct1] by (simp add: needed engine)
  then obtain b' ws where start: "broker_start (?b 7 0) = Inr (b', ws)" by (metis obj_sumE surj_pair)
  then have "\<exists>names. ''r'' \<in> set names \<and> ServedTwice names \<in> set ws"
    using p [of 7 0, THEN conjunct2] by (simp add: twice)
  ultimately show ?thesis using start by blast
qed

end
