(* ===== verification/Test_Broker.thy ===== *)
theory Test_Broker
  imports Publish_Contract
begin

text \<open>
  \<open>TestOutboxBroker\<close> (\<open>testing.py\<close>): a publish reaches the in-memory client through the real producer
  and then either wakes the fetch loops or runs the handler of each stored row before it returns. A
  handler may publish in turn, so a dispatch nests dispatches: the recursion is bounded by fuel, and
  \<open>None\<close> stands for a nesting deeper than the fuel.
\<close>

section \<open>The harness\<close>

text \<open>
  What a handler does with a message: the publishes it awaits one after the other, and what the
  pipeline then does with the message, or does when a publish raised. A handler may read the message,
  not the store.
\<close>

datatype 'b test_command = PublishOne "'b publish_command" | PublishBatch "'b publish_command"

record 'b handler_run =
  hr_publishes :: "'b test_command list"
  hr_finish :: consume_env
  hr_failed :: "exn \<Rightarrow> consume_env"

record 'b test_subscriber =
  ts_name :: string
  ts_queues :: "string list"
  ts_has_calls :: bool
  ts_config :: dispatch_config
  ts_handler :: "inner_message \<Rightarrow> 'b handler_run"

record 'b test_broker =
  tb_subscribers :: "'b test_subscriber list"
  tb_run_loops :: bool
  tb_dlq_enabled :: bool
  tb_producer :: "'b producer_env"
  tb_running :: bool

text \<open>
  The state: the client's store and the events, the number of steps taken, from which the clock, the
  monotonic clock and the new lease tokens are read, and the subscribers whose loops were woken.
\<close>

record test_clock =
  tc_now :: "nat \<Rightarrow> time"
  tc_monotonic :: "nat \<Rightarrow> rat"
  tc_token :: "nat \<Rightarrow> token"

record test_state =
  tt_dispatch :: "fake_state dispatch_state"
  tt_steps :: nat
  tt_woken :: "string list"

definition find_subscriber_for_queue :: "'b test_broker \<Rightarrow> string \<Rightarrow> 'b test_subscriber option" where
  "find_subscriber_for_queue tb q = find (\<lambda>s. ts_has_calls s \<and> q \<in> set (ts_queues s)) (tb_subscribers tb)"

definition notify_subscriber :: "'b test_broker \<Rightarrow> string \<Rightarrow> test_state \<Rightarrow> test_state" where
  "notify_subscriber tb q st =
     (case find_subscriber_for_queue tb q of None \<Rightarrow> st | Some s \<Rightarrow> st\<lparr>tt_woken := tt_woken st @ [ts_name s]\<rparr>)"

section \<open>Dispatching what was stored\<close>

text \<open>\<open>disp\<close> is \<open>_sync_dispatch\<close>; the first exception leaves the rows after it undelivered.\<close>

type_synonym dispatcher = "string \<Rightarrow> nat \<Rightarrow> test_state \<Rightarrow> (test_state \<times> exn option) option"

fun dispatch_rows :: "dispatcher \<Rightarrow> (nat \<times> string) list \<Rightarrow> test_state \<Rightarrow> (test_state \<times> exn option) option" where
  "dispatch_rows disp [] st = Some (st, None)"
| "dispatch_rows disp ((i, q) # rows) st =
     (case disp q i st of
        None \<Rightarrow> None
      | Some (st', Some e) \<Rightarrow> Some (st', Some e)
      | Some (st', None) \<Rightarrow> dispatch_rows disp rows st')"

definition set_store :: "fake_state \<Rightarrow> test_state \<Rightarrow> test_state" where
  "set_store s st = st\<lparr>tt_dispatch := (tt_dispatch st)\<lparr>ds_store := s\<rparr>\<rparr>"

definition dispatch_stored :: "dispatcher \<Rightarrow> 'b test_broker \<Rightarrow> test_state \<Rightarrow> (test_state \<times> exn option) option" where
  "dispatch_stored disp tb st =
     (let (s, rows) = take_dispatchable (ds_store (tt_dispatch st));
          st' = set_store s st
      in if tb_run_loops tb
         then Some (fold (notify_subscriber tb) (rev (remdups (rev (map snd rows)))) st', None)
         else dispatch_rows disp rows st')"

text \<open>\<open>_DispatchingProducer\<close>: the real producer on the in-memory client, then the dispatch.\<close>

definition dispatching_publish :: "dispatcher \<Rightarrow> test_clock \<Rightarrow> 'b test_broker \<Rightarrow> 'b test_command \<Rightarrow> test_state \<Rightarrow>
    (test_state \<times> exn option) option" where
  "dispatching_publish disp clock tb p st =
     (let ds = tt_dispatch st;
          ops = fake_publish_ops (tc_now clock (tt_steps st));
          ps = \<lparr>ps_store = ds_store ds, ps_events = ds_events ds\<rparr>;
          (ps', err) = (case p of
             PublishOne cmd \<Rightarrow> (case producer_publish ops (tb_producer tb) cmd ps of (ps', r) \<Rightarrow>
               (ps', case r of Inl e \<Rightarrow> Some e | Inr i \<Rightarrow> None))
           | PublishBatch cmd \<Rightarrow> (case producer_publish_batch ops (tb_producer tb) cmd ps of (ps', r) \<Rightarrow>
               (ps', case r of Inl e \<Rightarrow> Some e | Inr u \<Rightarrow> None)));
          st' = st\<lparr>tt_dispatch := ds\<lparr>ds_store := ps_store ps', ds_events := ps_events ps'\<rparr>, tt_steps := tt_steps st + 1\<rparr>
      in case err of
           Some e \<Rightarrow> Some (st', Some e)
         | None \<Rightarrow> dispatch_stored disp tb st')"

fun run_publishes :: "dispatcher \<Rightarrow> test_clock \<Rightarrow> 'b test_broker \<Rightarrow> 'b test_command list \<Rightarrow> test_state \<Rightarrow>
    (test_state \<times> exn option) option" where
  "run_publishes disp clock tb [] st = Some (st, None)"
| "run_publishes disp clock tb (p # ps) st =
     (case dispatching_publish disp clock tb p st of
        None \<Rightarrow> None
      | Some (st', Some e) \<Rightarrow> Some (st', Some e)
      | Some (st', None) \<Rightarrow> run_publishes disp clock tb ps st')"

text \<open>
  The dispatch of one message without a writer connection and without a buffer: past the delivery gate the
  handler's publishes run between the \<open>dispatched\<close> event and the end of the pipeline.
\<close>

definition dispatch_result :: "fake_state dispatch_state \<times> (exn + bool) \<Rightarrow> test_state \<Rightarrow> test_state \<times> exn option" where
  "dispatch_result res st = (st\<lparr>tt_dispatch := fst res, tt_steps := tt_steps st + 1\<rparr>,
     case snd res of Inl e \<Rightarrow> Some e | Inr b \<Rightarrow> None)"

definition nested_dispatch :: "dispatcher \<Rightarrow> test_clock \<Rightarrow> 'b test_broker \<Rightarrow> 'b test_subscriber \<Rightarrow> inner_message \<Rightarrow>
    test_state \<Rightarrow> (test_state \<times> exn option) option" where
  "nested_dispatch disp clock tb sub row st =
     (let cfg = ts_config sub;
          ops = fake_ops (tb_dlq_enabled tb);
          env = (\<lambda>st. \<lparr>we_now = tc_now clock (tt_steps st), we_fault = NoFault\<rparr>);
          (allowed, m) = allow_delivery (dc_max_deliveries cfg) (row\<lparr>retry_strategy := dc_retry_strategy cfg\<rparr>)
      in if \<not> allowed
         then Some (dispatch_result (flush_or_buffer ops cfg (env st) False ''nacked_terminal''
                (max_deliveries_tags cfg m) m (tt_dispatch st)) st)
         else let st1 = st\<lparr>tt_dispatch := emit [dispatched_event cfg m] (tt_dispatch st)\<rparr>;
                  run = ts_handler sub m
              in case (if tb_running tb then run_publishes disp clock tb (hr_publishes run) st1 else Some (st1, None)) of
                   None \<Rightarrow> None
                 | Some (st2, raised) \<Rightarrow>
                     let cenv = (case raised of None \<Rightarrow> hr_finish run | Some e \<Rightarrow> hr_failed run e)
                     in Some (dispatch_result (finish_pipeline ops cfg (env st2) cenv (tb_running tb) (tb_running tb) False m
                          (tt_dispatch st2)) st2))"

text \<open>\<open>_sync_dispatch\<close>: claim the row in place, without looking at its time, and dispatch it.\<close>

fun sync_dispatch :: "nat \<Rightarrow> test_clock \<Rightarrow> 'b test_broker \<Rightarrow> string \<Rightarrow> nat \<Rightarrow> test_state \<Rightarrow>
    (test_state \<times> exn option) option" where
  "sync_dispatch 0 clock tb q i st = None"
| "sync_dispatch (Suc fuel) clock tb q i st =
     (case find_subscriber_for_queue tb q of
        None \<Rightarrow> Some (st, None)
      | Some sub \<Rightarrow>
          let s = ds_store (tt_dispatch st); hit = (\<lambda>r. row_id r = i)
          in (case find hit (fk_rows s) of
                None \<Rightarrow> Some (st, None)
              | Some r \<Rightarrow>
                  let claim = claim_fake_row (tc_now clock (tt_steps st)) (tc_token clock (tt_steps st));
                      st' = (set_store (s\<lparr>fk_rows := update_first hit claim (fk_rows s)\<rparr>) st)\<lparr>tt_steps := tt_steps st + 1\<rparr>
                  in nested_dispatch (sync_dispatch fuel clock tb) clock tb sub
                       (to_inner (tc_monotonic clock (tt_steps st)) (claim r)) st'))"

text \<open>A publish through the test broker, and \<open>feed\<close>, which dispatches nothing.\<close>

definition test_publish :: "nat \<Rightarrow> test_clock \<Rightarrow> 'b test_broker \<Rightarrow> 'b test_command \<Rightarrow> test_state \<Rightarrow>
    (test_state \<times> exn option) option" where
  "test_publish fuel clock tb = dispatching_publish (sync_dispatch fuel clock tb) clock tb"

definition test_feed :: "test_clock \<Rightarrow> 'b test_broker \<Rightarrow> string \<Rightarrow> bytes \<Rightarrow> headers option \<Rightarrow> (time \<times> bool) option \<Rightarrow>
    string option \<Rightarrow> test_state \<Rightarrow> test_state \<times> (exn + nat option)" where
  "test_feed clock tb q body hdrs next_at tid st =
     (let (s, res) = fake_feed (tc_now clock (tt_steps st)) q body hdrs next_at tid (ds_store (tt_dispatch st));
          st' = set_store s st
      in case res of
           Inl e \<Rightarrow> (st', Inl e)
         | Inr i \<Rightarrow> (if tb_run_loops tb then notify_subscriber tb q st' else st', Inr i))"

section \<open>Rows waiting for dispatch\<close>

abbreviation waiting :: "test_state \<Rightarrow> (nat \<times> string) list" where
  "waiting st \<equiv> fk_dispatchable (ds_store (tt_dispatch st))"

text \<open>The writes of a dispatch leave the rows waiting for dispatch alone.\<close>

definition keeps_waiting :: "(fake_state \<Rightarrow> fake_state \<times> 'a) \<Rightarrow> bool" where
  "keeps_waiting f \<longleftrightarrow> (\<forall>s. fk_dispatchable (fst (f s)) = fk_dispatchable s)"

lemma keeps_waiting_ops [simp]:
  "keeps_waiting (op_delete (fake_ops d) c now i tok ctx)"
  "keeps_waiting (op_mark_pending (fake_ops d) c now i tok w)"
  by (auto simp: keeps_waiting_def fake_ops_def fake_delete_def fake_mark_pending_def Let_def split: option.split)

lemma keeps_waiting_bounded: "keeps_waiting f \<Longrightarrow> bounded fault f s = (s', r) \<Longrightarrow> fk_dispatchable s' = fk_dispatchable s"
  by (cases fault) (simp_all add: keeps_waiting_def, (metis fst_conv)+)

lemma flush_terminal_waiting:
  "flush_terminal (fake_ops d) cfg env m st = (st', r) \<Longrightarrow> fk_dispatchable (ds_store st') = fk_dispatchable (ds_store st)"
  by (auto simp: flush_terminal_def Let_def split: option.splits sum.splits prod.splits if_splits
      dest!: keeps_waiting_bounded [rotated])

lemma flush_retry_waiting:
  "flush_retry (fake_ops d) cfg env m st = (st', r) \<Longrightarrow> fk_dispatchable (ds_store st') = fk_dispatchable (ds_store st)"
  by (auto simp: flush_retry_def Let_def split: option.splits sum.splits prod.splits if_splits
      dest!: keeps_waiting_bounded [rotated])

lemma safe_flush_waiting:
  "safe_flush (fake_ops d) cfg env terminal m st = (st', r) \<Longrightarrow> fk_dispatchable (ds_store st') = fk_dispatchable (ds_store st)"
  using flush_terminal_waiting flush_retry_waiting
  by (cases terminal) (fastforce simp: safe_flush_def Let_def split: sum.splits prod.splits if_splits)+

lemma flush_or_buffer_waiting:
  "flush_or_buffer (fake_ops d) cfg env b ev tgs m st = (st', r) \<Longrightarrow> fk_dispatchable (ds_store st') = fk_dispatchable (ds_store st)"
  using safe_flush_waiting
  by (fastforce simp: flush_or_buffer_def Let_def split: sum.splits prod.splits if_splits)

lemma write_outcome_waiting:
  "write_outcome (fake_ops d) cfg env running now b m st = (st', r) \<Longrightarrow> fk_dispatchable (ds_store st') = fk_dispatchable (ds_store st)"
  using safe_flush_waiting flush_or_buffer_waiting
  by (fastforce simp: write_outcome_def write_settled_def Let_def
      split: option.splits outcome.splits sum.splits prod.splits if_splits)

lemma finish_pipeline_waiting:
  assumes "finish_pipeline (fake_ops d) cfg env cenv running running' b m st = (st', r)"
  shows "fk_dispatchable (ds_store st') = fk_dispatchable (ds_store st)"
  using assms write_outcome_waiting
  by (fastforce simp: finish_pipeline_def Let_def split: option.splits sum.splits prod.splits if_splits)

text \<open>A publish makes only rows of its own queue wait.\<close>

fun publish_queue :: "'b test_command \<Rightarrow> string" where
  "publish_queue (PublishOne cmd) = pc_queue cmd"
| "publish_queue (PublishBatch cmd) = pc_queue cmd"

definition adds_waiting :: "string \<Rightarrow> fake_state \<Rightarrow> fake_state \<Rightarrow> bool" where
  "adds_waiting q s s' \<longleftrightarrow> (\<exists>new. fk_dispatchable s' = fk_dispatchable s @ new \<and> list_all (\<lambda>(i, p). p = q) new)"

lemma adds_waiting_refl [simp]: "adds_waiting q s s"
  by (simp add: adds_waiting_def)

lemma fake_append_waiting:
  "fk_dispatchable (fst (fake_append now q body hdrs next_at tid s)) = fk_dispatchable s"
  "queue (snd (fake_append now q body hdrs next_at tid s)) = q"
  by (simp_all add: fake_append_def Let_def)

lemma fake_insert_waiting: "adds_waiting (ia_queue a) s (fst (fake_insert now a s)) \<and>
    (\<forall>e. snd (fake_insert now a s) = Inl e \<longrightarrow> fst (fake_insert now a s) = s)"
  using fake_append_waiting
  by (auto simp: fake_insert_def fake_store_def adds_waiting_def Let_def case_prod_unfold
      split: option.split timer_conflict.split)

lemma fake_append_all_waiting: "adds_waiting q s (fake_append_all now q next_at bodies s)"
proof (induction now q next_at bodies s rule: fake_append_all.induct)
  case (2 now q next_at body hdrs bs s)
  obtain s1 row where a: "fake_append now q body hdrs next_at None s = (s1, row)" by fastforce
  then have "fk_dispatchable s1 = fk_dispatchable s" "queue row = q" using fake_append_waiting by (metis fst_conv, metis snd_conv)
  with 2 [OF a [symmetric] refl] a show ?case by (auto simp: adds_waiting_def)
qed simp

lemma fake_insert_batch_waiting: "adds_waiting q s (fst (fake_insert_batch now q bodies ai aa s)) \<and>
    (\<forall>e. snd (fake_insert_batch now q bodies ai aa s) = Inl e \<longrightarrow> fst (fake_insert_batch now q bodies ai aa s) = s)"
  using fake_append_all_waiting by (auto simp: fake_insert_batch_def split: option.split)

lemma producer_publish_waiting:
  assumes "producer_publish (fake_publish_ops now) env cmd st = (st', r)"
  shows "adds_waiting (pc_queue cmd) (ps_store st) (ps_store st') \<and> (\<forall>e. r = Inl e \<longrightarrow> ps_store st' = ps_store st)"
proof (cases "encode_body env 0 (pc_body cmd) (pc_headers cmd) (pc_correlation_id cmd)")
  case (Inl e)
  then show ?thesis using assms by (auto simp: producer_publish_def publish_failed_def emit_published_def split: if_splits)
next
  case (Inr row)
  then obtain body hdrs where row: "encode_body env 0 (pc_body cmd) (pc_headers cmd) (pc_correlation_id cmd) = Inr (body, hdrs)"
    by (cases row) simp
  show ?thesis
    using assms fake_insert_waiting [of "insert_args_of cmd body hdrs" "ps_store st" now]
    by (cases "fake_insert now (insert_args_of cmd body hdrs) (ps_store st)")
      (auto simp: producer_publish_def row fake_publish_ops_def publish_failed_def emit_published_def insert_args_of_def Let_def
        split: sum.splits if_splits)
qed

lemma producer_publish_batch_waiting:
  assumes "producer_publish_batch (fake_publish_ops now) env cmd st = (st', r)"
  shows "adds_waiting (pc_queue cmd) (ps_store st) (ps_store st') \<and> (\<forall>e. r = Inl e \<longrightarrow> ps_store st' = ps_store st)"
proof -
  obtain nbytes res where enc: "encode_bodies env 0 (pc_headers cmd) (batch_bodies cmd) = (nbytes, res)" by fastforce
  show ?thesis
  proof (cases res)
    case (Inl e)
    then show ?thesis using assms by (auto simp: producer_publish_batch_def enc publish_failed_def emit_published_def split: if_splits)
  next
    case (Inr rows)
    show ?thesis
      using assms Inr fake_insert_batch_waiting [of "pc_queue cmd" "ps_store st" now "map (\<lambda>(b, h). (b, Some h)) rows"
          "pc_activate_in cmd" "pc_activate_at cmd"]
      by (cases "fake_insert_batch now (pc_queue cmd) (map (\<lambda>(b, h). (b, Some h)) rows) (pc_activate_in cmd) (pc_activate_at cmd)
            (ps_store st)")
        (auto simp: producer_publish_batch_def enc fake_publish_ops_def publish_failed_def emit_published_def Let_def
          split: sum.splits if_splits)
  qed
qed

section \<open>Termination\<close>

text \<open>
  A dispatcher settles a queue if it returns for every row of it and leaves nothing waiting. One that
  settles a publish's queue settles the publish.
\<close>

definition settles :: "dispatcher \<Rightarrow> string \<Rightarrow> bool" where
  "settles disp q \<longleftrightarrow> (\<forall>i st. waiting st = [] \<longrightarrow> (\<exists>st' r. disp q i st = Some (st', r) \<and> waiting st' = []))"

lemma dispatch_rows_settles:
  "settles disp q \<Longrightarrow> list_all (\<lambda>(i, p). p = q) rows \<Longrightarrow> waiting st = [] \<Longrightarrow>
     \<exists>st' r. dispatch_rows disp rows st = Some (st', r) \<and> waiting st' = []"
proof (induction rows arbitrary: st)
  case (Cons row rows)
  obtain i where row: "row = (i, q)" using Cons.prems(2) by (cases row) auto
  obtain st1 r1 where d: "disp q i st = Some (st1, r1)" "waiting st1 = []"
    using Cons.prems(1,3) unfolding settles_def by blast
  show ?case
  proof (cases r1)
    case None
    have "list_all (\<lambda>(i, p). p = q) rows" using Cons.prems(2) by simp
    from Cons.IH [OF Cons.prems(1) this d(2)] show ?thesis by (simp add: row d None)
  next
    case (Some e)
    with d show ?thesis by (simp add: row)
  qed
qed simp

lemma notify_waiting [simp]: "waiting (notify_subscriber tb q st) = waiting st"
  by (simp add: notify_subscriber_def split: option.split)

lemma fold_notify_waiting [simp]: "waiting (fold (notify_subscriber tb) qs st) = waiting st"
  by (induction qs arbitrary: st) simp_all

lemma dispatch_stored_settles:
  assumes "settles disp q" and "list_all (\<lambda>(i, p). p = q) (waiting st)"
  shows "\<exists>st' r. dispatch_stored disp tb st = Some (st', r) \<and> waiting st' = []"
  using dispatch_rows_settles [OF assms, of "set_store (fst (take_dispatchable (ds_store (tt_dispatch st)))) st"]
  by (auto simp: dispatch_stored_def take_dispatchable_def set_store_def Let_def)

lemma dispatching_publish_settles:
  assumes "settles disp (publish_queue p)" and "waiting st = []"
  shows "\<exists>st' r. dispatching_publish disp clock tb p st = Some (st', r) \<and> waiting st' = []"
proof -
  let ?ops = "fake_publish_ops (tc_now clock (tt_steps st))" and ?ds = "tt_dispatch st"
  let ?ps = "\<lparr>ps_store = ds_store ?ds, ps_events = ds_events ?ds\<rparr>"
  obtain ps' err where run: "(case p of
      PublishOne cmd \<Rightarrow> (case producer_publish ?ops (tb_producer tb) cmd ?ps of (ps', r) \<Rightarrow>
        (ps', case r of Inl e \<Rightarrow> Some e | Inr i \<Rightarrow> None))
    | PublishBatch cmd \<Rightarrow> (case producer_publish_batch ?ops (tb_producer tb) cmd ?ps of (ps', r) \<Rightarrow>
        (ps', case r of Inl e \<Rightarrow> Some e | Inr u \<Rightarrow> None))) = (ps', err)"
    by (rule prod.exhaust)
  have w: "adds_waiting (publish_queue p) (ds_store ?ds) (ps_store ps') \<and> (err \<noteq> None \<longrightarrow> ps_store ps' = ds_store ?ds)"
  proof (cases p)
    case (PublishOne cmd)
    then show ?thesis using run producer_publish_waiting [of "tc_now clock (tt_steps st)" "tb_producer tb" cmd ?ps]
      by (auto split: prod.splits sum.splits)
  next
    case (PublishBatch cmd)
    then show ?thesis using run producer_publish_batch_waiting [of "tc_now clock (tt_steps st)" "tb_producer tb" cmd ?ps]
      by (auto split: prod.splits sum.splits)
  qed
  let ?st = "st\<lparr>tt_dispatch := ?ds\<lparr>ds_store := ps_store ps', ds_events := ps_events ps'\<rparr>, tt_steps := tt_steps st + 1\<rparr>"
  have res: "dispatching_publish disp clock tb p st =
      (case err of Some e \<Rightarrow> Some (?st, Some e) | None \<Rightarrow> dispatch_stored disp tb ?st)"
    unfolding dispatching_publish_def Let_def run by (simp only: prod.case)
  show ?thesis
  proof (cases err)
    case None
    have "list_all (\<lambda>(i, q). q = publish_queue p) (waiting ?st)" using w assms(2) by (auto simp: adds_waiting_def)
    from dispatch_stored_settles [OF assms(1) this] show ?thesis by (simp add: res None)
  next
    case (Some e)
    then show ?thesis using w assms(2) by (simp add: res)
  qed
qed

lemma run_publishes_settles:
  "\<forall>p \<in> set ps. settles disp (publish_queue p) \<Longrightarrow> waiting st = [] \<Longrightarrow>
     \<exists>st' r. run_publishes disp clock tb ps st = Some (st', r) \<and> waiting st' = []"
proof (induction ps arbitrary: st)
  case (Cons p ps)
  obtain st1 r1 where d: "dispatching_publish disp clock tb p st = Some (st1, r1)" "waiting st1 = []"
    using dispatching_publish_settles Cons.prems by fastforce
  then show ?case using Cons.IH [OF _ d(2)] Cons.prems(1) by (cases r1) auto
qed simp

lemma dispatch_result_waiting [simp]: "waiting (fst (dispatch_result res st)) = fk_dispatchable (ds_store (fst res))"
  by (simp add: dispatch_result_def)

lemma nested_dispatch_settles:
  assumes "\<forall>m. \<forall>p \<in> set (hr_publishes (ts_handler sub m)). settles disp (publish_queue p)" and "waiting st = []"
  shows "\<exists>st' r. nested_dispatch disp clock tb sub row st = Some (st', r) \<and> waiting st' = []"
proof -
  let ?cfg = "ts_config sub" and ?ops = "fake_ops (tb_dlq_enabled tb)"
  have out: "\<exists>st' r. Some (dispatch_result res st0) = Some (st', r) \<and> waiting st' = []"
    if "fk_dispatchable (ds_store (fst res)) = []" for res st0
    using that dispatch_result_waiting by (metis prod.collapse)
  obtain allowed m where gate: "allow_delivery (dc_max_deliveries ?cfg) (row\<lparr>retry_strategy := dc_retry_strategy ?cfg\<rparr>) = (allowed, m)"
    by fastforce
  show ?thesis
  proof (cases allowed)
    case False
    then show ?thesis unfolding nested_dispatch_def Let_def gate
      using flush_or_buffer_waiting [OF prod.collapse [symmetric]] assms(2) by (simp only: prod.case simp_thms if_True) (rule out, simp)
  next
    case True
    let ?st1 = "st\<lparr>tt_dispatch := emit [dispatched_event ?cfg m] (tt_dispatch st)\<rparr>"
    let ?run = "if tb_running tb then run_publishes disp clock tb (hr_publishes (ts_handler sub m)) ?st1 else Some (?st1, None)"
    have "waiting ?st1 = []" using assms(2) by simp
    then obtain st2 raised where run: "?run = Some (st2, raised)" "waiting st2 = []"
      using run_publishes_settles [of "hr_publishes (ts_handler sub m)" disp ?st1 clock tb] assms(1) by (cases "tb_running tb") auto
    show ?thesis unfolding nested_dispatch_def Let_def gate
      using True run(2) finish_pipeline_waiting [OF prod.collapse [symmetric]]
      by (simp only: prod.case simp_thms if_False run(1) option.case) (rule out, simp)
  qed
qed

text \<open>The fuel a queue needs: with a rank that falls from a subscriber to those it publishes to.\<close>

definition falls :: "'b test_broker \<Rightarrow> (string \<Rightarrow> nat) \<Rightarrow> bool" where
  "falls tb rank \<longleftrightarrow> (\<forall>sub \<in> set (tb_subscribers tb). \<forall>m. \<forall>p \<in> set (hr_publishes (ts_handler sub m)).
     case find_subscriber_for_queue tb (publish_queue p) of
       None \<Rightarrow> True | Some sub' \<Rightarrow> rank (ts_name sub') < rank (ts_name sub))"

definition fuel_for :: "'b test_broker \<Rightarrow> (string \<Rightarrow> nat) \<Rightarrow> string \<Rightarrow> nat" where
  "fuel_for tb rank q = (case find_subscriber_for_queue tb q of None \<Rightarrow> 1 | Some sub \<Rightarrow> rank (ts_name sub) + 2)"

lemma sync_dispatch_settles:
  assumes "falls tb rank"
  shows "fuel_for tb rank q \<le> fuel \<Longrightarrow> settles (sync_dispatch fuel clock tb) q"
proof (induction fuel arbitrary: q)
  case 0
  then show ?case by (simp add: fuel_for_def split: option.splits)
next
  case (Suc fuel)
  show ?case
  proof (cases "find_subscriber_for_queue tb q")
    case None
    then show ?thesis by (simp add: settles_def)
  next
    case (Some sub)
    have in_subs: "sub \<in> set (tb_subscribers tb)"
      using Some by (auto simp: find_subscriber_for_queue_def find_Some_iff)
    have enough: "fuel_for tb rank (publish_queue p) \<le> fuel" if "p \<in> set (hr_publishes (ts_handler sub m))" for p m
    proof (cases "find_subscriber_for_queue tb (publish_queue p)")
      case None
      then show ?thesis using Suc.prems Some by (simp add: fuel_for_def)
    next
      case (Some sub')
      moreover have "case find_subscriber_for_queue tb (publish_queue p) of
          None \<Rightarrow> True | Some sub' \<Rightarrow> rank (ts_name sub') < rank (ts_name sub)"
        using assms in_subs that unfolding falls_def by blast
      ultimately have "rank (ts_name sub') < rank (ts_name sub)" by simp
      then show ?thesis using Suc.prems Some \<open>find_subscriber_for_queue tb q = Some sub\<close> by (simp add: fuel_for_def)
    qed
    then have nested: "\<forall>m. \<forall>p \<in> set (hr_publishes (ts_handler sub m)). settles (sync_dispatch fuel clock tb) (publish_queue p)"
      using Suc.IH by blast
    show ?thesis unfolding settles_def
    proof (intro allI impI)
      fix i st
      assume w: "waiting st = []"
      show "\<exists>st' r. sync_dispatch (Suc fuel) clock tb q i st = Some (st', r) \<and> waiting st' = []"
        using nested_dispatch_settles [OF nested] w
        by (cases "find (\<lambda>r. row_id r = i) (fk_rows (ds_store (tt_dispatch st)))") (simp_all add: Some set_store_def Let_def)
    qed
  qed
qed

text \<open>More fuel changes nothing.\<close>

definition extends_dispatcher :: "dispatcher \<Rightarrow> dispatcher \<Rightarrow> bool" where
  "extends_dispatcher disp disp' \<longleftrightarrow> (\<forall>q i st x. disp q i st = Some x \<longrightarrow> disp' q i st = Some x)"

lemma dispatch_rows_mono:
  "extends_dispatcher disp disp' \<Longrightarrow> dispatch_rows disp rows st = Some x \<Longrightarrow> dispatch_rows disp' rows st = Some x"
proof (induction disp rows st rule: dispatch_rows.induct)
  case (2 disp i q rows st)
  then obtain st' r where d: "disp q i st = Some (st', r)" by (auto split: option.splits)
  then have "disp' q i st = Some (st', r)" using 2(2) by (simp add: extends_dispatcher_def)
  then show ?case using 2 d by (cases r) auto
qed simp

lemma dispatching_publish_mono:
  assumes "extends_dispatcher disp disp'" and "dispatching_publish disp clock tb p st = Some x"
  shows "dispatching_publish disp' clock tb p st = Some x"
proof -
  have "dispatch_stored disp tb st0 = Some y \<Longrightarrow> dispatch_stored disp' tb st0 = Some y" for st0 y
    using dispatch_rows_mono [OF assms(1)] by (auto simp: dispatch_stored_def Let_def split: prod.splits if_splits)
  then show ?thesis using assms(2) by (auto simp: dispatching_publish_def Let_def split: prod.splits option.splits)
qed

lemma run_publishes_mono:
  "extends_dispatcher disp disp' \<Longrightarrow> run_publishes disp clock tb ps st = Some x \<Longrightarrow> run_publishes disp' clock tb ps st = Some x"
proof (induction disp clock tb ps st rule: run_publishes.induct)
  case (2 disp clock tb p ps st)
  then obtain st' r where d: "dispatching_publish disp clock tb p st = Some (st', r)" by (auto split: option.splits)
  then have "dispatching_publish disp' clock tb p st = Some (st', r)" using dispatching_publish_mono [OF 2(2)] by blast
  then show ?case using 2 d by (cases r) auto
qed simp

lemma nested_dispatch_mono:
  assumes "extends_dispatcher disp disp'" and "nested_dispatch disp clock tb sub row st = Some x"
  shows "nested_dispatch disp' clock tb sub row st = Some x"
proof -
  let ?st = "\<lambda>m. st\<lparr>tt_dispatch := emit [dispatched_event (ts_config sub) m] (tt_dispatch st)\<rparr>"
  obtain allowed m where gate: "allow_delivery (dc_max_deliveries (ts_config sub))
      (row\<lparr>retry_strategy := dc_retry_strategy (ts_config sub)\<rparr>) = (allowed, m)" by fastforce
  show ?thesis
  proof (cases "allowed \<and> tb_running tb")
    case True
    then obtain y where "run_publishes disp clock tb (hr_publishes (ts_handler sub m)) (?st m) = Some y"
      using assms(2) by (auto simp: nested_dispatch_def gate Let_def split: option.splits)
    with run_publishes_mono [OF assms(1) this] True show ?thesis using assms(2) by (simp add: nested_dispatch_def gate Let_def)
  next
    case False
    with assms(2) show ?thesis by (auto simp: nested_dispatch_def gate Let_def)
  qed
qed

lemma sync_dispatch_mono: "extends_dispatcher (sync_dispatch fuel clock tb) (sync_dispatch (fuel + k) clock tb)"
proof (induction fuel)
  case (Suc fuel)
  show ?case using nested_dispatch_mono [OF Suc]
    by (auto simp: extends_dispatcher_def Let_def split: option.splits)
qed (simp add: extends_dispatcher_def)

text \<open>A handler that publishes nothing is dispatched by \<open>dispatch_one\<close>, without a buffer.\<close>

lemma nested_dispatch_plain:
  assumes "\<And>m. hr_publishes (ts_handler sub m) = [] \<and> hr_finish (ts_handler sub m) = cenv"
  shows "nested_dispatch disp clock tb sub row st =
    Some (dispatch_result (dispatch_one (fake_ops (tb_dlq_enabled tb)) (ts_config sub)
      \<lparr>we_now = tc_now clock (tt_steps st), we_fault = NoFault\<rparr> cenv (tb_running tb) (tb_running tb) False row (tt_dispatch st)) st)"
  by (auto simp: nested_dispatch_def dispatch_one_def run_pipeline_def dispatch_result_def assms Let_def split: prod.split)

text \<open>
  Property C32. Synchronous delivery returns: if no chain of handlers publishes back to a subscriber it
  came from (a rank falls along the publishes), a publish through the test broker settles with the fuel
  its queue needs, all nested dispatches included, more fuel changes nothing, and no stored row is left
  waiting to be dispatched.
\<close>

theorem test_publish_terminates:
  assumes "falls tb rank" and "waiting st = []" and "fuel_for tb rank (publish_queue p) \<le> fuel"
  shows "\<exists>st' r. (\<forall>k. test_publish (fuel + k) clock tb p st = Some (st', r)) \<and> waiting st' = []"
proof -
  obtain st' r where run: "test_publish fuel clock tb p st = Some (st', r)" "waiting st' = []"
    using dispatching_publish_settles [OF sync_dispatch_settles [OF assms(1,3)] assms(2)]
    unfolding test_publish_def by blast
  then have "test_publish (fuel + k) clock tb p st = Some (st', r)" for k
    using dispatching_publish_mono [OF sync_dispatch_mono] unfolding test_publish_def by blast
  with run show ?thesis by blast
qed

definition sample_command :: "string \<Rightarrow> bytes publish_command" where
  "sample_command q = \<lparr>pc_body = Some [1], pc_extra_bodies = [], pc_queue = q, pc_in_transaction = True, pc_headers = [],
     pc_correlation_id = None, pc_activate_in = None, pc_activate_at = None, pc_timer_id = None,
     pc_timer_conflict = Ignore, pc_is_reply = False\<rparr>"

definition sample_test_subscriber :: "string \<Rightarrow> string \<Rightarrow> bytes test_command list \<Rightarrow> bytes test_subscriber" where
  "sample_test_subscriber name q pubs = \<lparr>ts_name = name, ts_queues = [q], ts_has_calls = True,
     ts_config = \<lparr>dc_call_name = name, dc_retry_strategy = None, dc_max_deliveries = None,
       dc_terminal_flush_batch_size = 1, dc_dlq = False, dc_renderer = None, dc_writer_conn = False\<rparr>,
     ts_handler = (\<lambda>m. \<lparr>hr_publishes = pubs,
       hr_finish = \<lparr>ce_calls = [CallAck 1], ce_exit = None, ce_stop = None, ce_duration = 1, ce_now = 1\<rparr>,
       hr_failed = (\<lambda>e. \<lparr>ce_calls = [], ce_exit = Some e, ce_stop = None, ce_duration = 1, ce_now = 1\<rparr>)\<rparr>)\<rparr>"

definition sample_test_broker :: "bytes test_broker" where
  "sample_test_broker = \<lparr>tb_subscribers = [sample_test_subscriber ''a'' ''orders'' [PublishOne (sample_command ''mail'')],
       sample_test_subscriber ''b'' ''mail'' []],
     tb_run_loops = False, tb_dlq_enabled = False,
     tb_producer = \<lparr>pe_encoder = (\<lambda>b. Inr (case b of None \<Rightarrow> [] | Some x \<Rightarrow> x, None)), pe_fresh_id = (\<lambda>k. ''id''), pe_duration = 0\<rparr>,
     tb_running = True\<rparr>"

definition sample_test_state :: test_state where
  "sample_test_state = \<lparr>tt_dispatch = \<lparr>ds_store = fake_init, ds_events = [], ds_buffer = [], ds_done = 0\<rparr>, tt_steps = 0, tt_woken = []\<rparr>"

theorem test_publish_terminates_witness:
  "\<exists>st' r. (\<forall>k. test_publish (3 + k) \<lparr>tc_now = of_nat, tc_monotonic = of_nat, tc_token = (\<lambda>n. n)\<rparr> sample_test_broker
     (PublishOne (sample_command ''orders'')) sample_test_state = Some (st', r)) \<and> waiting st' = []"
proof (rule test_publish_terminates)
  show "falls sample_test_broker (\<lambda>name. if name = ''a'' then 1 else 0)"
    by (simp add: falls_def sample_test_broker_def sample_test_subscriber_def find_subscriber_for_queue_def sample_command_def)
  show "waiting sample_test_state = []" by (simp add: sample_test_state_def fake_init_def)
  show "fuel_for sample_test_broker (\<lambda>name. if name = ''a'' then 1 else 0) (publish_queue (PublishOne (sample_command ''orders''))) \<le> 3"
    by (simp add: fuel_for_def sample_test_broker_def sample_test_subscriber_def find_subscriber_for_queue_def sample_command_def)
qed

end
