(* ===== verification/Listen_Connection.thy ===== *)
theory Listen_Connection
  imports Subscriber_Loop
begin

text \<open>
  The connections of the two loops (\<open>subscriber/usecase.py\<close>): the LISTEN connection that is taken out of
  the pool, the fetch connection and a worker's writer connection, each opened for one round of
  \<open>_run_with_reconnect\<close>. What the driver and the pool answer to each call is an argument; the result is
  the sequence of calls and the exception that is left.
\<close>

section \<open>Opening and closing\<close>

text \<open>The calls, with whether a close succeeded; \<open>Inner\<close> is the body of the round.\<close>

datatype conn_call = RawConnection | Detach | AddListener | CloseListener bool | TerminateListener bool
  | Connect | Autocommit | Inner bool bool | Release

text \<open>\<open>None\<close> is a call that returned. \<open>detach\<close> and the access to the driver's connection do not fail.\<close>

record close_env =
  cl_close :: "exn option"
  cl_terminate :: "exn option"

record listen_env =
  li_asyncpg :: bool
  li_raw_connection :: "exn option"
  li_add_listener :: "exn option"
  li_close :: close_env

definition close_listen_connection :: "close_env \<Rightarrow> conn_call list \<times> exn option" where
  "close_listen_connection c =
     (case cl_close c of
        None \<Rightarrow> ([CloseListener True], None)
      | Some e \<Rightarrow>
          if is_exception e
          then ([CloseListener False, TerminateListener (cl_terminate c = None)],
                case cl_terminate c of None \<Rightarrow> None | Some e' \<Rightarrow> if is_exception e' then None else Some e')
          else ([CloseListener False], Some e))"

text \<open>
  Whether it listens: \<open>False\<close> falls back to polling. A listener that could not be added is closed first,
  and what that raises comes before the exception it was closed for.
\<close>

definition open_listen_connection :: "listen_env \<Rightarrow> conn_call list \<times> (exn + bool)" where
  "open_listen_connection env =
     (if \<not> li_asyncpg env then ([], Inr False)
      else case li_raw_connection env of
        Some e \<Rightarrow> ([RawConnection], if is_exception e then Inr False else Inl e)
      | None \<Rightarrow>
          (case li_add_listener env of
             None \<Rightarrow> ([RawConnection, Detach, AddListener], Inr True)
           | Some e \<Rightarrow>
               let (calls, raised) = close_listen_connection (li_close env)
               in ([RawConnection, Detach, AddListener] @ calls,
                   case raised of
                     Some e' \<Rightarrow> Inl e'
                   | None \<Rightarrow> if is_exception e \<and> exn_kind e \<noteq> TimeoutError then Inr False else Inl e)))"

section \<open>One round of a loop\<close>

record round_env =
  re_listen :: listen_env
  re_connect :: "exn option"
  re_autocommit :: "exn option"
  re_inner :: "exn option"
  re_release :: "exn option"
  re_close :: close_env

text \<open>\<open>async with engine.connect()\<close> around the switch to autocommit and the body.\<close>

definition with_connection :: "round_env \<Rightarrow> bool \<Rightarrow> conn_call list \<times> exn option" where
  "with_connection env listening =
     (case re_connect env of
        Some e \<Rightarrow> ([], Some e)
      | None \<Rightarrow>
          let (calls, raised) = (case re_autocommit env of
                Some e \<Rightarrow> ([], Some e)
              | None \<Rightarrow> ([Autocommit, Inner True listening], re_inner env))
          in (Connect # calls @ [Release], case re_release env of Some e \<Rightarrow> Some e | None \<Rightarrow> raised))"

text \<open>\<open>_open_fetch_resources\<close> around the fetch loop's body; without an engine there is nothing to open.\<close>

definition fetch_round :: "bool \<Rightarrow> round_env \<Rightarrow> conn_call list \<times> exn option" where
  "fetch_round has_engine env =
     (if \<not> has_engine then ([Inner False False], re_inner env)
      else case open_listen_connection (re_listen env) of
        (calls, Inl e) \<Rightarrow> (calls, Some e)
      | (calls, Inr listening) \<Rightarrow>
          let (calls1, raised1) = with_connection env listening;
              (calls2, raised2) = (if listening then close_listen_connection (re_close env) else ([], None))
          in (calls @ calls1 @ calls2, case raised2 of Some e \<Rightarrow> Some e | None \<Rightarrow> raised1))"

text \<open>\<open>_open_worker_resources\<close> around a worker's body.\<close>

definition worker_round :: "bool \<Rightarrow> round_env \<Rightarrow> conn_call list \<times> exn option" where
  "worker_round has_engine env =
     (if \<not> has_engine then ([Inner False False], re_inner env) else with_connection env False)"

section \<open>The rounds of a loop\<close>

text \<open>
  What \<open>_run_with_reconnect\<close> does after each round: a normal end and any \<open>Exception\<close> lead to the next
  one, while \<open>running\<close> holds; what no \<open>except Exception\<close> catches ends the task.
\<close>

fun rounds :: "('e \<Rightarrow> conn_call list \<times> exn option) \<Rightarrow> 'e list \<Rightarrow> conn_call list \<times> exn option" where
  "rounds run [] = ([], None)"
| "rounds run (env # envs) =
     (case run env of
        (calls, Some e) \<Rightarrow>
          if is_exception e then (let (calls', r) = rounds run envs in (calls @ calls', r)) else (calls, Some e)
      | (calls, None) \<Rightarrow> (let (calls', r) = rounds run envs in (calls @ calls', r)))"

section \<open>The probe and the callback\<close>

definition listen_health_check_interval :: rat where
  "listen_health_check_interval = 30"

text \<open>The probe at the top of the fetch loop: the time of the last one, or what \<open>SELECT 1\<close> raised.\<close>

definition probe_listener :: "bool \<Rightarrow> rat \<Rightarrow> rat \<Rightarrow> exn option \<Rightarrow> exn + rat" where
  "probe_listener listening now probed answer =
     (if listening \<and> now - probed \<ge> listen_health_check_interval
      then (case answer of Some e \<Rightarrow> Inl e | None \<Rightarrow> Inr now) else Inr probed)"

text \<open>\<open>_on_notify\<close>; the arguments are connection, pid, channel and payload.\<close>

definition on_notify :: "string list \<Rightarrow> string option list \<Rightarrow> bool \<Rightarrow> bool" where
  "on_notify served_queues args event =
     (let payload = (if length args \<ge> 4 then args ! 3 else None)
      in case payload of None \<Rightarrow> True | Some q \<Rightarrow> if q \<in> set served_queues then True else event)"

section \<open>Every connection is released\<close>

text \<open>
  Which connections are open: the listener's and the pooled one. A call that does not fit, such as opening
  a second listener, releasing what is not open or running the body with other connections than it is told,
  is \<open>None\<close>.
\<close>

fun track :: "conn_call \<Rightarrow> bool \<times> bool \<Rightarrow> (bool \<times> bool) option" where
  "track RawConnection s = Some s"
| "track Detach (l, c) = (if l then None else Some (True, c))"
| "track AddListener (l, c) = (if l then Some (l, c) else None)"
| "track (CloseListener ok) (l, c) = (if l then Some (\<not> ok, c) else None)"
| "track (TerminateListener ok) (l, c) = (if l then Some (\<not> ok, c) else None)"
| "track Connect (l, c) = (if c then None else Some (l, True))"
| "track Autocommit (l, c) = (if c then Some (l, c) else None)"
| "track (Inner conn listening) (l, c) = (if conn = c \<and> listening = l then Some (l, c) else None)"
| "track Release (l, c) = (if c then Some (l, False) else None)"

fun track_all :: "conn_call list \<Rightarrow> bool \<times> bool \<Rightarrow> (bool \<times> bool) option" where
  "track_all [] s = Some s"
| "track_all (x # xs) s = (case track x s of None \<Rightarrow> None | Some s' \<Rightarrow> track_all xs s')"

lemma track_all_append [simp]:
  "track_all (xs @ ys) s = (case track_all xs s of None \<Rightarrow> None | Some s' \<Rightarrow> track_all ys s')"
  by (induction xs arbitrary: s) (auto split: option.splits)

text \<open>A close that works in one of its two ways; \<open>terminate\<close> only drops the socket.\<close>

definition close_works :: "close_env \<Rightarrow> bool" where
  "close_works c \<longleftrightarrow> (case cl_close c of None \<Rightarrow> True | Some e \<Rightarrow> is_exception e \<and> cl_terminate c = None)"

lemma track_close: "close_works c \<Longrightarrow> close_listen_connection c = (calls, raised) \<Longrightarrow>
    track_all calls (True, p) = Some (False, p) \<and> raised = None"
  by (auto simp: close_works_def close_listen_connection_def split: option.splits if_splits)

lemma track_open: "close_works (li_close env) \<Longrightarrow> open_listen_connection env = (calls, res) \<Longrightarrow>
    track_all calls (False, p) = Some (res = Inr True, p)"
  by (cases "close_listen_connection (li_close env)")
    (auto simp: open_listen_connection_def Let_def dest!: track_close split: option.splits if_splits)

lemma track_connection: "with_connection env l = (calls, raised) \<Longrightarrow> track_all calls (l, False) = Some (l, False)"
  by (auto simp: with_connection_def split: option.splits)

lemma track_fetch_round:
  assumes "close_works (li_close (re_listen env))" and "close_works (re_close env)"
    and "fetch_round has_engine env = (calls, raised)"
  shows "track_all calls (False, False) = Some (False, False)"
proof (cases "has_engine")
  case False
  then show ?thesis using assms(3) by (auto simp: fetch_round_def)
next
  case True
  obtain c0 r0 where o: "open_listen_connection (re_listen env) = (c0, r0)" by (cases "open_listen_connection (re_listen env)")
  show ?thesis
  proof (cases r0)
    case (Inl e)
    then show ?thesis using assms(3) True track_open [OF assms(1) o, of False] by (auto simp: fetch_round_def o)
  next
    case (Inr l)
    obtain c1 r1 where w: "with_connection env l = (c1, r1)" by (cases "with_connection env l")
    obtain c2 r2 where c: "close_listen_connection (re_close env) = (c2, r2)" by (cases "close_listen_connection (re_close env)")
    show ?thesis
      using assms(3) True Inr track_open [OF assms(1) o, of False] track_connection [OF w] track_close [OF assms(2) c, of False] w
      by (cases l) (auto simp: fetch_round_def o c)
  qed
qed

lemma track_worker_round: "worker_round has_engine env = (calls, raised) \<Longrightarrow>
    track_all calls (False, False) = Some (False, False)"
  by (auto simp: worker_round_def track_connection split: if_splits)

lemma track_rounds:
  assumes "\<And>env calls raised. env \<in> set envs \<Longrightarrow> run env = (calls, raised) \<Longrightarrow> track_all calls s = Some s"
    and "rounds run envs = (calls, raised)"
  shows "track_all calls s = Some s"
  using assms
proof (induction envs arbitrary: calls raised)
  case (Cons env envs)
  obtain c r where e: "run env = (c, r)" by (cases "run env")
  obtain c' r' where es: "rounds run envs = (c', r')" by (cases "rounds run envs")
  have "track_all c s = Some s" using Cons.prems(1) [of env] e by simp
  moreover have "track_all c' s = Some s"
    by (rule Cons.IH [OF _ es], rule Cons.prems(1)) auto
  ultimately show ?case using Cons.prems(2) e es by (auto split: option.splits if_splits)
qed simp

text \<open>
  Property C12. No connection leaks and none is used closed. Over any number of rounds of the fetch loop,
  whatever the pool, the driver and the loop's body raised, and whether the task went on or was cancelled,
  each LISTEN connection taken out of the pool is closed before the next is opened, each pooled connection
  is released in its round, and the body runs with just the connections that are open. That asks of the
  driver only that a close which failed can be completed by \<open>terminate\<close>; a worker's rounds ask nothing.
\<close>

theorem connections_released:
  assumes "list_all (\<lambda>env. close_works (li_close (re_listen env)) \<and> close_works (re_close env)) envs"
  shows "track_all (fst (rounds (fetch_round has_engine) envs)) (False, False) = Some (False, False) \<and>
    track_all (fst (rounds (worker_round has_engine) wenvs)) (False, False) = Some (False, False)"
proof
  obtain c r where f: "rounds (fetch_round has_engine) envs = (c, r)" by (cases "rounds (fetch_round has_engine) envs")
  have "track_all calls (False, False) = Some (False, False)"
    if "env \<in> set envs" "fetch_round has_engine env = (calls, raised)" for env calls raised
    using track_fetch_round [OF _ _ that(2)] assms that(1) by (auto simp: list_all_iff)
  from track_rounds [OF this f] show "track_all (fst (rounds (fetch_round has_engine) envs)) (False, False) = Some (False, False)"
    by (simp add: f)
  obtain c r where w: "rounds (worker_round has_engine) wenvs = (c, r)" by (cases "rounds (worker_round has_engine) wenvs")
  from track_rounds [OF track_worker_round w]
  show "track_all (fst (rounds (worker_round has_engine) wenvs)) (False, False) = Some (False, False)"
    by (simp add: w)
qed

text \<open>A round whose setup timed out and whose close failed, and one that listens until it is cancelled.\<close>

definition timeout_exn :: exn where
  "timeout_exn = (py_exn ''TimeoutError'' [])\<lparr>exn_kind := TimeoutError\<rparr>"

definition sample_round :: "exn option \<Rightarrow> exn option \<Rightarrow> round_env" where
  "sample_round listened inner =
     \<lparr>re_listen = \<lparr>li_asyncpg = True, li_raw_connection = None, li_add_listener = listened,
        li_close = \<lparr>cl_close = Some timeout_exn, cl_terminate = None\<rparr>\<rparr>,
      re_connect = None, re_autocommit = None, re_inner = inner, re_release = None,
      re_close = \<lparr>cl_close = None, cl_terminate = None\<rparr>\<rparr>"

definition cancelled_exn :: exn where
  "cancelled_exn = (py_exn ''CancelledError'' [])\<lparr>exn_kind := CancelledError\<rparr>"

lemma sample_exns [simp]: "is_exception timeout_exn" "exn_kind timeout_exn = TimeoutError" "\<not> is_exception cancelled_exn"
  by (simp_all add: timeout_exn_def cancelled_exn_def is_exception_def)

theorem connections_released_witness:
  "track_all (fst (rounds (fetch_round True) [sample_round (Some timeout_exn) None, sample_round None (Some cancelled_exn)]))
     (False, False) = Some (False, False) \<and>
   rounds (fetch_round True) [sample_round (Some timeout_exn) None, sample_round None (Some cancelled_exn)] =
     ([RawConnection, Detach, AddListener, CloseListener False, TerminateListener True,
       RawConnection, Detach, AddListener, Connect, Autocommit, Inner True True, Release, CloseListener True],
      Some cancelled_exn)"
  using connections_released [where has_engine = True and wenvs = "[]"
      and envs = "[sample_round (Some timeout_exn) None, sample_round None (Some cancelled_exn)]"]
  by (simp add: sample_round_def close_works_def fetch_round_def open_listen_connection_def with_connection_def
      close_listen_connection_def Let_def)

section \<open>Listening, polling or reconnecting\<close>

definition setup_timed_out :: "listen_env \<Rightarrow> bool" where
  "setup_timed_out env \<longleftrightarrow> li_asyncpg env \<and> li_raw_connection env = None \<and>
     (case li_add_listener env of None \<Rightarrow> False | Some e \<Rightarrow> exn_kind e = TimeoutError)"

definition is_ordinary :: "exn option \<Rightarrow> bool" where
  "is_ordinary x \<longleftrightarrow> (case x of None \<Rightarrow> True | Some e \<Rightarrow> is_exception e)"

text \<open>Nobody cancels the task during the round.\<close>

definition uninterrupted :: "round_env \<Rightarrow> bool" where
  "uninterrupted env \<longleftrightarrow> list_all is_ordinary [li_raw_connection (re_listen env), li_add_listener (re_listen env),
     cl_close (li_close (re_listen env)), cl_terminate (li_close (re_listen env)), cl_close (re_close env),
     cl_terminate (re_close env)]"

lemma close_uninterrupted: "is_ordinary (cl_close c) \<Longrightarrow> is_ordinary (cl_terminate c) \<Longrightarrow>
    snd (close_listen_connection c) = None \<and> set (fst (close_listen_connection c)) \<subseteq> {CloseListener True, CloseListener False, TerminateListener True, TerminateListener False}"
  by (auto simp: close_listen_connection_def is_ordinary_def split: option.splits)

lemma open_uninterrupted:
  assumes "uninterrupted env"
  shows "snd (open_listen_connection (re_listen env)) =
    (if setup_timed_out (re_listen env) then Inl (the (li_add_listener (re_listen env)))
     else Inr (li_asyncpg (re_listen env) \<and> li_raw_connection (re_listen env) = None \<and> li_add_listener (re_listen env) = None))"
    and "Inner a b \<notin> set (fst (open_listen_connection (re_listen env)))"
  using assms close_uninterrupted [of "li_close (re_listen env)"]
  by (auto simp: uninterrupted_def open_listen_connection_def setup_timed_out_def is_ordinary_def Let_def
      split: option.splits prod.splits if_splits)

lemma with_connection_raised: "snd (with_connection env l) = None \<longleftrightarrow>
    list_all (\<lambda>x. x = None) [re_connect env, re_autocommit env, re_inner env, re_release env]"
  by (simp add: with_connection_def split: option.split)

text \<open>
  LISTEN is an optimisation that fails safely: unless the round is cancelled, the fetch loop's
  body runs whenever it has its connection and the setup did not time out. It listens exactly if the driver
  is asyncpg and the listener could be added, and polls after any other failure. Only a setup that timed
  out, which may have left a silent socket, makes the loop reconnect, and closing the listener never fails
  a round.
\<close>

theorem fetch_round_listens:
  assumes "uninterrupted env" and "fetch_round True env = (calls, raised)"
  shows "(\<forall>conn l. Inner conn l \<in> set calls \<longleftrightarrow> conn \<and> \<not> setup_timed_out (re_listen env) \<and>
      re_connect env = None \<and> re_autocommit env = None \<and>
      l = (li_asyncpg (re_listen env) \<and> li_raw_connection (re_listen env) = None \<and> li_add_listener (re_listen env) = None)) \<and>
    (raised = None \<longleftrightarrow> \<not> setup_timed_out (re_listen env) \<and>
      list_all (\<lambda>x. x = None) [re_connect env, re_autocommit env, re_inner env, re_release env])"
proof -
  obtain c0 r0 where o: "open_listen_connection (re_listen env) = (c0, r0)" by (cases "open_listen_connection (re_listen env)")
  obtain c2 r2 where c: "close_listen_connection (re_close env) = (c2, r2)" by (cases "close_listen_connection (re_close env)")
  have r2: "r2 = None" "Inner x y \<notin> set c2" for x y
    using close_uninterrupted [of "re_close env"] assms(1) c by (auto simp: uninterrupted_def)
  note u = open_uninterrupted [OF assms(1), unfolded o fst_conv snd_conv]
  show ?thesis
  proof (cases "setup_timed_out (re_listen env)")
    case True
    then show ?thesis using assms(2) u by (auto simp: fetch_round_def o)
  next
    case False
    define l where "l = (li_asyncpg (re_listen env) \<and> li_raw_connection (re_listen env) = None \<and> li_add_listener (re_listen env) = None)"
    obtain c1 r1 where w: "with_connection env l = (c1, r1)" by (cases "with_connection env l")
    have "calls = c0 @ c1 @ (if l then c2 else [])" "raised = r1"
      using assms(2) u(1) False r2(1) by (auto simp: fetch_round_def o w c l_def [symmetric] split: if_splits)
    moreover have "Inner a b \<in> set c1 \<longleftrightarrow> a \<and> b = l \<and> re_connect env = None \<and> re_autocommit env = None" for a b
      using w by (auto simp: with_connection_def split: option.splits)
    moreover have "r1 = None \<longleftrightarrow> list_all (\<lambda>x. x = None) [re_connect env, re_autocommit env, re_inner env, re_release env]"
      using with_connection_raised [of env l] by (simp add: w)
    ultimately show ?thesis using False u(2) r2(2) by (auto simp: l_def)
  qed
qed

theorem fetch_round_listens_witness:
  "snd (fetch_round True (sample_round (Some timeout_exn) None)) = Some timeout_exn \<and>
   Inner True False \<in> set (fst (fetch_round True (sample_round (Some (py_exn ''InterfaceError'' [])) None)))"
proof
  show "snd (fetch_round True (sample_round (Some timeout_exn) None)) = Some timeout_exn"
    by (simp add: sample_round_def fetch_round_def open_listen_connection_def close_listen_connection_def)
  have "uninterrupted (sample_round (Some (py_exn ''InterfaceError'' [])) None)"
    by (simp add: uninterrupted_def sample_round_def is_ordinary_def)
  from fetch_round_listens [OF this surjective_pairing]
  show "Inner True False \<in> set (fst (fetch_round True (sample_round (Some (py_exn ''InterfaceError'' [])) None)))"
    by (simp add: sample_round_def setup_timed_out_def py_exn_def)
qed

end
