(* ===== verification/Wakeup.thy ===== *)
theory Wakeup
  imports Listen_Connection
begin

text \<open>
  How a NOTIFY reaches the fetch loop (\<open>_fetch_inner\<close>, \<open>_wait_for_notify_or_timeout\<close>, \<open>_on_notify\<close>): the
  loop clears its event, fetches, and sleeps after an idle fetch until the event is set or the backoff
  has passed. Commits of other processes, the arrival of their notifications and reconnects interleave
  with it at every await.
\<close>

section \<open>The state\<close>

text \<open>
  Where the loop is. A fetch has sent its statement once \<open>Fetching\<close> carries the ids of the rows that its
  snapshot could see; an idle wait carries its timeout.
\<close>

datatype wake_phase = AtTop | FullWait | Fetching "nat set option" | IdleWait rat | Offline

text \<open>
  \<open>wk_committed\<close> are the eligible rows committed so far, by id and queue; \<open>wk_inbox\<close> the notifications that
  Postgres has sent and the driver has not handed on, each with the rows it stands for; \<open>wk_seen\<close> what the
  last complete fetch could see.
\<close>

record wake_state =
  wk_phase :: wake_phase
  wk_event :: bool
  wk_idle :: nat
  wk_listening :: bool
  wk_committed :: "(nat \<times> string) list"
  wk_inbox :: "(nat list \<times> string) list"
  wk_seen :: "nat set"

record wake_config =
  wc_served_queues :: "string list"
  wc_min_fetch_interval :: rat
  wc_max_fetch_interval :: rat
  wc_refill_at :: nat

definition wake_init :: wake_state where
  "wake_init = \<lparr>wk_phase = Offline, wk_event = False, wk_idle = 0, wk_listening = False, wk_committed = [],
     wk_inbox = [], wk_seen = {}\<rparr>"

section \<open>The steps\<close>

text \<open>
  A round starts, with or without a listener; a transaction commits rows of a queue and its NOTIFY; the
  driver hands on the oldest notification; a worker frees slots; the loop looks at its free slots; its
  statement takes its snapshot; the fetch ends with a number of rows and the draw of the jitter; a wait
  ends, early or by its timeout; the connections are lost.
\<close>

datatype wake_label = Online bool | Committed "nat list" string | Deliver | Freed | LookAtSlots nat | Snapshot
  | FetchEnd nat rat | WaitOver bool | GoOffline

text \<open>\<open>_wait_for_notify_or_timeout\<close> ends by clearing the event.\<close>

definition end_wait :: "wake_state \<Rightarrow> wake_state" where
  "end_wait s = s\<lparr>wk_phase := AtTop, wk_event := False\<rparr>"

definition look_at_slots :: "wake_config \<Rightarrow> nat \<Rightarrow> wake_state \<Rightarrow> wake_state" where
  "look_at_slots cfg free s =
     (if free < wc_refill_at cfg then s\<lparr>wk_phase := FullWait\<rparr>
      else s\<lparr>wk_event := False, wk_phase := Fetching None\<rparr>)"

definition end_fetch :: "wake_config \<Rightarrow> nat \<Rightarrow> rat \<Rightarrow> nat set \<Rightarrow> wake_state \<Rightarrow> wake_state" where
  "end_fetch cfg n u snap s =
     (let idle = next_idle_count n (wk_idle s); s' = s\<lparr>wk_idle := idle, wk_seen := snap\<rparr>
      in if n > 0 then s'\<lparr>wk_phase := AtTop\<rparr>
         else s'\<lparr>wk_phase := IdleWait
                (compute_backoff idle (wc_max_fetch_interval cfg) (wc_min_fetch_interval cfg) u)\<rparr>)"

definition deliver :: "wake_config \<Rightarrow> string \<Rightarrow> wake_state \<Rightarrow> wake_state" where
  "deliver cfg q s = s\<lparr>wk_event := on_notify (wc_served_queues cfg) [None, None, None, Some q] (wk_event s)\<rparr>"

text \<open>
  \<open>None\<close> is a step that is not enabled. A new round has a new idle counter, and its listener hears only of
  commits to come; going offline drops what was on its way.
\<close>

fun wake_step :: "wake_config \<Rightarrow> wake_label \<Rightarrow> wake_state \<Rightarrow> wake_state option" where
  "wake_step cfg (Online listening) s =
     (if wk_phase s = Offline then Some (s\<lparr>wk_phase := AtTop, wk_idle := 0, wk_listening := listening, wk_inbox := []\<rparr>)
      else None)"
| "wake_step cfg (Committed ids q) s =
     Some (s\<lparr>wk_committed := wk_committed s @ map (\<lambda>i. (i, q)) ids,
             wk_inbox := wk_inbox s @ (if wk_listening s then [(ids, q)] else [])\<rparr>)"
| "wake_step cfg Deliver s =
     (case wk_inbox s of [] \<Rightarrow> None | (ids, q) # rest \<Rightarrow> Some (deliver cfg q (s\<lparr>wk_inbox := rest\<rparr>)))"
| "wake_step cfg Freed s = Some (s\<lparr>wk_event := True\<rparr>)"
| "wake_step cfg (LookAtSlots free) s = (if wk_phase s = AtTop then Some (look_at_slots cfg free s) else None)"
| "wake_step cfg Snapshot s =
     (if wk_phase s = Fetching None then Some (s\<lparr>wk_phase := Fetching (Some (fst ` set (wk_committed s)))\<rparr>) else None)"
| "wake_step cfg (FetchEnd n u) s =
     (case wk_phase s of Fetching (Some snap) \<Rightarrow> Some (end_fetch cfg n u snap s) | _ \<Rightarrow> None)"
| "wake_step cfg (WaitOver timed_out) s =
     (case wk_phase s of
        FullWait \<Rightarrow> if timed_out \<or> wk_event s then Some (end_wait s) else None
      | IdleWait d \<Rightarrow> if timed_out \<or> wk_event s then Some (end_wait s) else None
      | _ \<Rightarrow> None)"
| "wake_step cfg GoOffline s =
     (if wk_phase s = Offline then None else Some (s\<lparr>wk_phase := Offline, wk_listening := False, wk_inbox := []\<rparr>))"

fun wake_run :: "wake_config \<Rightarrow> wake_label list \<Rightarrow> wake_state \<Rightarrow> wake_state option" where
  "wake_run cfg [] s = Some s"
| "wake_run cfg (l # ls) s = (case wake_step cfg l s of None \<Rightarrow> None | Some s' \<Rightarrow> wake_run cfg ls s')"

section \<open>No wakeup is missed\<close>

text \<open>
  The rows of served queues that neither \<open>seen\<close> nor a notification still on its way accounts for.
\<close>

definition accounted :: "wake_config \<Rightarrow> nat set \<Rightarrow> wake_state \<Rightarrow> bool" where
  "accounted cfg seen s \<longleftrightarrow> list_all (\<lambda>(i, q). q \<in> set (wc_served_queues cfg) \<longrightarrow>
     i \<in> seen \<or> list_ex (\<lambda>(ids, q'). i \<in> set ids \<and> q' = q) (wk_inbox s)) (wk_committed s)"

text \<open>
  While the loop listens: once the statement has its snapshot, and all through the idle wait after it, a row
  that is not accounted for has set the event.
\<close>

definition wake_inv :: "wake_config \<Rightarrow> wake_state \<Rightarrow> bool" where
  "wake_inv cfg s \<longleftrightarrow>
     (\<not> wk_listening s \<longrightarrow> wk_inbox s = []) \<and>
     (wk_listening s \<longrightarrow> wk_phase s \<noteq> Offline \<and> (wk_event s \<or>
        (case wk_phase s of Fetching (Some snap) \<Rightarrow> accounted cfg snap s
         | IdleWait d \<Rightarrow> accounted cfg (wk_seen s) s | _ \<Rightarrow> True))) \<and>
     (case wk_phase s of IdleWait d \<Rightarrow> d \<le> wc_max_fetch_interval cfg | _ \<Rightarrow> True)"

lemma accounted_commit: "accounted cfg seen s \<Longrightarrow> inbox = wk_inbox s @ [(ids, q)] \<Longrightarrow>
    accounted cfg seen (s\<lparr>wk_committed := wk_committed s @ map (\<lambda>i. (i, q)) ids, wk_inbox := inbox\<rparr>)"
  by (auto simp: accounted_def list_all_iff list_ex_iff)

lemma accounted_other:
  assumes "accounted cfg seen s" and "wk_inbox s = (ids, q) # rest" and "q \<notin> set (wc_served_queues cfg)"
  shows "accounted cfg seen (s\<lparr>wk_inbox := rest\<rparr>)"
  using assms by (fastforce simp: accounted_def list_all_iff)

lemma accounted_snapshot: "accounted cfg (fst ` set (wk_committed s)) s"
  by (force simp: accounted_def list_all_iff)

lemma accounted_fields [simp]:
  "accounted cfg seen (s\<lparr>wk_phase := p\<rparr>) = accounted cfg seen s"
  "accounted cfg seen (s\<lparr>wk_event := e\<rparr>) = accounted cfg seen s"
  "accounted cfg seen (s\<lparr>wk_idle := n\<rparr>) = accounted cfg seen s"
  "accounted cfg seen (s\<lparr>wk_seen := x\<rparr>) = accounted cfg seen s"
  by (simp_all add: accounted_def)

lemma deliver_simps:
  "deliver cfg q s = (if q \<in> set (wc_served_queues cfg) then s\<lparr>wk_event := True\<rparr> else s)"
  by (simp add: deliver_def on_notify_def)

lemma wake_step_inv:
  assumes "wake_step cfg l s = Some s'" and "wake_inv cfg s"
  shows "wake_inv cfg s'"
proof (cases l)
  case (Committed ids q)
  then show ?thesis using assms
    by (auto simp: wake_inv_def intro: accounted_commit split: wake_phase.splits option.splits)
next
  case Deliver
  then show ?thesis using assms
    by (auto simp: wake_inv_def deliver_simps accounted_other split: wake_phase.splits option.splits list.splits if_splits)
next
  case (LookAtSlots free)
  then show ?thesis using assms
    by (auto simp: wake_inv_def look_at_slots_def split: if_splits)
next
  case (FetchEnd n u)
  then show ?thesis using assms
    by (auto simp: wake_inv_def end_fetch_def compute_backoff_def Let_def split: wake_phase.splits option.splits if_splits)
next
  case (WaitOver timed_out)
  then show ?thesis using assms
    by (auto simp: wake_inv_def end_wait_def split: wake_phase.splits if_splits)
qed (use assms in \<open>auto simp: wake_inv_def accounted_snapshot split: if_splits wake_phase.splits option.splits\<close>)

lemma wake_run_inv: "wake_run cfg ls s = Some s' \<Longrightarrow> wake_inv cfg s \<Longrightarrow> wake_inv cfg s'"
  by (induction cfg ls s rule: wake_run.induct) (auto intro: wake_step_inv split: option.splits)

lemma wake_init_inv: "wake_inv cfg wake_init"
  by (simp add: wake_inv_def wake_init_def)

text \<open>
  Property C10. The fetch loop misses no wakeup. Whatever commits, deliveries, fetches, waits and reconnects
  came before: while the loop listens and sleeps after an idle fetch, a committed row of one of its queues
  could be seen by that fetch, or its notification is still on its way, or the event is set and the sleep
  can end at once. A notification on its way sets the event when it arrives if its queue is served. That
  holds for notifications lost with an old connection too, and no sleep is longer than
  \<open>max_fetch_interval\<close>, which bounds the delay of a loop that cannot listen.
\<close>

theorem no_missed_wakeup:
  assumes "wake_run cfg ls wake_init = Some s" and "wk_phase s = IdleWait d"
  shows "d \<le> wc_max_fetch_interval cfg \<and>
    (\<not> wk_listening s \<or> wake_step cfg (WaitOver False) s \<noteq> None \<or>
      list_all (\<lambda>(i, q). q \<notin> set (wc_served_queues cfg) \<or> i \<in> wk_seen s \<or>
        list_ex (\<lambda>(ids, q'). i \<in> set ids \<and> q' = q) (wk_inbox s)) (wk_committed s)) \<and>
    (case wk_inbox s of [] \<Rightarrow> True
     | (ids, q) # rest \<Rightarrow> q \<notin> set (wc_served_queues cfg) \<or>
         (case wake_step cfg Deliver s of None \<Rightarrow> False | Some s' \<Rightarrow> wake_step cfg (WaitOver False) s' \<noteq> None))"
proof -
  have "wake_inv cfg s" using wake_run_inv [OF assms(1) wake_init_inv] .
  then have "d \<le> wc_max_fetch_interval cfg" "wk_listening s \<Longrightarrow> wk_event s \<or> accounted cfg (wk_seen s) s"
    using assms(2) by (simp_all add: wake_inv_def)
  then show ?thesis using assms(2)
    by (auto simp: accounted_def list_all_iff deliver_simps split: list.split)
qed

definition sample_wake :: wake_config where
  "sample_wake = \<lparr>wc_served_queues = [''q''], wc_min_fetch_interval = 1, wc_max_fetch_interval = 10, wc_refill_at = 1\<rparr>"

text \<open>A row commits while an empty fetch is under way; its notification comes during the sleep.\<close>

definition sample_wake_run :: "wake_label list" where
  "sample_wake_run = [Online True, LookAtSlots 5, Snapshot, Committed [7] ''q'', FetchEnd 0 1]"

lemma sample_wake_state: "wake_run sample_wake sample_wake_run wake_init =
    Some \<lparr>wk_phase = IdleWait 1, wk_event = False, wk_idle = 1, wk_listening = True,
      wk_committed = [(7, ''q'')], wk_inbox = [([7], ''q'')], wk_seen = {}\<rparr>"
  by (simp add: sample_wake_run_def sample_wake_def wake_init_def look_at_slots_def end_fetch_def
      next_idle_count_def compute_backoff_def backoff_exp_cap_def)

theorem no_missed_wakeup_witness:
  "case wake_run sample_wake (sample_wake_run @ [Deliver]) wake_init of
     None \<Rightarrow> False | Some s \<Rightarrow> wake_step sample_wake (WaitOver False) s \<noteq> None"
  using no_missed_wakeup [OF sample_wake_state, of 1]
  by (simp add: sample_wake_def sample_wake_run_def wake_init_def look_at_slots_def end_fetch_def
      next_idle_count_def compute_backoff_def backoff_exp_cap_def deliver_simps)

end
