(* ===== verification/Handler_Pipeline.thy ===== *)
theory Handler_Pipeline
  imports Lifecycle Dispatch_Properties
begin

text \<open>
  \<open>process_message\<close> (\<open>subscriber/usecase.py\<close>) and the middleware the broker puts first
  (\<open>_CaptureExceptionMiddleware\<close> in \<open>broker.py\<close>): entering the middlewares, choosing the handler, calling
  it, publishing its response and leaving the middlewares through the exit stack. A middleware, the
  handler and its filter are arguments: what they do to the message is a list of the calls that
  \<open>Message\<close> models, and what they raise is an exception.
\<close>

section \<open>The parts of a pipeline\<close>

text \<open>What \<open>__aexit__\<close> does with the exception in flight: a false result, a true one, or a raise.\<close>

datatype exit_result = Passes | Swallows | Raises exn

record middleware =
  mw_enter :: "msg_call list \<times> exn option"
  mw_exit :: "inner_message \<Rightarrow> exn option \<Rightarrow> msg_call list \<times> exit_result"

text \<open>
  A handler: \<open>is_suitable\<close> parses the message or answers \<open>None\<close>; the call, with the consume scopes of the
  middlewares around it; and what each of its foreign publishers ends with.
\<close>

record 'b handler_item =
  hi_suitable :: "inner_message \<Rightarrow> exn + stream_message option"
  hi_call :: "stream_message \<Rightarrow> inner_message \<Rightarrow> msg_call list \<times> (exn + 'b handler_result)"
  hi_publishers :: "exn option list"

record 'b pipeline =
  pl_middlewares :: "middleware list"
  pl_handlers :: "'b handler_item list"
  pl_propagate :: bool
  pl_respond :: "'b publish_command \<Rightarrow> exn option"

text \<open>\<open>_CaptureExceptionMiddleware\<close>: \<open>after_processed\<close> stores the exception and passes it on.\<close>

definition capture_middleware :: middleware where
  "capture_middleware = \<lparr>mw_enter = ([], None),
     mw_exit = (\<lambda>m exc. (case exc of None \<Rightarrow> [] | Some e \<Rightarrow> [Capture e], Passes))\<rparr>"

section \<open>The stages\<close>

text \<open>What happened, in order; a middleware is known by its position.\<close>

datatype pipeline_step = Entering nat | HandlerCalled | Responded | Relayed nat | Exiting nat

fun enter_all :: "nat \<Rightarrow> middleware list \<Rightarrow> msg_call list \<times> pipeline_step list \<times> exn option" where
  "enter_all k [] = ([], [], None)"
| "enter_all k (mw # mws) =
     (case mw_enter mw of
        (calls, Some e) \<Rightarrow> (calls, [Entering k], Some e)
      | (calls, None) \<Rightarrow>
          (let (calls', steps, raised) = enter_all (k + 1) mws in (calls @ calls', Entering k # steps, raised)))"

text \<open>The first suitable handler; an error of a parser or a filter ends the search.\<close>

fun select_handler :: "'b handler_item list \<Rightarrow> inner_message \<Rightarrow>
    exn + ('b handler_item \<times> stream_message) option" where
  "select_handler [] m = Inr None"
| "select_handler (h # hs) m =
     (case hi_suitable h m of
        Inl e \<Rightarrow> Inl e
      | Inr (Some msg) \<Rightarrow> Inr (Some (h, msg))
      | Inr None \<Rightarrow> select_handler hs m)"

fun relay :: "nat \<Rightarrow> exn option list \<Rightarrow> pipeline_step list \<times> exn option" where
  "relay k [] = ([], None)"
| "relay k (Some e # ps) = ([Relayed k], Some e)"
| "relay k (None # ps) = (let (steps, raised) = relay (k + 1) ps in (Relayed k # steps, raised))"

text \<open>From the handler's result to the publishers: the response publisher comes first.\<close>

definition publish_result :: "'b pipeline \<Rightarrow> 'b handler_item \<Rightarrow> stream_message \<Rightarrow> 'b handler_result \<Rightarrow>
    pipeline_step list \<times> (exn + 'b handler_result)" where
  "publish_result pl h msg res =
     (let res' = complete_result (pl_propagate pl) msg res
      in case process_result (pl_propagate pl) msg (length (hi_publishers h)) res of
           Inl e \<Rightarrow> ([], Inl e)
         | Inr (Some cmd) \<Rightarrow> ([Responded], case pl_respond pl cmd of Some e \<Rightarrow> Inl e | None \<Rightarrow> Inr res')
         | Inr None \<Rightarrow>
             (let (steps, raised) = relay 0 (hi_publishers h)
              in (steps, case raised of Some e \<Rightarrow> Inl e | None \<Rightarrow> Inr res')))"

text \<open>The exit stack, the last middleware first; each sees the exception the one before left.\<close>

fun exit_all :: "(nat \<times> middleware) list \<Rightarrow> inner_message \<Rightarrow> exn option \<Rightarrow>
    msg_call list \<times> pipeline_step list \<times> exn option" where
  "exit_all [] m exc = ([], [], exc)"
| "exit_all ((k, mw) # rest) m exc =
     (let (calls, r) = mw_exit mw m exc;
          exc' = (case r of Passes \<Rightarrow> exc | Swallows \<Rightarrow> None | Raises e \<Rightarrow> Some e);
          (calls', steps, final) = exit_all rest (apply_calls calls m) exc'
      in (calls @ calls', Exiting k # steps, final))"

definition subscriber_not_found :: exn where
  "subscriber_not_found = py_exn ''SubscriberNotFound'' ''There is no suitable handler''"

text \<open>The body of the loop over the handlers, once the middlewares are entered.\<close>

definition run_handler :: "'b pipeline \<Rightarrow> 'b handler_item \<Rightarrow> stream_message \<Rightarrow> inner_message \<Rightarrow>
    msg_call list \<times> pipeline_step list \<times> (exn + 'b handler_result)" where
  "run_handler pl h msg m =
     (case hi_call h msg m of
        (calls, Inl e) \<Rightarrow> (calls, [HandlerCalled], Inl e)
      | (calls, Inr res) \<Rightarrow> (let (steps, res') = publish_result pl h msg res in (calls, HandlerCalled # steps, res')))"

text \<open>
  A middleware that fails to enter ends the message with none of them left; so does what no
  \<open>except Exception\<close> catches while a handler is chosen. An exception that a middleware swallows turns into
  an empty response.
\<close>

definition process_message :: "'b pipeline \<Rightarrow> inner_message \<Rightarrow>
    msg_call list \<times> pipeline_step list \<times> (exn + 'b handler_result)" where
  "process_message pl m =
     (let (calls1, steps1, failed) = enter_all 0 (pl_middlewares pl); m1 = apply_calls calls1 m
      in case failed of
        Some e \<Rightarrow> (calls1, steps1, Inl e)
      | None \<Rightarrow>
          let leave = (\<lambda>calls2 steps2 res.
                let (calls3, steps3, exc) = exit_all (rev (enumerate 0 (pl_middlewares pl))) (apply_calls calls2 m1)
                      (case res of Inl e \<Rightarrow> Some e | Inr r \<Rightarrow> None)
                in (calls1 @ calls2 @ calls3, steps1 @ steps2 @ steps3,
                    case (exc, res) of (Some e, _) \<Rightarrow> Inl e | (None, Inr r) \<Rightarrow> Inr r
                    | (None, Inl e) \<Rightarrow> Inr (PlainResult [] None)))
          in case select_handler (pl_handlers pl) m1 of
               Inl e \<Rightarrow> if is_exception e then leave [] [] (Inl e) else (calls1, steps1, Inl e)
             | Inr None \<Rightarrow> leave [] [] (Inl subscriber_not_found)
             | Inr (Some (h, msg)) \<Rightarrow>
                 (case run_handler pl h msg m1 of (calls2, steps2, res) \<Rightarrow> leave calls2 steps2 res))"

text \<open>The pipeline as \<open>consume\<close> and \<open>dispatch_one\<close> see it.\<close>

definition consume_env_of :: "'b pipeline \<Rightarrow> exn option \<Rightarrow> rat \<Rightarrow> time \<Rightarrow> inner_message \<Rightarrow> consume_env" where
  "consume_env_of pl stop duration now m =
     (let (calls, steps, res) = process_message pl m
      in \<lparr>ce_calls = calls, ce_exit = (case res of Inl e \<Rightarrow> Some e | Inr r \<Rightarrow> None), ce_stop = stop,
          ce_duration = duration, ce_now = now\<rparr>)"

section \<open>Facts\<close>

definition is_middleware_step :: "pipeline_step \<Rightarrow> bool" where
  "is_middleware_step s \<longleftrightarrow> (case s of Entering k \<Rightarrow> True | Exiting k \<Rightarrow> True | _ \<Rightarrow> False)"

lemma entering_Suc: "map Entering [k..<k + Suc n] = Entering k # map Entering [k + 1..<k + 1 + n]"
  by (simp add: upt_conv_Cons del: upt_Suc)

lemma enter_all_steps: "enter_all k mws = (calls, steps, raised) \<Longrightarrow>
    (raised = None \<longrightarrow> steps = map Entering [k..<k + length mws]) \<and>
    (raised \<noteq> None \<longrightarrow> (\<exists>n < length mws. steps = map Entering [k..<k + Suc n]))"
proof (induction k mws arbitrary: calls steps raised rule: enter_all.induct)
  case (2 k mw mws)
  obtain c r where e: "mw_enter mw = (c, r)" by (cases "mw_enter mw")
  show ?case
  proof (cases r)
    case (Some x)
    then show ?thesis using "2.prems" e by (intro conjI impI exI [of _ 0]) auto
  next
    case None
    obtain c' s' r' where a: "enter_all (k + 1) mws = (c', s', r')" by (cases "enter_all (k + 1) mws") auto
    have out: "steps = Entering k # s'" "raised = r'" using "2.prems" e None a by auto
    note ih = "2.IH" [OF e [symmetric] None a]
    show ?thesis
    proof (intro conjI impI)
      assume "raised = None"
      then have "s' = map Entering [k + 1..<k + 1 + length mws]" using ih out(2) by simp
      then show "steps = map Entering [k..<k + length (mw # mws)]" by (simp only: out(1) list.size(4) add_0_right One_nat_def [symmetric] Suc_eq_plus1 [symmetric] entering_Suc)
    next
      assume "raised \<noteq> None"
      then obtain n where n: "n < length mws" "s' = map Entering [k + 1..<k + 1 + Suc n]" using ih out(2) by blast
      then have "steps = map Entering [k..<k + Suc (Suc n)]" by (simp only: out(1) entering_Suc)
      then show "\<exists>n<length (mw # mws). steps = map Entering [k..<k + Suc n]"
        using n(1) by (intro exI [of _ "Suc n"]) simp
    qed
  qed
qed simp

lemma exit_all_steps: "exit_all kmws m exc = (calls, steps, final) \<Longrightarrow> steps = map (Exiting \<circ> fst) kmws"
  by (induction kmws m exc arbitrary: calls steps final rule: exit_all.induct)
    (auto simp: Let_def split: prod.splits)

lemma relay_steps: "relay k ps = (steps, raised) \<Longrightarrow> list_all (\<lambda>s. \<not> is_middleware_step s \<and> s \<noteq> HandlerCalled) steps"
  by (induction k ps arbitrary: steps raised rule: relay.induct)
    (auto simp: is_middleware_step_def Let_def split: prod.splits)

lemma publish_result_steps: "publish_result pl h msg res = (steps, r) \<Longrightarrow>
    list_all (\<lambda>s. \<not> is_middleware_step s \<and> s \<noteq> HandlerCalled) steps"
  using relay_steps
  by (fastforce simp: publish_result_def is_middleware_step_def Let_def split: sum.splits option.splits prod.splits)

lemma run_handler_steps: "run_handler pl h msg m = (calls, steps, r) \<Longrightarrow>
    \<exists>rest. steps = HandlerCalled # rest \<and> list_all (\<lambda>s. \<not> is_middleware_step s \<and> s \<noteq> HandlerCalled) rest"
  using publish_result_steps [of pl h msg]
  by (fastforce simp: run_handler_def split: sum.splits prod.splits)

lemma fst_rev_enumerate: "map (Exiting \<circ> fst) (rev (enumerate 0 xs)) = map Exiting (rev [0..<length xs])"
  by (simp add: rev_map [symmetric] map_map [symmetric] del: map_map)

text \<open>What \<open>process_message\<close> did between entering and leaving, if it got that far.\<close>

definition entered :: "'b pipeline \<Rightarrow> bool" where
  "entered pl \<longleftrightarrow> snd (snd (enter_all 0 (pl_middlewares pl))) = None"

definition at_handlers :: "'b pipeline \<Rightarrow> inner_message \<Rightarrow> inner_message" where
  "at_handlers pl m = apply_calls (fst (enter_all 0 (pl_middlewares pl))) m"

definition search_interrupted :: "'b pipeline \<Rightarrow> inner_message \<Rightarrow> bool" where
  "search_interrupted pl m \<longleftrightarrow> (case select_handler (pl_handlers pl) (at_handlers pl m) of
     Inl e \<Rightarrow> \<not> is_exception e | Inr x \<Rightarrow> False)"

lemma process_message_steps:
  assumes "process_message pl m = (calls, steps, res)"
  shows "if \<not> entered pl then \<exists>n < length (pl_middlewares pl). steps = map Entering [0..<Suc n]
    else if search_interrupted pl m then steps = map Entering [0..<length (pl_middlewares pl)]
    else \<exists>mid. steps = map Entering [0..<length (pl_middlewares pl)] @ mid @ map Exiting (rev [0..<length (pl_middlewares pl)]) \<and>
      (mid = [] \<or> (\<exists>rest. mid = HandlerCalled # rest \<and> list_all (\<lambda>s. \<not> is_middleware_step s \<and> s \<noteq> HandlerCalled) rest))"
proof -
  obtain c1 s1 f where e: "enter_all 0 (pl_middlewares pl) = (c1, s1, f)" by (cases "enter_all 0 (pl_middlewares pl)") auto
  note s1 = enter_all_steps [OF e, simplified]
  show ?thesis
  proof (cases f)
    case (Some x)
    then show ?thesis using assms s1 by (auto simp: entered_def process_message_def e Let_def)
  next
    case None
    have leave: "fst (snd (exit_all (rev (enumerate 0 (pl_middlewares pl))) m' exc)) = map Exiting (rev [0..<length (pl_middlewares pl)])"
      for m' exc
      using exit_all_steps [of _ m' exc] fst_rev_enumerate [of "pl_middlewares pl"] by (metis prod.collapse)
    show ?thesis
    proof (cases "select_handler (pl_handlers pl) (apply_calls c1 m)")
      case (Inl x)
      then show ?thesis using assms s1 None leave
        by (auto simp: entered_def search_interrupted_def at_handlers_def process_message_def e Let_def case_prod_unfold split: if_splits)
    next
      case (Inr y)
      show ?thesis
      proof (cases y)
        case None
        then show ?thesis using assms s1 Inr \<open>f = None\<close> leave
          by (auto simp: entered_def search_interrupted_def at_handlers_def process_message_def e Let_def case_prod_unfold)
      next
        case (Some hm)
        obtain h msg where hm: "hm = (h, msg)" by (cases hm)
        obtain c2 s2 r2 where r: "run_handler pl h msg (apply_calls c1 m) = (c2, s2, r2)"
          by (cases "run_handler pl h msg (apply_calls c1 m)") auto
        have "steps = s1 @ s2 @ map Exiting (rev [0..<length (pl_middlewares pl)])"
          using assms Inr Some hm \<open>f = None\<close> leave by (auto simp: process_message_def e r Let_def case_prod_unfold)
        then show ?thesis using run_handler_steps [OF r] s1 Inr Some \<open>f = None\<close>
          by (auto simp: entered_def search_interrupted_def at_handlers_def e)
      qed
    qed
  qed
qed

section \<open>Properties\<close>


text \<open>A handler that raises, between the capture middleware and one that swallows.\<close>

definition swallowing :: middleware where
  "swallowing = \<lparr>mw_enter = ([], None), mw_exit = (\<lambda>m exc. ([], Swallows))\<rparr>"

definition nack_on_error :: "time \<Rightarrow> middleware" where
  "nack_on_error t = \<lparr>mw_enter = ([], None), mw_exit = (\<lambda>m exc. case exc of
     None \<Rightarrow> ([CallAck t], Passes) | Some e \<Rightarrow> ([CallNack t], Passes))\<rparr>"

definition raising_handler :: "exn \<Rightarrow> bytes handler_item" where
  "raising_handler e = \<lparr>hi_suitable = (\<lambda>m. Inr (Some (parse_message m))), hi_call = (\<lambda>msg m. ([], Inl e)),
     hi_publishers = []\<rparr>"

definition sample_pipeline :: "bytes pipeline" where
  "sample_pipeline = \<lparr>pl_middlewares = [nack_on_error 95, capture_middleware],
     pl_handlers = [raising_handler (py_exn ''ValueError'' ''no'')], pl_propagate = False, pl_respond = (\<lambda>cmd. None)\<rparr>"

lemmas pipeline_defs = sample_pipeline_def nack_on_error_def capture_middleware_def raising_handler_def


section \<open>From the exception to the retry\<close>

text \<open>Middlewares that do nothing but pass an exception on, like the user's own where they only observe.\<close>

definition observes :: "exn \<Rightarrow> middleware \<Rightarrow> bool" where
  "observes e mw \<longleftrightarrow> mw_enter mw = ([], None) \<and> (\<forall>m. mw_exit mw m (Some e) = ([], Passes))"

lemma enter_observers: "list_all (observes e) mws \<Longrightarrow> enter_all k mws = ([], map Entering [k..<k + length mws], None)"
  by (induction mws arbitrary: k) (simp_all add: observes_def upt_conv_Cons del: upt_Suc)

lemma exit_observers: "list_all (\<lambda>(k, mw). observes e mw) kmws \<Longrightarrow>
    exit_all (kmws @ rest) m (Some e) =
      (let (calls, steps, final) = exit_all rest m (Some e) in (calls, map (Exiting \<circ> fst) kmws @ steps, final))"
  by (induction kmws) (auto simp: observes_def Let_def split: prod.splits)

lemma enumerate_all: "list_all (\<lambda>(k, x). P x) (enumerate n xs) \<longleftrightarrow> list_all P xs"
  by (induction xs arbitrary: n) auto

text \<open>
  The acknowledgement middleware of FastStream comes first, the broker's capture middleware second: on the
  way out the exception is stored before the nack asks the retry strategy.
\<close>

lemma raised_message:
  assumes "pl_middlewares pl = ack # capture_middleware # users" and "mw_enter ack = ([], None)"
    and "list_all (observes e) users" and "\<And>m'. mw_exit ack m' (Some e) = ([CallNack t], Passes)"
    and "select_handler (pl_handlers pl) m = Inr (Some (h, msg))" and "hi_call h msg m = (calls, Inl e)"
  shows "\<exists>steps. process_message pl m = (calls @ [Capture e, CallNack t], steps, Inl e)"
proof -
  have enter: "\<exists>steps. enter_all 0 (pl_middlewares pl) = ([], steps, None)"
    using enter_observers [OF assms(3), of 2] by (simp add: assms(1,2) capture_middleware_def numeral_2_eq_2)
  have "list_all (\<lambda>(k, mw). observes e mw) (rev (enumerate 2 users))"
    using assms(3) enumerate_all [of "observes e" 2 users] by (simp add: list_all_iff)
  from exit_observers [OF this, of "[(1, capture_middleware), (0, ack)]"]
  have "\<exists>steps. exit_all (rev (enumerate 0 (pl_middlewares pl))) m' (Some e) = ([Capture e, CallNack t], steps, Some e)" for m'
    by (simp add: assms(1,4) capture_middleware_def numeral_2_eq_2)
  from this [of "apply_calls calls m"] enter show ?thesis
    unfolding process_message_def
    by (elim exE) (simp add: run_handler_def assms(5,6) Let_def)
qed

lemma apply_calls_no_ack:
  "list_all (\<lambda>c. \<not> is_ack_call c) cs \<Longrightarrow> \<exists>le. apply_calls cs m = m\<lparr>last_exception := le\<rparr>"
proof (induction cs arbitrary: m)
  case Nil
  then show ?case by (intro exI [of _ "last_exception m"]) simp
next
  case (Cons c cs)
  then obtain e where "c = Capture e" by (cases c) auto
  then show ?case using Cons.IH [of "m\<lparr>last_exception := Some e\<rparr>"] Cons.prems by auto
qed

text \<open>
  Property C14. The retry strategy decides on the handler's own exception. With FastStream's acknowledgement
  middleware first and nacking on an error, the broker's capture middleware second and any number of
  observers after them, a handler that raises without acknowledging makes the nack ask the strategy for
  this exception, with the attempt counted. If the strategy answers with a delay, the dispatch over
  Postgres, whose write succeeds, leaves the table as it was except for the leased row: unleased again, due
  after the delay, with its attempts counted and nothing archived.
\<close>

theorem handler_exception_retried:
  assumes "pl_middlewares pl = ack # capture_middleware # users" and "mw_enter ack = ([], None)"
    and "list_all (observes e) users" and "\<And>m'. mw_exit ack m' (Some e) = ([CallNack t], Passes)"
    and "select_handler (pl_handlers pl) gated = Inr (Some (h, msg))" and "hi_call h msg gated = (calls, Inl e)"
    and "list_all (\<lambda>c. \<not> is_ack_call c) calls" and "exn_kind e = PlainError"
    and "gated = m\<lparr>retry_strategy := dc_retry_strategy cfg\<rparr>" and "passes_gate cfg m" and "outcome m = None"
    and "dc_retry_strategy cfg = Some strategy"
    and "strategy (case first_attempt_at m of None \<Rightarrow> t | Some x \<Rightarrow> x) t (attempts_count m + 1) (Some e) = Inr (Some delay)"
    and "wf_rows (db_rows (ds_store st))" and "dc_writer_conn cfg" and "acquired_token m = Some tok"
    and "we_fault wenv = NoFault"
    and "dispatch_one (real_ops order locked (dc_dlq cfg)) cfg wenv (consume_env_of pl stop duration now gated) True running' False m st = (st', r)"
  shows "db_rows (ds_store st') = map (\<lambda>x. if holds_lease (row_id m) tok x
      then reschedule_row (we_now wenv) \<lparr>rw_delay = delay, rw_attempts_count = attempts_count m + 1,
        rw_first_attempt_at = Some (case first_attempt_at m of None \<Rightarrow> t | Some x \<Rightarrow> x), rw_last_attempt_at = Some t\<rparr> x
      else x) (db_rows (ds_store st)) \<and> db_dlq (ds_store st') = db_dlq (ds_store st)"
proof -
  define cenv where "cenv = consume_env_of pl stop duration now gated"
  obtain steps where p: "process_message pl gated = (calls @ [Capture e, CallNack t], steps, Inl e)"
    using raised_message [OF assms(1-6)] by blast
  have calls: "ce_calls cenv = calls @ [Capture e, CallNack t]" "ce_exit cenv = Some e"
    by (simp_all add: cenv_def consume_env_of_def p)
  obtain le where le: "apply_calls calls gated = gated\<lparr>last_exception := le\<rparr>"
    using apply_calls_no_ack [OF assms(7)] by blast
  define first where "first = (case first_attempt_at m of None \<Rightarrow> t | Some x \<Rightarrow> x)"
  define mf where "mf = (record_attempt t (gated\<lparr>last_exception := Some e\<rparr>))
    \<lparr>outcome := Some (Retry delay), handler_duration_seconds := Some (ce_duration cenv)\<rparr>"
  have "consume True cenv gated = ((record_attempt t (gated\<lparr>last_exception := Some e\<rparr>))\<lparr>outcome := Some (Retry delay)\<rparr>, None)"
  proof -
    have "apply_calls (ce_calls cenv) gated = msg_nack t (gated\<lparr>last_exception := Some e\<rparr>)"
      by (simp add: calls apply_calls_append le)
    also have "\<dots> = (record_attempt t (gated\<lparr>last_exception := Some e\<rparr>))\<lparr>outcome := Some (Retry delay)\<rparr>"
      using assms(9,11-13) by (simp add: msg_nack_def update_state_if_not_set_def msg_nack_raw_def record_attempt_def Let_def
          split: option.splits)
    finally show ?thesis using assms(8) by (simp add: consume_def calls(2))
  qed
  moreover have "allow_delivery (dc_max_deliveries cfg) gated = (True, gated)"
    using assms(10) by (auto simp: assms(9) allow_delivery_def passes_gate_def split: option.splits)
  ultimately have s: "settled cfg cenv True running' m = Some mf"
    by (simp add: settled_def assms(9) [symmetric] Let_def state_set_def assert_state_set_def mf_def)
  have fields: "outcome mf = Some (Retry delay)" "row_id mf = row_id m" "acquired_token mf = Some tok"
    "attempts_count mf = attempts_count m + 1" "first_attempt_at mf = Some first" "last_attempt_at mf = Some t"
    using assms(16) by (simp_all add: mf_def record_attempt_def assms(9) first_def split: option.split)
  have payload: "dlq_payload_of cfg mf = Inr None" by (rule dlq_payload_of_retry [OF fields(1)])
  from real.dispatch_effect [OF assms(18) [folded cenv_def]] s assms(14,15,16) fields(1)
  have "r \<noteq> Inr True" and "(db_rows (ds_store st'), db_dlq (ds_store st')) =
      decided cfg wenv mf (db_rows (ds_store st), db_dlq (ds_store st))"
    using payload assms(17) by (auto simp: db_inv_def)
  then show ?thesis
    by (simp add: decided_def decided_rows_def decided_archive_def fields payload rescheduled_def retry_write_of_def
        archived_def first_def)
qed

definition retrying_config :: dispatch_config where
  "retrying_config = sample_config\<lparr>dc_retry_strategy := Some (\<lambda>first last attempts exc. Inr (Some 4))\<rparr>"

theorem handler_exception_retried_witness:
  "db_rows (ds_store (fst (dispatch_one (real_ops [] {} True) retrying_config sample_write
      (consume_env_of sample_pipeline None 1 96 (sample_leased\<lparr>retry_strategy := dc_retry_strategy retrying_config\<rparr>))
      True True False sample_leased sample_state))) =
    map (\<lambda>x. if holds_lease 2 7 x then reschedule_row 97 \<lparr>rw_delay = 4, rw_attempts_count = 1,
      rw_first_attempt_at = Some 95, rw_last_attempt_at = Some 95\<rparr> x else x) (db_rows sample_db)"
proof -
  let ?gated = "sample_leased\<lparr>retry_strategy := dc_retry_strategy retrying_config\<rparr>"
  let ?h = "raising_handler (py_exn ''ValueError'' ''no'')"
  have pl: "pl_middlewares sample_pipeline = nack_on_error 95 # capture_middleware # []"
    "mw_enter (nack_on_error 95) = ([], None)" "\<And>m'. mw_exit (nack_on_error 95) m' (Some e) = ([CallNack 95], Passes)" for e
    by (simp_all add: pipeline_defs)
  have sel: "select_handler (pl_handlers sample_pipeline) ?gated = Inr (Some (?h, parse_message ?gated))"
    "hi_call ?h msg ?gated = ([], Inl (py_exn ''ValueError'' ''no''))" for msg
    by (simp_all add: pipeline_defs)
  have row: "passes_gate retrying_config sample_leased" "outcome sample_leased = None" "attempts_count sample_leased = 0"
    "first_attempt_at sample_leased = None"
    by (simp_all add: passes_gate_def retrying_config_def sample_defs new_row_def claim_row_def row_to_message_def
        outbox_row.defs inner_message.defs)
  have cfg: "dc_retry_strategy retrying_config = Some (\<lambda>first last attempts exc. Inr (Some 4))"
    "dc_writer_conn retrying_config" "dc_dlq retrying_config" "we_fault sample_write = NoFault" "we_now sample_write = 97"
    "ds_store sample_state = sample_db"
    by (simp_all add: retrying_config_def sample_defs)
  have "exn_kind (py_exn ''ValueError'' ''no'') = PlainError" by (simp add: py_exn_def)
  from handler_exception_retried [OF pl(1,2) _ pl(3) sel _ this refl row(1,2) cfg(1) _ _ cfg(2) _ cfg(4) prod.collapse [symmetric],
      where delay = 4 and st = sample_state and tok = 7 and order = "[]" and locked = "{}" and stop = None
        and duration = 1 and now = 96 and running' = True]
  show ?thesis using sample_db_wf by (simp add: cfg row)
qed

end
