(* ===== verification/Subscriber_Calls.thy ===== *)
theory Subscriber_Calls
  imports Wakeup
begin

text \<open>
  The subscriber's calls outside its loops (\<open>subscriber/usecase.py\<close>): a stop that a handler asks for, the
  channel it listens on beside the one the client notifies (\<open>client.py\<close>), and what it refuses.
\<close>

section \<open>Stopping from a handler\<close>

text \<open>
  \<open>_stop_from_handler\<close>, with whether the caller is one of the subscriber's tasks: a task of its own runs
  the stop and the caller goes on, or the stop is awaited here and the application may exit.
\<close>

datatype stop_call = StopInNewTask | StopAwaited bool

definition stop_from_handler :: "bool \<Rightarrow> bool \<Rightarrow> bool \<Rightarrow> stop_call" where
  "stop_from_handler in_own_task exit_app has_app =
     (if in_own_task then StopInNewTask else StopAwaited (exit_app \<and> has_app))"

text \<open>
  Why it may not wait in its own task: the worker that runs the handler holds its row until the handler
  returns, and while it does the drain is not over, in any reachable state.
\<close>

theorem busy_worker_blocks_drain:
  assumes "loop_reachable (pg_clients d) db_inv cfg s" and "dc_writer_conn (lc_dispatch cfg)"
    and "dc_dlq (lc_dispatch cfg) \<longrightarrow> d" and "Busy g buffer m \<in> set (ls_workers s)"
  shows "\<not> drained s"
proof
  assume "drained s"
  moreover have "ls_unfinished s = length (ls_inflight s) + total_load (ls_workers s)"
    using pg_reachable_inv [OF assms(1-3)] by (simp add: loop_inv_def)
  ultimately have "total_load (ls_workers s) = 0" by (simp add: drained_def)
  then have "worker_load (Busy g buffer m) = 0" using assms(4) by (auto simp: total_load_def)
  then show False by simp
qed

section \<open>The channel\<close>

text \<open>The channel of a table, as the subscriber listens on it and as the client notifies it.\<close>

definition notify_channel :: "nat list \<Rightarrow> nat list" where
  "notify_channel table = channel_prefix @ table"

definition inserter_channel :: "nat list \<Rightarrow> nat list" where
  "inserter_channel table = channel_prefix @ table"

text \<open>Both name the same channel, and Postgres does not cut it for a table that passed the guard.\<close>

theorem channel_reaches_listener:
  "notify_channel table = inserter_channel table \<and>
   (validate_table_identifiers table = None \<longrightarrow> length (utf8 (notify_channel table)) \<le> postgres_ident_max_bytes)"
  by (auto simp: notify_channel_def inserter_channel_def validate_table_identifiers_def Let_def
    length_longest_derived length_suffixes postgres_ident_max_bytes_def split: if_splits)

section \<open>What is refused\<close>

definition unsupported_peek :: exn where
  "unsupported_peek = py_exn ''NotImplementedError'' ''OutboxBroker does not support get_one() / async iteration. ''"

definition get_one :: "rat \<Rightarrow> exn + 'm" where
  "get_one timeout = Inl unsupported_peek"

definition iterate_messages :: "unit \<Rightarrow> exn + 'm" where
  "iterate_messages u = Inl unsupported_peek"

end
