(* ===== verification/Broker_Timers.thy ===== *)
theory Broker_Timers
  imports Broker Lease_Protocol
begin

text \<open>
  The calls on the broker that only reach its client (\<open>broker.py\<close>), \<open>include_router\<close>
  (\<open>registrator.py\<close>), and what cancelling a timer means for the rows of the table.
\<close>

section \<open>The calls\<close>

definition not_connected_error :: exn where
  "not_connected_error = py_exn ''RuntimeError'' ''OutboxBroker is not connected; pass an AsyncEngine to the constructor.''"

text \<open>The \<open>client\<close> property: the client that the configuration holds, if any.\<close>

definition broker_client :: "'c option \<Rightarrow> exn + 'c" where
  "broker_client client = (case client of None \<Rightarrow> Inl not_connected_error | Some c \<Rightarrow> Inr c)"

definition broker_cancel_timer :: "outbox_db option \<Rightarrow> bool \<Rightarrow> string \<Rightarrow> string \<Rightarrow> outbox_db option \<times> (exn + bool)" where
  "broker_cancel_timer client is_session q tid =
     (case broker_client client of
        Inl e \<Rightarrow> (client, Inl e)
      | Inr db \<Rightarrow> (let (db', res) = client_cancel_timer is_session q tid db in (Some db', res)))"

definition broker_fetch_unprocessed :: "outbox_db option \<Rightarrow> bool \<Rightarrow> rat \<Rightarrow> string option \<Rightarrow> int \<Rightarrow> exn + inner_message list" where
  "broker_fetch_unprocessed client is_session clk q n =
     (case broker_client client of Inl e \<Rightarrow> Inl e | Inr db \<Rightarrow> client_fetch_unprocessed is_session clk q n db)"

text \<open>\<open>include_router\<close>: queues are matched by their literal name, so a prefix is refused.\<close>

definition include_router :: "string \<Rightarrow> registered list \<Rightarrow> broker_state \<Rightarrow> exn + broker_state" where
  "include_router prefix subs b =
     (if prefix \<noteq> [] then Inl (py_exn ''ValueError'' (''include_router(prefix='' @ prefix @ '') is not supported''))
      else Inr (b\<lparr>bk_routers := bk_routers b @ subs\<rparr>))"

text \<open>
  \<open>OutboxClient.ping\<close>: whatever the connect or the query raises, a timeout included, is a \<open>False\<close>; only
  what no \<open>except Exception\<close> catches goes on.
\<close>

definition client_ping :: "exn option \<Rightarrow> exn + bool" where
  "client_ping failure = (case failure of
     None \<Rightarrow> Inr True | Some e \<Rightarrow> if is_exception e then Inr False else Inl e)"

definition request_unsupported :: exn where
  "request_unsupported = py_exn ''NotImplementedError''
     ''OutboxBroker does not support request-reply (the outbox is fire-and-forget)''"

text \<open>\<open>request\<close> and the use of an \<open>OutboxPublisher\<close> on a handler: always refused.\<close>

definition broker_request :: "'b option \<Rightarrow> string \<Rightarrow> exn + 'b" where
  "broker_request message q = Inl request_unsupported"

definition reject_relay :: exn where
  "reject_relay = py_exn ''NotImplementedError''
     ''OutboxPublisher cannot decorate a subscriber handler: relay chaining is not supported''"

definition publisher_decorate :: "'f \<Rightarrow> exn + 'f" where
  "publisher_decorate func = Inl reject_relay"

section \<open>A cancelled timer\<close>

text \<open>The unique index on \<open>(queue, timer_id)\<close>: a timer is one row.\<close>

lemma timer_row_unique:
  assumes "timer_uq rs" and "r \<in> set rs" and "conflicting q tid r" and "x \<in> set rs" and "conflicting q tid x"
  shows "x = r"
proof (cases "find (conflicting q tid) rs")
  case None
  then show ?thesis using assms(2,3) by (auto simp: find_None_iff)
next
  case (Some y)
  then show ?thesis
    using find_conflict_leased [OF Some assms(1)] assms(2-5) by metis
qed

lemma cancel_timer_on_row:
  assumes "wf_rows (db_rows db)" and "r \<in> set (db_rows db)" and "conflicting q tid r"
  shows "client_cancel_timer True q tid db =
    (if acquired_token r = None then (db\<lparr>db_rows := filter (\<lambda>x. x \<noteq> r) (db_rows db)\<rparr>, Inr True)
     else (db, Inr False))"
proof -
  have "timer_uq (db_rows db)" using assms(1) by (simp add: wf_rows_def)
  then have key: "conflicting q tid x \<longleftrightarrow> x = r" if "x \<in> set (db_rows db)" for x
    using timer_row_unique that assms(2,3) by metis
  have f: "filter (\<lambda>x. \<not> (conflicting q tid x \<and> acquired_token x = None)) (db_rows db) =
      (if acquired_token r = None then filter (\<lambda>x. x \<noteq> r) (db_rows db) else db_rows db)"
    using key by (auto intro!: filter_cong simp: filter_id_conv)
  have n: "filter (\<lambda>x. conflicting q tid x \<and> acquired_token x = None) (db_rows db) \<noteq> [] \<longleftrightarrow> acquired_token r = None"
    using key assms(2,3) by (auto simp: filter_empty_conv)
  show ?thesis using f n by (simp add: client_cancel_timer_def Let_def)
qed

text \<open>
  Property C6. A timer that was cancelled never fires, and one that cannot be cancelled is untouched. In
  every reachable state, \<open>cancel_timer\<close> answers \<open>True\<close> for a timer nobody has leased; its row is gone then,
  and whatever any process does afterwards, publishing the same timer again included, that row is never in
  the table again, so no fetch returns it. For a leased one it answers \<open>False\<close> and changes nothing.
\<close>

theorem cancelled_timer_never_fires:
  assumes "shared_run shared_init before s" and "r \<in> set (db_rows (sh_db s))"
    and "queue r = q" and "timer_id r = Some tid"
    and "broker_cancel_timer (Some (sh_db s)) True q tid = (Some db, res)"
    and "shared_run (s\<lparr>sh_db := db\<rparr>) sts s'"
  shows "if acquired_token r = None
    then res = Inr True \<and> row_id r \<notin> row_id ` set (db_rows db) \<and> row_id r \<notin> row_id ` set (db_rows (sh_db s'))
    else res = Inr False \<and> db = sh_db s"
proof -
  have inv: "shared_inv s" using shared_run_inv [OF assms(1) shared_init_inv] .
  then have wf: "wf_rows (db_rows (sh_db s))" by (simp add: shared_inv_def)
  have call: "broker_cancel_timer (Some (sh_db s)) True q tid =
      (if acquired_token r = None
       then (Some ((sh_db s)\<lparr>db_rows := filter (\<lambda>x. x \<noteq> r) (db_rows (sh_db s))\<rparr>), Inr True)
       else (Some (sh_db s), Inr False))"
    using cancel_timer_on_row [OF wf assms(2), of q tid] assms(3,4)
    by (simp add: broker_cancel_timer_def broker_client_def conflicting_def)
  show ?thesis
  proof (cases "acquired_token r")
    case None
    with call assms(5) have db: "db = (sh_db s)\<lparr>db_rows := filter (\<lambda>x. x \<noteq> r) (db_rows (sh_db s))\<rparr>" "res = Inr True"
      by auto
    have "inj_on row_id (set (db_rows (sh_db s)))" using wf by (simp add: wf_rows_def distinct_map)
    then have gone: "row_id r \<notin> row_id ` set (db_rows db)"
      unfolding db using assms(2) by (auto dest: inj_onD)
    have "shared_inv (s\<lparr>sh_db := db\<rparr>)"
      using inv unfolding db by (auto simp: shared_inv_def intro: wf_rows_filter)
    moreover have "row_id r \<in> sh_ids (s\<lparr>sh_db := db\<rparr>)" using inv assms(2) by (auto simp: shared_inv_def)
    ultimately have "row_id r \<notin> row_id ` set (db_rows (sh_db s'))"
      using run_no_old_id [OF assms(6)] gone by simp
    then show ?thesis using None db(2) gone by simp
  qed (use call assms(5) in auto)
qed

definition sample_pending :: shared_state where
  "sample_pending = \<lparr>sh_now = 0, sh_db = \<lparr>db_rows = [new_row 1 0 ''q'' [] None 0 (Some ''t'')], db_dlq = []\<rparr>,
     sh_ids = {1}, sh_tokens = {}\<rparr>"

text \<open>The timer \<open>t\<close> is published, cancelled and published again: the new row has another id.\<close>

theorem cancelled_timer_never_fires_witness:
  "1 \<notin> row_id ` set (db_rows (exec_statement 5 (Insert 2 \<lparr>ia_queue = ''q'', ia_payload = [], ia_headers = None,
     ia_activate_in = None, ia_activate_at = None, ia_timer_id = Some ''t'', ia_timer_conflict = Ignore\<rparr>)
     \<lparr>db_rows = [], db_dlq = []\<rparr>))"
proof -
  let ?row = "new_row 1 0 ''q'' [] None 0 (Some ''t'')"
  let ?again = "Insert 2 \<lparr>ia_queue = ''q'', ia_payload = [], ia_headers = None, ia_activate_in = None,
    ia_activate_at = None, ia_timer_id = Some ''t'', ia_timer_conflict = Ignore\<rparr>"
  let ?s' = "\<lparr>sh_now = 5, sh_db = exec_statement 5 ?again \<lparr>db_rows = [], db_dlq = []\<rparr>, sh_ids = {1, 2}, sh_tokens = {}\<rparr>"
  have "shared_step shared_init sample_insert sample_pending"
    by (rule shared_stepI [where now = 0])
      (simp_all add: shared_init_def sample_pending_def sample_insert_def insert_stmt_def too_long_def
        max_queue_length_def server_next_attempt_def)
  then have before: "shared_run shared_init [sample_insert] sample_pending" by (rule More [OF _ Done])
  have "shared_step (sample_pending\<lparr>sh_db := \<lparr>db_rows = [], db_dlq = []\<rparr>\<rparr>) ?again ?s'"
    by (rule shared_stepI [where now = 5], simp_all add: sample_pending_def insert_commute del: exec_statement.simps)
  then have later: "shared_run (sample_pending\<lparr>sh_db := \<lparr>db_rows = [], db_dlq = []\<rparr>\<rparr>) [?again] ?s'"
    by (rule More [OF _ Done])
  have call: "broker_cancel_timer (Some (sh_db sample_pending)) True ''q'' ''t'' =
      (Some \<lparr>db_rows = [], db_dlq = []\<rparr>, Inr True)"
    by (simp add: broker_cancel_timer_def broker_client_def client_cancel_timer_def sample_pending_def
      conflicting_def new_row_def Let_def)
  have row: "?row \<in> set (db_rows (sh_db sample_pending))" by (simp add: sample_pending_def)
  have tid: "queue ?row = ''q''" "timer_id ?row = Some ''t''" by (simp_all add: new_row_def)
  show ?thesis
    using cancelled_timer_never_fires [OF before row tid call later]
    by (simp add: new_row_def del: exec_statement.simps)
qed

end
