(* ===== verification/Test_Harness.thy ===== *)
theory Test_Harness
  imports Broker
begin

text \<open>
  The tasks of \<open>TestOutboxBroker\<close> (\<open>testing.py\<close>): \<open>_fake_start\<close>, which FastStream's harness calls twice
  per context, and \<open>_fake_close\<close>. The tasks live in the event loop; a subscriber holds the ones it added.
  FastStream's \<open>_post_start\<close> and its own \<open>_fake_close\<close> only mark a subscriber as running or not.
\<close>

section \<open>Tasks\<close>

datatype loop_task = WorkerTask | FetchTask

record spawned_task =
  sp_kind :: loop_task
  sp_done :: bool
  sp_cancelled :: bool

text \<open>A subscriber in the harness: its tasks are positions in the event loop, its rows are ids.\<close>

record harness_subscriber =
  hs_info :: registered
  hs_calls :: bool
  hs_stopping :: bool
  hs_running :: bool
  hs_tasks :: "nat list"
  hs_inflight :: "nat list"

record harness =
  hn_run_loops :: bool
  hn_loops_spawned :: bool
  hn_subscribers :: "harness_subscriber list"
  hn_event_loop :: "spawned_task list"
  hn_warned :: "nat list"
  hn_warnings :: "warning list"

text \<open>\<open>add_task\<close>: the task runs in the event loop and the subscriber remembers it.\<close>

definition add_task :: "loop_task \<Rightarrow> harness_subscriber \<times> spawned_task list \<Rightarrow> harness_subscriber \<times> spawned_task list" where
  "add_task k st = (case st of (s, lp) \<Rightarrow> (s\<lparr>hs_tasks := hs_tasks s @ [length lp]\<rparr>,
     lp @ [\<lparr>sp_kind = k, sp_done = False, sp_cancelled = False\<rparr>]))"

definition task_kinds :: "harness_subscriber \<Rightarrow> loop_task list" where
  "task_kinds s = (if hs_calls s then replicate (nat (rg_max_workers (hs_info s))) WorkerTask @ [FetchTask] else [])"

fun spawn_loops :: "harness_subscriber list \<Rightarrow> spawned_task list \<Rightarrow> harness_subscriber list \<times> spawned_task list" where
  "spawn_loops [] lp = ([], lp)"
| "spawn_loops (s # ss) lp =
     (let (s', lp') = fold add_task (task_kinds s) (s, lp);
          (ss', lp'') = spawn_loops ss lp'
      in (s' # ss', lp''))"

section \<open>Start and close\<close>

definition mark_started :: "harness_subscriber \<Rightarrow> harness_subscriber" where
  "mark_started s = s\<lparr>hs_stopping := False, hs_running := True\<rparr>"

definition fake_start :: "harness \<Rightarrow> harness" where
  "fake_start h =
     (let subs = map mark_started (hn_subscribers h);
          (warned, ws) = warn_foreign (foreign_publishers (map hs_info subs)) (hn_warned h);
          h1 = h\<lparr>hn_subscribers := subs, hn_warned := warned, hn_warnings := hn_warnings h @ ws\<rparr>
      in if \<not> hn_run_loops h \<or> hn_loops_spawned h then h1
         else let (subs', lp') = spawn_loops subs (hn_event_loop h)
              in h1\<lparr>hn_loops_spawned := True, hn_subscribers := subs', hn_event_loop := lp'\<rparr>)"

definition cancel_task :: "nat \<Rightarrow> spawned_task list \<Rightarrow> spawned_task list" where
  "cancel_task i lp = (if i < length lp \<and> \<not> sp_done (lp ! i) then lp[i := (lp ! i)\<lparr>sp_cancelled := True\<rparr>] else lp)"

definition fake_close :: "harness \<Rightarrow> harness" where
  "fake_close h =
     (let h1 = (if hn_run_loops h
                then h\<lparr>hn_event_loop := fold (\<lambda>s. fold cancel_task (hs_tasks s)) (hn_subscribers h) (hn_event_loop h),
                       hn_subscribers := map (\<lambda>s. s\<lparr>hs_tasks := [], hs_inflight := []\<rparr>) (hn_subscribers h),
                       hn_loops_spawned := False\<rparr>
                else h)
      in h1\<lparr>hn_subscribers := map (\<lambda>s. s\<lparr>hs_running := False\<rparr>) (hn_subscribers h1)\<rparr>)"

text \<open>What happens to a harness: it is started or closed, a task ends by itself, a fetch queues rows.\<close>

datatype harness_action = FakeStart | FakeClose | TaskEnds nat | RowsQueued nat "nat list"

fun harness_step :: "harness_action \<Rightarrow> harness \<Rightarrow> harness" where
  "harness_step FakeStart h = fake_start h"
| "harness_step FakeClose h = fake_close h"
| "harness_step (TaskEnds i) h = h\<lparr>hn_event_loop :=
     (if i < length (hn_event_loop h) then (hn_event_loop h)[i := (hn_event_loop h ! i)\<lparr>sp_done := True\<rparr>]
      else hn_event_loop h)\<rparr>"
| "harness_step (RowsQueued i rows) h = h\<lparr>hn_subscribers :=
     (if i < length (hn_subscribers h)
      then (hn_subscribers h)[i := (hn_subscribers h ! i)\<lparr>hs_inflight := hs_inflight (hn_subscribers h ! i) @ rows\<rparr>]
      else hn_subscribers h)\<rparr>"

definition harness_init :: "bool \<Rightarrow> (registered \<times> bool) list \<Rightarrow> harness" where
  "harness_init run_loops subs = \<lparr>hn_run_loops = run_loops, hn_loops_spawned = False,
     hn_subscribers = map (\<lambda>(r, calls). \<lparr>hs_info = r, hs_calls = calls, hs_stopping = False, hs_running = False,
       hs_tasks = [], hs_inflight = []\<rparr>) subs,
     hn_event_loop = [], hn_warned = [], hn_warnings = []\<rparr>"

definition harness_run :: "harness_action list \<Rightarrow> harness \<Rightarrow> harness" where
  "harness_run acts h = fold harness_step acts h"

text \<open>Whether the last start was not closed again.\<close>

definition still_open :: "harness_action list \<Rightarrow> bool" where
  "still_open acts = fold (\<lambda>a b. case a of FakeStart \<Rightarrow> True | FakeClose \<Rightarrow> False | _ \<Rightarrow> b) acts False"

section \<open>The invariant\<close>

definition alive :: "spawned_task \<Rightarrow> bool" where
  "alive t \<longleftrightarrow> \<not> sp_done t \<and> \<not> sp_cancelled t"

definition live_tasks :: "spawned_task list \<Rightarrow> nat set" where
  "live_tasks lp = {i. i < length lp \<and> alive (lp ! i)}"

definition kinds_of :: "spawned_task list \<Rightarrow> nat list \<Rightarrow> loop_task list" where
  "kinds_of lp is = map (\<lambda>i. sp_kind (lp ! i)) is"

definition held_tasks :: "harness \<Rightarrow> nat list" where
  "held_tasks h = concat (map hs_tasks (hn_subscribers h))"

definition harness_inv :: "harness \<Rightarrow> bool" where
  "harness_inv h \<longleftrightarrow> distinct (held_tasks h) \<and> set (held_tasks h) \<subseteq> {..<length (hn_event_loop h)} \<and>
     live_tasks (hn_event_loop h) \<subseteq> set (held_tasks h) \<and>
     list_all (\<lambda>s. kinds_of (hn_event_loop h) (hs_tasks s) = (if hn_loops_spawned h then task_kinds s else []))
       (hn_subscribers h)"

lemma kinds_of_Nil_iff [simp]: "kinds_of lp is = [] \<longleftrightarrow> is = []"
  by (simp add: kinds_of_def)

lemma live_tasks_Nil [simp]: "live_tasks [] = {}"
  by (simp add: live_tasks_def)

lemma add_task_pair [simp]: "add_task k (s, lp) = (s\<lparr>hs_tasks := hs_tasks s @ [length lp]\<rparr>,
    lp @ [\<lparr>sp_kind = k, sp_done = False, sp_cancelled = False\<rparr>])"
  by (simp add: add_task_def)

lemma fold_add_task:
  "fold add_task ks (s, lp) = (s\<lparr>hs_tasks := hs_tasks s @ [length lp..<length lp + length ks]\<rparr>,
     lp @ map (\<lambda>k. \<lparr>sp_kind = k, sp_done = False, sp_cancelled = False\<rparr>) ks)"
proof (induction ks arbitrary: s lp)
  case (Cons k ks)
  have "[length lp..<length lp + length (k # ks)] = length lp # [Suc (length lp)..<Suc (length lp) + length ks]"
    by (simp add: upt_conv_Cons del: upt_Suc)
  then show ?case by (simp add: Cons.IH del: upt_Suc)
qed simp

text \<open>Spawning adds the tasks of every subscriber, in order, at the end of the event loop.\<close>

lemma spawn_loops_spec:
  assumes "spawn_loops ss lp = (ss', lp')" and "list_all (\<lambda>s. hs_tasks s = []) ss"
  shows "\<exists>new. lp' = lp @ new \<and> concat (map hs_tasks ss') = [length lp..<length lp'] \<and>
    list_all alive new \<and> list_all (\<lambda>s. kinds_of lp' (hs_tasks s) = task_kinds s) ss' \<and>
    map (hs_tasks_update (\<lambda>_. [])) ss' = ss"
  using assms
proof (induction ss lp arbitrary: ss' lp' rule: spawn_loops.induct)
  case (2 s ss lp)
  let ?ks = "task_kinds s"
  let ?new = "map (\<lambda>k. \<lparr>sp_kind = k, sp_done = False, sp_cancelled = False\<rparr>) ?ks"
  let ?s' = "s\<lparr>hs_tasks := [length lp..<length lp + length ?ks]\<rparr>"
  obtain ss2 where rest: "spawn_loops ss (lp @ ?new) = (ss2, lp')" and ss': "ss' = ?s' # ss2"
    using 2(2,3) by (auto simp: fold_add_task Let_def split: prod.splits)
  have empty: "list_all (\<lambda>s. hs_tasks s = []) ss" "hs_tasks s = []" using 2(3) by simp_all
  have f: "fold add_task ?ks (s, lp) = (?s', lp @ ?new)" using empty by (simp add: fold_add_task)
  obtain new where new: "lp' = (lp @ ?new) @ new" "concat (map hs_tasks ss2) = [length (lp @ ?new)..<length lp']"
    "list_all alive new" "list_all (\<lambda>s. kinds_of lp' (hs_tasks s) = task_kinds s) ss2"
    "map (hs_tasks_update (\<lambda>_. [])) ss2 = ss"
    using 2(1) [OF f [symmetric] refl rest empty(1)] by blast
  have "kinds_of lp' (hs_tasks ?s') = ?ks"
    by (rule nth_equalityI) (simp_all add: kinds_of_def new(1) nth_append)
  moreover have "concat (map hs_tasks ss') = [length lp..<length lp']"
    using new(1,2) by (simp add: ss' upt_add_eq_append [symmetric] del: upt_Suc)
      (metis add.assoc le_add1 upt_add_eq_append)
  ultimately show ?case
    using new empty(2) by (auto simp: ss' task_kinds_def list_all_iff alive_def intro!: exI [of _ "?new @ new"])
qed simp

lemma kinds_append: "set is \<subseteq> {..<length lp} \<Longrightarrow> kinds_of (lp @ new) is = kinds_of lp is"
  by (auto simp: kinds_of_def nth_append)

text \<open>Cancelling keeps every task where it is and ends those that were held.\<close>

lemma cancel_task_simps [simp]: "length (cancel_task i lp) = length lp"
  by (simp add: cancel_task_def)

lemma cancel_task_nth: "j < length lp \<Longrightarrow> sp_kind (cancel_task i lp ! j) = sp_kind (lp ! j) \<and>
    (alive (cancel_task i lp ! j) \<longleftrightarrow> alive (lp ! j) \<and> j \<noteq> i)"
  by (auto simp: cancel_task_def alive_def nth_list_update)

lemma cancel_all:
  "length (fold cancel_task is lp) = length lp \<and> (\<forall>j < length lp.
     sp_kind (fold cancel_task is lp ! j) = sp_kind (lp ! j) \<and>
     (alive (fold cancel_task is lp ! j) \<longleftrightarrow> alive (lp ! j) \<and> j \<notin> set is))"
proof (induction "is" arbitrary: lp)
  case (Cons i "is")
  show ?case using Cons.IH [of "cancel_task i lp"] by (auto simp: cancel_task_nth)
qed simp

lemma live_tasks_cancel: "live_tasks (fold cancel_task is lp) = live_tasks lp - set is"
  using cancel_all [of "is" lp] by (auto simp: live_tasks_def)

lemma fold_cancel_subscribers:
  "fold (\<lambda>s. fold cancel_task (hs_tasks s)) ss lp = fold cancel_task (concat (map hs_tasks ss)) lp"
  by (induction ss arbitrary: lp) simp_all

lemma live_tasks_append: "list_all alive new \<Longrightarrow> live_tasks (lp @ new) = live_tasks lp \<union> {length lp..<length (lp @ new)}"
  by (auto simp: live_tasks_def nth_append list_all_length)

lemma fake_start_shape:
  "hn_run_loops (fake_start h) = hn_run_loops h \<and>
    (hn_run_loops h \<and> \<not> hn_loops_spawned h \<longrightarrow> hn_loops_spawned (fake_start h) \<and>
       (hn_subscribers (fake_start h), hn_event_loop (fake_start h)) =
         spawn_loops (map mark_started (hn_subscribers h)) (hn_event_loop h)) \<and>
    (\<not> (hn_run_loops h \<and> \<not> hn_loops_spawned h) \<longrightarrow> hn_loops_spawned (fake_start h) = hn_loops_spawned h \<and>
       hn_subscribers (fake_start h) = map mark_started (hn_subscribers h) \<and>
       hn_event_loop (fake_start h) = hn_event_loop h)"
  by (auto simp: fake_start_def Let_def split: prod.split)

lemma mark_started_simps [simp]:
  "hs_tasks (mark_started s) = hs_tasks s" "task_kinds (mark_started s) = task_kinds s"
  "hs_info (mark_started s) = hs_info s" "hs_calls (mark_started s) = hs_calls s"
  by (simp_all add: mark_started_def task_kinds_def)

lemma fake_close_shape:
  "hn_run_loops (fake_close h) = hn_run_loops h \<and> list_all (\<lambda>s. \<not> hs_running s) (hn_subscribers (fake_close h)) \<and>
   (if hn_run_loops h
    then hn_event_loop (fake_close h) = fold cancel_task (held_tasks h) (hn_event_loop h) \<and>
      list_all (\<lambda>s. hs_tasks s = [] \<and> hs_inflight s = []) (hn_subscribers (fake_close h)) \<and>
      \<not> hn_loops_spawned (fake_close h)
    else hn_event_loop (fake_close h) = hn_event_loop h \<and> held_tasks (fake_close h) = held_tasks h \<and>
      map hs_tasks (hn_subscribers (fake_close h)) = map hs_tasks (hn_subscribers h) \<and>
      hn_loops_spawned (fake_close h) = hn_loops_spawned h)"
  by (simp add: fake_close_def Let_def list_all_iff held_tasks_def fold_cancel_subscribers comp_def)

lemma no_tasks: "list_all (\<lambda>s. hs_tasks s = []) ss \<longleftrightarrow> concat (map hs_tasks ss) = []"
  by (induction ss) simp_all

lemma harness_inv_start:
  assumes inv: "harness_inv h"
  shows "harness_inv (fake_start h)"
proof (cases "hn_run_loops h \<and> \<not> hn_loops_spawned h")
  case True
  let ?lp = "hn_event_loop h" and ?h = "fake_start h"
  have empty: "list_all (\<lambda>s. hs_tasks s = []) (hn_subscribers h)" and held: "held_tasks h = []"
    using inv True by (auto simp: harness_inv_def held_tasks_def list_all_iff)
  have sp: "hn_loops_spawned ?h" "spawn_loops (map mark_started (hn_subscribers h)) ?lp = (hn_subscribers ?h, hn_event_loop ?h)"
    using fake_start_shape [of h] True by simp_all
  have "list_all (\<lambda>s. hs_tasks s = []) (map mark_started (hn_subscribers h))" using empty by (simp add: list_all_iff)
  from spawn_loops_spec [OF sp(2) this] obtain new where new: "hn_event_loop ?h = ?lp @ new"
    "held_tasks ?h = [length ?lp..<length (hn_event_loop ?h)]" "list_all alive new"
    "list_all (\<lambda>s. kinds_of (hn_event_loop ?h) (hs_tasks s) = task_kinds s) (hn_subscribers ?h)"
    by (auto simp: held_tasks_def)
  have "live_tasks ?lp = {}" using inv held by (simp add: harness_inv_def)
  then have "live_tasks (hn_event_loop ?h) = {length ?lp..<length (hn_event_loop ?h)}"
    unfolding new(1) live_tasks_append [OF new(3)] by simp
  then show ?thesis using new(2,4) sp(1) by (auto simp: harness_inv_def)
next
  case False
  then show ?thesis using fake_start_shape [of h] inv
    by (simp add: harness_inv_def held_tasks_def list_all_iff comp_def)
qed

lemma harness_inv_close:
  assumes inv: "harness_inv h" and sync: "\<not> hn_run_loops h \<longrightarrow> \<not> hn_loops_spawned h"
  shows "harness_inv (fake_close h)"
proof (cases "hn_run_loops h")
  case True
  have "held_tasks (fake_close h) = []"
    using fake_close_shape [of h] True by (simp add: held_tasks_def list_all_iff)
  moreover have "live_tasks (hn_event_loop (fake_close h)) = {}"
    using fake_close_shape [of h] True inv by (auto simp: live_tasks_cancel harness_inv_def)
  ultimately show ?thesis using fake_close_shape [of h] True by (auto simp: harness_inv_def list_all_iff)
next
  case False
  then have "list_all (\<lambda>s. hs_tasks s = []) (hn_subscribers h)" using inv sync by (auto simp: harness_inv_def list_all_iff)
  then have "held_tasks h = []" by (simp add: no_tasks held_tasks_def)
  moreover have "list_all (\<lambda>s. hs_tasks s = []) (hn_subscribers (fake_close h))"
    using fake_close_shape [of h] False calculation by (simp add: no_tasks held_tasks_def)
  ultimately show ?thesis using fake_close_shape [of h] False sync inv by (auto simp: harness_inv_def list_all_iff)
qed

lemma harness_inv_task_ends:
  assumes "harness_inv h"
  shows "harness_inv (harness_step (TaskEnds i) h)"
proof -
  let ?lp = "hn_event_loop h" and ?lp' = "hn_event_loop (harness_step (TaskEnds i) h)"
  have same: "length ?lp' = length ?lp" "\<And>j. j < length ?lp \<Longrightarrow> sp_kind (?lp' ! j) = sp_kind (?lp ! j)"
    and live: "live_tasks ?lp' \<subseteq> live_tasks ?lp"
    by (auto simp: live_tasks_def alive_def nth_list_update split: if_splits)
  have "kinds_of ?lp' (hs_tasks s) = kinds_of ?lp (hs_tasks s)" if "s \<in> set (hn_subscribers h)" for s
    using assms that same by (auto simp: harness_inv_def held_tasks_def kinds_of_def subset_iff)
  then show ?thesis using assms same(1) live by (auto simp: harness_inv_def held_tasks_def list_all_iff)
qed

lemma harness_inv_rows: "harness_inv h \<Longrightarrow> harness_inv (harness_step (RowsQueued i rows) h)"
proof -
  let ?h' = "harness_step (RowsQueued i rows) h"
  have m: "map hs_tasks (hn_subscribers ?h') = map hs_tasks (hn_subscribers h)"
    "map task_kinds (hn_subscribers ?h') = map task_kinds (hn_subscribers h)"
    by (auto intro!: nth_equalityI simp: nth_list_update task_kinds_def)
  have all: "list_all (\<lambda>s. kinds_of lp (hs_tasks s) = (if b then task_kinds s else [])) ss \<longleftrightarrow>
      map (kinds_of lp) (map hs_tasks ss) = (if b then map task_kinds ss else map (\<lambda>_. []) (map hs_tasks ss))" for lp b ss
    by (induction ss) auto
  assume "harness_inv h"
  then show ?thesis unfolding harness_inv_def all held_tasks_def m by simp
qed

text \<open>In sync mode no loop is ever spawned; otherwise one set of loops runs between a start and the next close.\<close>

lemma harness_run_inv:
  "harness_inv (harness_run acts (harness_init run_loops subs)) \<and>
   hn_run_loops (harness_run acts (harness_init run_loops subs)) = run_loops \<and>
   hn_loops_spawned (harness_run acts (harness_init run_loops subs)) = (run_loops \<and> still_open acts)"
proof (induction acts rule: rev_induct)
  case Nil
  let ?h = "harness_init run_loops subs"
  have none: "list_all (\<lambda>s. hs_tasks s = []) (hn_subscribers ?h)"
    by (auto simp: harness_init_def list_all_iff)
  then have "held_tasks ?h = []" by (simp add: no_tasks held_tasks_def)
  moreover have "hn_event_loop ?h = [] \<and> hn_run_loops ?h = run_loops \<and> \<not> hn_loops_spawned ?h"
    by (simp add: harness_init_def)
  ultimately show ?case using none by (simp add: harness_run_def still_open_def harness_inv_def)
next
  case (snoc a acts)
  let ?h = "harness_run acts (harness_init run_loops subs)"
  have step: "harness_run (acts @ [a]) (harness_init run_loops subs) = harness_step a ?h"
    by (simp add: harness_run_def)
  show ?case
  proof (cases a)
    case FakeStart
    then show ?thesis unfolding step using snoc harness_inv_start [of ?h] fake_start_shape [of ?h]
      by (auto simp: still_open_def)
  next
    case FakeClose
    then show ?thesis unfolding step using snoc harness_inv_close [of ?h] fake_close_shape [of ?h]
      by (auto simp: still_open_def split: if_splits)
  next
    case (TaskEnds i)
    then show ?thesis unfolding step using snoc harness_inv_task_ends [of ?h i] by (simp add: still_open_def)
  next
    case (RowsQueued i rows)
    then show ?thesis unfolding step using snoc harness_inv_rows [of ?h i rows] by (simp add: still_open_def)
  qed
qed

section \<open>The patched broker\<close>

text \<open>
  The client and the producer that the broker's configuration holds. \<open>_patch_broker\<close> and \<open>_patch_producer\<close>
  replace them around a block, which may do anything to them and may raise; \<open>r\<close> is how it ends.
\<close>

record ('c, 'p) broker_slots =
  sl_client :: 'c
  sl_producer :: 'p
  sl_store :: fake_state

definition patch_producer :: "('p \<Rightarrow> 'p) \<Rightarrow> (('c, 'p) broker_slots \<Rightarrow> ('c, 'p) broker_slots \<times> 'r) \<Rightarrow>
    ('c, 'p) broker_slots \<Rightarrow> ('c, 'p) broker_slots \<times> 'r" where
  "patch_producer dispatching block s =
     (let (s', r) = block (s\<lparr>sl_producer := dispatching (sl_producer s)\<rparr>)
      in (s'\<lparr>sl_producer := sl_producer s, sl_store := fst (take_dispatchable (sl_store s'))\<rparr>, r))"

definition patch_client :: "'c \<Rightarrow> (('c, 'p) broker_slots \<Rightarrow> ('c, 'p) broker_slots \<times> 'r) \<Rightarrow>
    ('c, 'p) broker_slots \<Rightarrow> ('c, 'p) broker_slots \<times> 'r" where
  "patch_client fake block s =
     (let (s', r) = block (s\<lparr>sl_client := fake\<rparr>) in (s'\<lparr>sl_client := sl_client s\<rparr>, r))"

text \<open>However the block ends, the broker has its own client and producer back, and nothing waits for dispatch.\<close>

theorem patches_are_undone:
  assumes "patch_client fake (patch_producer dispatching block) s = (s', r)"
  shows "sl_client s' = sl_client s \<and> sl_producer s' = sl_producer s \<and> snd (take_dispatchable (sl_store s')) = []"
  using assms by (auto simp: patch_client_def patch_producer_def Let_def take_dispatchable_def split: prod.splits)

section \<open>The property\<close>

definition run_harness :: "bool \<Rightarrow> (registered \<times> bool) list \<Rightarrow> harness_action list \<Rightarrow> harness" where
  "run_harness run_loops subs acts = harness_run acts (harness_init run_loops subs)"

text \<open>
  Property C33. The harness neither doubles nor leaks a task. However often it is started, closed and
  entered again, with tasks ending by themselves in between, the tasks that still run are among those the
  subscribers hold; in loop mode, after a start that was not closed again, those are one worker per
  configured worker and one fetch loop for each subscriber with a handler, and none otherwise, nor ever in
  sync mode. In loop mode, closing ends every task and drops the rows in memory.
\<close>

theorem harness_leaks_no_task:
  "(let h = run_harness run_loops subs acts; closed = fake_close h
    in live_tasks (hn_event_loop h) \<subseteq> set (held_tasks h) \<and> distinct (held_tasks h) \<and>
       list_all (\<lambda>s. kinds_of (hn_event_loop h) (hs_tasks s) =
         (if run_loops \<and> still_open acts \<and> hs_calls s
          then replicate (nat (rg_max_workers (hs_info s))) WorkerTask @ [FetchTask] else [])) (hn_subscribers h) \<and>
       live_tasks (hn_event_loop closed) = {} \<and> held_tasks closed = [] \<and>
       list_all (\<lambda>s. \<not> hs_running s \<and> (if run_loops then hs_inflight s = [] else True)) (hn_subscribers closed))"
proof -
  let ?h = "run_harness run_loops subs acts"
  have inv: "harness_inv ?h" "hn_run_loops ?h = run_loops" "hn_loops_spawned ?h = (run_loops \<and> still_open acts)"
    using harness_run_inv [of acts run_loops subs] by (simp_all add: run_harness_def)
  have "harness_inv (fake_close ?h)" by (rule harness_inv_close [OF inv(1)]) (use inv(2,3) in blast)
  moreover have "\<not> hn_loops_spawned (fake_close ?h)"
    using fake_close_shape [of ?h] inv(2,3) by (auto split: if_splits)
  ultimately have none: "held_tasks (fake_close ?h) = []"
    by (auto simp: harness_inv_def held_tasks_def list_all_iff)
  then have "live_tasks (hn_event_loop (fake_close ?h)) = {}"
    using \<open>harness_inv (fake_close ?h)\<close> by (simp add: harness_inv_def)
  moreover have "list_all (\<lambda>s. \<not> hs_running s \<and> (if run_loops then hs_inflight s = [] else True)) (hn_subscribers (fake_close ?h))"
    using fake_close_shape [of ?h] inv(2) by (auto simp: list_all_iff split: if_splits)
  moreover have "list_all (\<lambda>s. kinds_of (hn_event_loop ?h) (hs_tasks s) =
      (if run_loops \<and> still_open acts \<and> hs_calls s
       then replicate (nat (rg_max_workers (hs_info s))) WorkerTask @ [FetchTask] else [])) (hn_subscribers ?h)"
    using inv by (auto simp: harness_inv_def list_all_iff task_kinds_def)
  ultimately show ?thesis using inv(1) none by (simp only: Let_def harness_inv_def)
qed

end
