(* ===== verification/Entry_Points.thy ===== *)
theory Entry_Points
  imports Broker Handler_Pipeline
begin

text \<open>
  The ways into the package: a subscriber is declared on a broker or router (\<open>registrator.py\<close>), as an
  \<open>OutboxRoute\<close> of a router (\<open>router.py\<close>), or on the FastAPI router (\<open>fastapi/router.py\<close>), a broker is
  built directly or by the FastAPI router. Each signature repeats the names and defaults of the others.
  FastStream's base classes hand the keyword arguments on as they are.
\<close>

section \<open>Keyword arguments\<close>

text \<open>What a caller may pass; \<open>None\<close> is an argument left out, \<open>Some None\<close> an explicit \<open>None\<close>.\<close>

record subscriber_kwargs =
  kw_max_workers :: "py_count option"
  kw_retry_strategy :: "strategy_arg option"
  kw_fetch_batch_size :: "py_count option"
  kw_min_fetch_interval :: "py_float option"
  kw_max_fetch_interval :: "py_float option"
  kw_lease_ttl_seconds :: "py_float option"
  kw_query_timeout_seconds :: "py_float option option"
  kw_max_deliveries :: "py_count option option"
  kw_terminal_flush_batch_size :: "py_count option"
  kw_ack_policy :: "ack_policy option option"
  kw_propagate_inbound_headers :: "bool option"
  kw_title :: "string option option"
  kw_description :: "string option option"
  kw_include_in_schema :: "bool option"

text \<open>The arguments inside the function, its defaults filled in.\<close>

record subscriber_params =
  sp_max_workers :: py_count
  sp_retry_strategy :: strategy_arg
  sp_fetch_batch_size :: py_count
  sp_min_fetch_interval :: py_float
  sp_max_fetch_interval :: py_float
  sp_lease_ttl_seconds :: py_float
  sp_query_timeout_seconds :: "py_float option"
  sp_max_deliveries :: "py_count option"
  sp_terminal_flush_batch_size :: py_count
  sp_ack_policy :: "ack_policy option"
  sp_propagate_inbound_headers :: bool
  sp_title :: "string option"
  sp_description :: "string option"
  sp_include_in_schema :: bool

definition given :: "'a option \<Rightarrow> 'a \<Rightarrow> 'a" where
  "given arg d = (case arg of None \<Rightarrow> d | Some v \<Rightarrow> v)"

text \<open>The signature of \<open>OutboxRegistrator.subscriber\<close>.\<close>

definition registrator_params :: "subscriber_kwargs \<Rightarrow> subscriber_params" where
  "registrator_params kw = \<lparr>
     sp_max_workers = given (kw_max_workers kw) (IntValue 1),
     sp_retry_strategy = given (kw_retry_strategy kw) NoStrategy,
     sp_fetch_batch_size = given (kw_fetch_batch_size kw) (IntValue 10),
     sp_min_fetch_interval = given (kw_min_fetch_interval kw) (Finite 1),
     sp_max_fetch_interval = given (kw_max_fetch_interval kw) (Finite 10),
     sp_lease_ttl_seconds = given (kw_lease_ttl_seconds kw) (Finite 60),
     sp_query_timeout_seconds = given (kw_query_timeout_seconds kw) None,
     sp_max_deliveries = given (kw_max_deliveries kw) None,
     sp_terminal_flush_batch_size = given (kw_terminal_flush_batch_size kw) (IntValue 1),
     sp_ack_policy = given (kw_ack_policy kw) None,
     sp_propagate_inbound_headers = given (kw_propagate_inbound_headers kw) False,
     sp_title = given (kw_title kw) None,
     sp_description = given (kw_description kw) None,
     sp_include_in_schema = given (kw_include_in_schema kw) True\<rparr>"

text \<open>The signature of \<open>OutboxRoute\<close>.\<close>

definition route_params :: "subscriber_kwargs \<Rightarrow> subscriber_params" where
  "route_params kw = \<lparr>
     sp_max_workers = given (kw_max_workers kw) (IntValue 1),
     sp_retry_strategy = given (kw_retry_strategy kw) NoStrategy,
     sp_fetch_batch_size = given (kw_fetch_batch_size kw) (IntValue 10),
     sp_min_fetch_interval = given (kw_min_fetch_interval kw) (Finite 1),
     sp_max_fetch_interval = given (kw_max_fetch_interval kw) (Finite 10),
     sp_lease_ttl_seconds = given (kw_lease_ttl_seconds kw) (Finite 60),
     sp_query_timeout_seconds = given (kw_query_timeout_seconds kw) None,
     sp_max_deliveries = given (kw_max_deliveries kw) None,
     sp_terminal_flush_batch_size = given (kw_terminal_flush_batch_size kw) (IntValue 1),
     sp_ack_policy = given (kw_ack_policy kw) None,
     sp_propagate_inbound_headers = given (kw_propagate_inbound_headers kw) False,
     sp_title = given (kw_title kw) None,
     sp_description = given (kw_description kw) None,
     sp_include_in_schema = given (kw_include_in_schema kw) True\<rparr>"

text \<open>The signature of the FastAPI router's \<open>subscriber\<close>; its response-model arguments stay in FastAPI.\<close>

definition fastapi_params :: "subscriber_kwargs \<Rightarrow> subscriber_params" where
  "fastapi_params kw = \<lparr>
     sp_max_workers = given (kw_max_workers kw) (IntValue 1),
     sp_retry_strategy = given (kw_retry_strategy kw) NoStrategy,
     sp_fetch_batch_size = given (kw_fetch_batch_size kw) (IntValue 10),
     sp_min_fetch_interval = given (kw_min_fetch_interval kw) (Finite 1),
     sp_max_fetch_interval = given (kw_max_fetch_interval kw) (Finite 10),
     sp_lease_ttl_seconds = given (kw_lease_ttl_seconds kw) (Finite 60),
     sp_query_timeout_seconds = given (kw_query_timeout_seconds kw) None,
     sp_max_deliveries = given (kw_max_deliveries kw) None,
     sp_terminal_flush_batch_size = given (kw_terminal_flush_batch_size kw) (IntValue 1),
     sp_ack_policy = given (kw_ack_policy kw) None,
     sp_propagate_inbound_headers = given (kw_propagate_inbound_headers kw) False,
     sp_title = given (kw_title kw) None,
     sp_description = given (kw_description kw) None,
     sp_include_in_schema = given (kw_include_in_schema kw) True\<rparr>"

text \<open>\<open>super().__init__(...)\<close> and \<open>super().subscriber(...)\<close>: every argument is passed by name.\<close>

definition by_name :: "subscriber_params \<Rightarrow> subscriber_kwargs" where
  "by_name p = \<lparr>
     kw_max_workers = Some (sp_max_workers p),
     kw_retry_strategy = Some (sp_retry_strategy p),
     kw_fetch_batch_size = Some (sp_fetch_batch_size p),
     kw_min_fetch_interval = Some (sp_min_fetch_interval p),
     kw_max_fetch_interval = Some (sp_max_fetch_interval p),
     kw_lease_ttl_seconds = Some (sp_lease_ttl_seconds p),
     kw_query_timeout_seconds = Some (sp_query_timeout_seconds p),
     kw_max_deliveries = Some (sp_max_deliveries p),
     kw_terminal_flush_batch_size = Some (sp_terminal_flush_batch_size p),
     kw_ack_policy = Some (sp_ack_policy p),
     kw_propagate_inbound_headers = Some (sp_propagate_inbound_headers p),
     kw_title = Some (sp_title p),
     kw_description = Some (sp_description p),
     kw_include_in_schema = Some (sp_include_in_schema p)\<rparr>"

section \<open>Subscribers\<close>

record subscriber_spec =
  ss_queues :: "queue_arg list"
  ss_title :: "string option"
  ss_description :: "string option"
  ss_include_in_schema :: bool

text \<open>\<open>create_subscriber\<close>: the two configurations, before the first is validated.\<close>

definition usecase_config :: "queue_arg list \<Rightarrow> subscriber_params \<Rightarrow> subscriber_config" where
  "usecase_config qs p = \<lparr>sc_queues = qs, sc_max_workers = sp_max_workers p, sc_retry_strategy = sp_retry_strategy p,
     sc_fetch_batch_size = sp_fetch_batch_size p, sc_min_fetch_interval = sp_min_fetch_interval p,
     sc_max_fetch_interval = sp_max_fetch_interval p, sc_lease_ttl_seconds = sp_lease_ttl_seconds p,
     sc_query_timeout_seconds = sp_query_timeout_seconds p, sc_max_deliveries = sp_max_deliveries p,
     sc_terminal_flush_batch_size = sp_terminal_flush_batch_size p,
     sc_propagate_inbound_headers = sp_propagate_inbound_headers p, sc_ack_policy = sp_ack_policy p\<rparr>"

definition subscriber_spec_of :: "queue_arg list \<Rightarrow> subscriber_params \<Rightarrow> subscriber_spec" where
  "subscriber_spec_of qs p = \<lparr>ss_queues = qs, ss_title = sp_title p, ss_description = sp_description p,
     ss_include_in_schema = sp_include_in_schema p\<rparr>"

definition create_subscriber :: "retry_fn \<Rightarrow> queue_arg list \<Rightarrow> subscriber_params \<Rightarrow>
    config_error + (subscriber_config \<times> subscriber_spec) \<times> config_warning list" where
  "create_subscriber dflt qs p =
     (case config_post_init dflt (usecase_config qs p) of
        Inl e \<Rightarrow> Inl e
      | Inr (c, ws) \<Rightarrow> Inr ((c, subscriber_spec_of qs p), ws))"

text \<open>\<open>subscriber\<close>: the subscriber it creates, the registrator's list with it, and the warnings.\<close>

definition registrator_subscriber :: "retry_fn \<Rightarrow> queues_arg \<Rightarrow> subscriber_kwargs \<Rightarrow> (nat \<times> bool) list \<Rightarrow>
    registered list \<Rightarrow> register_error + (subscriber_config \<times> subscriber_spec) \<times> registered list \<times> warning list" where
  "registrator_subscriber dflt qa kw pubs subs =
     (let qs = queue_list qa; p = registrator_params kw
      in if qs = [] then Inl NoQueues
         else case create_subscriber dflt qs p of
           Inl e \<Rightarrow> Inl (BadConfig e)
         | Inr ((c, spec), ws) \<Rightarrow>
             let overlap = registered_overlap (map queue_text qs) subs
             in Inr ((c, spec), subs @ [registered_of c pubs],
                  map ConfigWarning ws @ (if overlap \<noteq> [] then [RegisteredTwice overlap] else [])))"

definition route_subscriber :: "retry_fn \<Rightarrow> queues_arg \<Rightarrow> subscriber_kwargs \<Rightarrow> (nat \<times> bool) list \<Rightarrow>
    registered list \<Rightarrow> register_error + (subscriber_config \<times> subscriber_spec) \<times> registered list \<times> warning list" where
  "route_subscriber dflt qa kw = registrator_subscriber dflt qa (by_name (route_params kw))"

definition fastapi_subscriber :: "retry_fn \<Rightarrow> queues_arg \<Rightarrow> subscriber_kwargs \<Rightarrow> (nat \<times> bool) list \<Rightarrow>
    registered list \<Rightarrow> register_error + (subscriber_config \<times> subscriber_spec) \<times> registered list \<times> warning list" where
  "fastapi_subscriber dflt qa kw = registrator_subscriber dflt qa (by_name (fastapi_params kw))"

text \<open>The routes of an \<open>OutboxRouter\<close>, registered one after the other; the first error ends it.\<close>

fun router_routes :: "retry_fn \<Rightarrow> (queues_arg \<times> subscriber_kwargs \<times> (nat \<times> bool) list) list \<Rightarrow> registered list \<Rightarrow>
    register_error + registered list \<times> warning list" where
  "router_routes dflt [] subs = Inr (subs, [])"
| "router_routes dflt ((qa, kw, pubs) # rest) subs =
     (case route_subscriber dflt qa kw pubs subs of
        Inl e \<Rightarrow> Inl e
      | Inr (sub, subs', ws) \<Rightarrow>
          (case router_routes dflt rest subs' of
             Inl e \<Rightarrow> Inl e
           | Inr (subs'', ws') \<Rightarrow> Inr (subs'', ws @ ws')))"

section \<open>Publishers\<close>

record 'sc publisher_kwargs =
  pk_headers :: "headers option option"
  pk_title :: "string option option"
  pk_description :: "string option option"
  pk_schema :: "'sc option option"
  pk_include_in_schema :: "bool option"

text \<open>An \<open>OutboxPublisher\<close>: its queue, the static headers (\<open>config.headers or {}\<close>) and its specification.\<close>

record 'sc outbox_publisher =
  op_queue :: string
  op_headers :: headers
  op_title :: "string option"
  op_description :: "string option"
  op_schema :: "'sc option"
  op_include_in_schema :: bool

definition create_publisher :: "string \<Rightarrow> headers option \<Rightarrow> string option \<Rightarrow> string option \<Rightarrow> 'sc option \<Rightarrow> bool \<Rightarrow>
    'sc outbox_publisher" where
  "create_publisher q hdrs ttl desc schema incl = \<lparr>op_queue = q, op_headers = (case hdrs of None \<Rightarrow> [] | Some hs \<Rightarrow> hs),
     op_title = ttl, op_description = desc, op_schema = schema, op_include_in_schema = incl\<rparr>"

definition registrator_publisher :: "string \<Rightarrow> 'sc publisher_kwargs \<Rightarrow> 'sc outbox_publisher" where
  "registrator_publisher q kw = create_publisher q (given (pk_headers kw) None) (given (pk_title kw) None)
     (given (pk_description kw) None) (given (pk_schema kw) None) (given (pk_include_in_schema kw) True)"

definition fastapi_publisher :: "string \<Rightarrow> 'sc publisher_kwargs \<Rightarrow> 'sc outbox_publisher" where
  "fastapi_publisher q kw = registrator_publisher q \<lparr>pk_headers = Some (given (pk_headers kw) None),
     pk_title = Some (given (pk_title kw) None), pk_description = Some (given (pk_description kw) None),
     pk_schema = Some (given (pk_schema kw) None), pk_include_in_schema = Some (given (pk_include_in_schema kw) True)\<rparr>"

section \<open>Brokers\<close>

text \<open>The arguments that the models read; the rest is FastStream's.\<close>

record ('e, 'r) broker_kwargs =
  bq_engine :: "'e option"
  bq_table :: "nat list"
  bq_has_dlq_table :: bool
  bq_middlewares :: "middleware list option"
  bq_graceful_timeout :: "rat option option"
  bq_metrics_recorder :: "'r option option"
  bq_renderer :: "(exn \<Rightarrow> exn + py_text option) option option"
  bq_apply_types :: "bool option"

record ('e, 'r) broker_setup =
  bs_engine :: "'e option"
  bs_client :: "('e \<times> bool) option"
  bs_recorder :: 'r
  bs_producer_recorder :: 'r
  bs_has_dlq_table :: bool
  bs_renderer :: "(exn \<Rightarrow> exn + py_text option) option"
  bs_middlewares :: "middleware list"
  bs_graceful_timeout :: "rat option"
  bs_apply_types :: bool

text \<open>
  \<open>OutboxClient.__init__\<close> checks the identifiers derived from the table's name; \<open>Inl n\<close> is the
  \<open>ValueError\<close> that reports one of \<open>n\<close> bytes.
\<close>

definition client_init :: "'e \<Rightarrow> nat list \<Rightarrow> bool \<Rightarrow> nat + 'e \<times> bool" where
  "client_init engine table has_dlq =
     (case validate_table_identifiers table of Some n \<Rightarrow> Inl n | None \<Rightarrow> Inr (engine, has_dlq))"

text \<open>\<open>OutboxBroker.__init__\<close>; \<open>noop\<close> is the recorder that drops every event.\<close>

definition broker_init :: "'r \<Rightarrow> ('e, 'r) broker_kwargs \<Rightarrow> nat + ('e, 'r) broker_setup" where
  "broker_init noop kw =
     (let engine = bq_engine kw;
          recorder = (case given (bq_metrics_recorder kw) None of None \<Rightarrow> noop | Some r \<Rightarrow> r);
          setup = (\<lambda>client. \<lparr>bs_engine = engine, bs_client = client,
            bs_recorder = recorder, bs_producer_recorder = recorder,
            bs_has_dlq_table = bq_has_dlq_table kw, bs_renderer = given (bq_renderer kw) None,
            bs_middlewares = capture_middleware # given (bq_middlewares kw) [],
            bs_graceful_timeout = given (bq_graceful_timeout kw) (Some 15),
            bs_apply_types = given (bq_apply_types kw) True\<rparr>)
      in case engine of
           None \<Rightarrow> Inr (setup None)
         | Some e \<Rightarrow> (case client_init e (bq_table kw) (bq_has_dlq_table kw) of
             Inl n \<Rightarrow> Inl n | Inr c \<Rightarrow> Inr (setup (Some c))))"

text \<open>The FastAPI router's broker: every argument by name, and \<open>apply_types\<close> off, since FastAPI injects.\<close>

definition fastapi_broker :: "'r \<Rightarrow> ('e, 'r) broker_kwargs \<Rightarrow> nat + ('e, 'r) broker_setup" where
  "fastapi_broker noop kw = broker_init noop
     (kw\<lparr>bq_middlewares := Some (given (bq_middlewares kw) []),
         bq_graceful_timeout := Some (given (bq_graceful_timeout kw) (Some 15)),
         bq_metrics_recorder := Some (given (bq_metrics_recorder kw) None),
         bq_renderer := Some (given (bq_renderer kw) None),
         bq_apply_types := Some False\<rparr>)"

section \<open>Lemmas\<close>

lemma given_simps [simp]: "given (Some v) d = v" "given None d = d"
  by (simp_all add: given_def)

lemma by_name_params [simp]:
  "registrator_params (by_name (route_params kw)) = registrator_params kw"
  "registrator_params (by_name (fastapi_params kw)) = registrator_params kw"
  by (simp_all add: registrator_params_def route_params_def fastapi_params_def by_name_def)

text \<open>Dropping the subscriber itself leaves the registration that a start reads.\<close>

lemma registrator_registers:
  "(case registrator_subscriber dflt qa kw pubs subs of Inl e \<Rightarrow> Inl e | Inr (sub, r) \<Rightarrow> Inr r) =
     register_subscriber dflt qa (usecase_config [] (registrator_params kw)) pubs subs"
proof -
  have "(usecase_config [] p)\<lparr>sc_queues := qs\<rparr> = usecase_config qs p" for qs p
    by (simp add: usecase_config_def)
  then show ?thesis
    by (auto simp: registrator_subscriber_def register_subscriber_def create_subscriber_def Let_def split: sum.splits)
qed

lemma route_subscriber_same: "route_subscriber dflt qa kw pubs subs = registrator_subscriber dflt qa kw pubs subs"
  by (simp add: route_subscriber_def registrator_subscriber_def)

lemma router_routes_register:
  "router_routes dflt routes subs =
     register_all dflt (map (\<lambda>(qa, kw, pubs). (qa, usecase_config [] (registrator_params kw), pubs)) routes) subs"
proof (induction routes arbitrary: subs)
  case (Cons r routes)
  obtain qa kw pubs where r: "r = (qa, kw, pubs)" by (cases r)
  have "register_all dflt (map (\<lambda>(qa, kw, pubs). (qa, usecase_config [] (registrator_params kw), pubs)) (r # routes)) subs =
     (case (case registrator_subscriber dflt qa kw pubs subs of Inl e \<Rightarrow> Inl e | Inr (sub, x) \<Rightarrow> Inr x) of
        Inl e \<Rightarrow> Inl e
      | Inr (subs', ws) \<Rightarrow> (case router_routes dflt routes subs' of Inl e \<Rightarrow> Inl e
          | Inr (subs'', ws') \<Rightarrow> Inr (subs'', ws @ ws')))"
    unfolding registrator_registers by (simp add: r Cons.IH split: sum.split)
  then show ?case
    by (simp only: r router_routes.simps route_subscriber_same) (auto split: sum.splits)
qed simp

section \<open>The property\<close>

text \<open>
  It does not matter where a subscriber, a publisher or a broker is declared. With the same
  arguments, left out or given, a route of a router and the FastAPI router create the subscriber, raise the
  error and give the warnings that the registrator does, and a router's routes register as one subscriber
  after the other; both ways build the same publisher; and the FastAPI router's broker is the broker built
  directly without FastDepends. A broker is refused exactly if it has an engine and its table's name is too
  long, and has the exception capture outside the caller's middlewares.
\<close>

theorem entry_points_agree:
  "route_subscriber dflt qa kw pubs subs = registrator_subscriber dflt qa kw pubs subs \<and>
   fastapi_subscriber dflt qa kw pubs subs = registrator_subscriber dflt qa kw pubs subs \<and>
   router_routes dflt routes subs =
     register_all dflt (map (\<lambda>(qa, kw, pubs). (qa, usecase_config [] (registrator_params kw), pubs)) routes) subs \<and>
   fastapi_publisher q pk = registrator_publisher q pk \<and>
   fastapi_broker noop bq = broker_init noop (bq\<lparr>bq_apply_types := Some False\<rparr>) \<and>
   (case broker_init noop bq of
      Inl n \<Rightarrow> bq_engine bq \<noteq> None \<and> validate_table_identifiers (bq_table bq) = Some n
    | Inr s \<Rightarrow> (bq_engine bq = None \<or> validate_table_identifiers (bq_table bq) = None) \<and>
        bs_client s = map_option (\<lambda>e. (e, bq_has_dlq_table bq)) (bq_engine bq) \<and>
        bs_middlewares s = capture_middleware # given (bq_middlewares bq) [])"
proof -
  have "fastapi_subscriber dflt qa kw pubs subs = registrator_subscriber dflt qa kw pubs subs"
    by (simp add: fastapi_subscriber_def registrator_subscriber_def)
  moreover have "fastapi_publisher q pk = registrator_publisher q pk"
    by (simp add: fastapi_publisher_def registrator_publisher_def)
  moreover have "fastapi_broker noop bq = broker_init noop (bq\<lparr>bq_apply_types := Some False\<rparr>)"
    by (simp add: fastapi_broker_def broker_init_def Let_def split: option.split sum.split)
  moreover have "case broker_init noop bq of
      Inl n \<Rightarrow> bq_engine bq \<noteq> None \<and> validate_table_identifiers (bq_table bq) = Some n
    | Inr s \<Rightarrow> (bq_engine bq = None \<or> validate_table_identifiers (bq_table bq) = None) \<and>
        bs_client s = map_option (\<lambda>e. (e, bq_has_dlq_table bq)) (bq_engine bq) \<and>
        bs_middlewares s = capture_middleware # given (bq_middlewares bq) []"
    by (auto simp: broker_init_def client_init_def Let_def split: option.split)
  ultimately show ?thesis using route_subscriber_same router_routes_register by blast
qed

definition no_kwargs :: subscriber_kwargs where
  "no_kwargs = \<lparr>kw_max_workers = None, kw_retry_strategy = None, kw_fetch_batch_size = None,
     kw_min_fetch_interval = None, kw_max_fetch_interval = None, kw_lease_ttl_seconds = None,
     kw_query_timeout_seconds = None, kw_max_deliveries = None, kw_terminal_flush_batch_size = None,
     kw_ack_policy = None, kw_propagate_inbound_headers = None, kw_title = None, kw_description = None,
     kw_include_in_schema = None\<rparr>"

text \<open>
  A subscriber declared with its queue alone is accepted without a warning if the name is, and it retries
  with the default strategy, nacks on an error, delivers without a limit and holds two connections.
\<close>

theorem bare_subscriber:
  "(case registrator_subscriber dflt (OneQueue q) no_kwargs pubs [] of
      Inl e \<Rightarrow> q = [] \<or> length q > 255
    | Inr ((c, spec), subs, ws) \<Rightarrow> q \<noteq> [] \<and> length q \<le> 255 \<and> ws = [] \<and> map pooled_connections subs = [2] \<and>
        map rg_queues subs = [[q]] \<and> sc_retry_strategy c = Strategy dflt \<and> sc_max_deliveries c = None \<and>
        effective_ack_policy c = NackOnError \<and> query_timeout c = 60)"
  by (simp add: registrator_subscriber_def create_subscriber_def config_post_init_def validate_config_def
    usecase_config_def registrator_params_def no_kwargs_def validate_queues_def queue_error_def
    duplicate_queues_def validate_numbers_def count_checks_def validate_query_timeout_def last_checks_def
    config_warnings_def registered_of_def registered_overlap_def pooled_connections_def effective_ack_policy_def
    query_timeout_def max_queue_length_def Let_def)

end
