(* ===== verification/Recorder_Setup.thy ===== *)
theory Recorder_Setup
  imports Metrics Subscriber_Config
begin

text \<open>
  How the two recorders are built: the instruments \<open>PrometheusRecorder.__init__\<close> and
  \<open>OpenTelemetryRecorder.__init__\<close> create, with their names and labels, and what they refuse. The
  operations of a call go to these instruments; the client library raises on one that does not exist, on
  a wrong number of labels, on an operation its kind lacks and on a counter that would go down.
\<close>

section \<open>Prometheus\<close>

definition missing_extra_message :: "string \<Rightarrow> string \<Rightarrow> string" where
  "missing_extra_message component extra = component @ '' requires the '' @ [CHR 0x27] @ extra @ [CHR 0x27] @
     '' extra: pip install '' @ [CHR 0x27] @ ''faststream-outbox['' @ extra @ '']'' @ [CHR 0x27]"

datatype metric_kind = CounterKind | HistogramKind | GaugeKind

record family =
  fm_metric :: metric
  fm_kind :: metric_kind
  fm_name :: string
  fm_labels :: "string list"

record prometheus_args =
  pa_app_name :: "string option"
  pa_prefix :: string
  pa_custom_labels :: "(string \<times> (tags \<Rightarrow> exn + tag)) list option"
  pa_include_bus :: bool
  pa_lag_interval :: "py_float option"

definition consume_labels :: "string list \<Rightarrow> string list" where
  "consume_labels custom = [''app_name'', ''broker'', ''handler''] @ custom"

definition publish_label_names :: "string list \<Rightarrow> string list" where
  "publish_label_names custom = [''app_name'', ''broker'', ''destination''] @ custom"

definition bus_families :: "string \<Rightarrow> string list \<Rightarrow> string list \<Rightarrow> family list" where
  "bus_families p cl pl =
     [\<lparr>fm_metric = ReceivedTotal, fm_kind = CounterKind, fm_name = p @ ''_received_messages_total'', fm_labels = cl\<rparr>,
      \<lparr>fm_metric = ReceivedSize, fm_kind = HistogramKind, fm_name = p @ ''_received_messages_size_bytes'', fm_labels = cl\<rparr>,
      \<lparr>fm_metric = InProcess, fm_kind = GaugeKind, fm_name = p @ ''_received_messages_in_process'', fm_labels = cl\<rparr>,
      \<lparr>fm_metric = ProcessedTotal, fm_kind = CounterKind, fm_name = p @ ''_received_processed_messages_total'',
       fm_labels = cl @ [''status'']\<rparr>,
      \<lparr>fm_metric = ProcessedDuration, fm_kind = HistogramKind,
       fm_name = p @ ''_received_processed_messages_duration_seconds'', fm_labels = cl\<rparr>,
      \<lparr>fm_metric = ProcessedExceptions, fm_kind = CounterKind,
       fm_name = p @ ''_received_processed_messages_exceptions_total'', fm_labels = cl @ [''exception_type'']\<rparr>,
      \<lparr>fm_metric = PublishedTotal, fm_kind = CounterKind, fm_name = p @ ''_published_messages_total'',
       fm_labels = pl @ [''status'']\<rparr>,
      \<lparr>fm_metric = PublishedDuration, fm_kind = HistogramKind, fm_name = p @ ''_published_messages_duration_seconds'',
       fm_labels = pl\<rparr>,
      \<lparr>fm_metric = PublishedExceptions, fm_kind = CounterKind, fm_name = p @ ''_published_messages_exceptions_total'',
       fm_labels = pl @ [''exception_type'']\<rparr>]"

definition outbox_families :: "string \<Rightarrow> string list \<Rightarrow> family list" where
  "outbox_families p cl =
     [\<lparr>fm_metric = FetchBatches, fm_kind = CounterKind, fm_name = p @ ''_outbox_fetch_batches_total'',
       fm_labels = cl @ [''non_empty'']\<rparr>,
      \<lparr>fm_metric = TerminalReason, fm_kind = CounterKind, fm_name = p @ ''_outbox_terminal_total'',
       fm_labels = cl @ [''reason'']\<rparr>,
      \<lparr>fm_metric = LeaseLost, fm_kind = CounterKind, fm_name = p @ ''_outbox_lease_lost_total'',
       fm_labels = cl @ [''phase'']\<rparr>,
      \<lparr>fm_metric = DlqWritten, fm_kind = CounterKind, fm_name = p @ ''_outbox_dlq_written_total'',
       fm_labels = cl @ [''reason'']\<rparr>,
      \<lparr>fm_metric = DrainTimeout, fm_kind = CounterKind, fm_name = p @ ''_outbox_drain_timeout_total'', fm_labels = cl\<rparr>]"

text \<open>The gauges of the queue lag have fixed names; both are labelled by table and queue.\<close>

definition lag_gauge_names :: "string list" where
  "lag_gauge_names = [''faststream_outbox_oldest_due_message_age_seconds'',
     ''faststream_outbox_queue_lag_last_success_timestamp_seconds'']"

record prometheus_setup =
  ps_recorder :: prometheus_recorder
  ps_families :: "family list"
  ps_lag_gauges :: "string list"
  ps_lag_interval :: "rat option"

definition bad_interval :: "py_float \<Rightarrow> bool" where
  "bad_interval x = (case x of NonFinite \<Rightarrow> True | Finite t \<Rightarrow> t \<le> 0)"

definition prometheus_init :: "bool \<Rightarrow> prometheus_args \<Rightarrow> exn + prometheus_setup" where
  "prometheus_init installed a =
     (if \<not> installed then Inl (py_exn ''ImportError'' (missing_extra_message ''PrometheusRecorder'' ''prometheus''))
      else if (case pa_lag_interval a of None \<Rightarrow> False | Some x \<Rightarrow> bad_interval x)
      then Inl (py_exn ''ValueError'' ''queue_lag_interval_seconds must be finite and positive.'')
      else let custom = (case pa_custom_labels a of None \<Rightarrow> [] | Some d \<Rightarrow> d);
               cl = consume_labels (map fst custom); pl = publish_label_names (map fst custom)
           in Inr \<lparr>ps_recorder = \<lparr>pr_app_name = (case pa_app_name a of None \<Rightarrow> [] | Some s \<Rightarrow> s),
                      pr_custom = map snd custom, pr_bus = pa_include_bus a\<rparr>,
                    ps_families = (if pa_include_bus a then bus_families (pa_prefix a) cl pl else []) @
                      outbox_families (pa_prefix a) cl,
                    ps_lag_gauges = (if pa_lag_interval a = None then [] else lag_gauge_names),
                    ps_lag_interval = map_option rat_of (pa_lag_interval a)\<rparr>)"

section \<open>OpenTelemetry\<close>

datatype instrument_kind = OtelCounter | OtelHistogram

record otel_setup =
  os_recorder :: otel_recorder
  os_instruments :: "(instrument \<times> instrument_kind \<times> string) list"

definition otel_init :: "bool \<Rightarrow> bool \<Rightarrow> bool \<Rightarrow> exn + otel_setup" where
  "otel_init installed include_counters include_bus =
     (if \<not> installed then Inl (py_exn ''ImportError'' (missing_extra_message ''OpenTelemetryRecorder'' ''opentelemetry''))
      else Inr \<lparr>os_recorder = \<lparr>ot_bus = include_bus, ot_counters = include_counters\<rparr>,
        os_instruments =
          (if include_bus then [(ProcessDuration, OtelHistogram, ''messaging.process.duration''),
             (PublishDuration, OtelHistogram, ''messaging.publish.duration'')] else []) @
          (if include_bus \<and> include_counters then [(ProcessMessages, OtelCounter, ''messaging.process.messages''),
             (PublishMessages, OtelCounter, ''messaging.publish.messages'')] else []) @
          [(FetchBatchesCounter, OtelCounter, ''messaging.outbox.fetch.batches''),
           (LeaseLostCounter, OtelCounter, ''messaging.outbox.lease_lost''),
           (DlqWrittenCounter, OtelCounter, ''messaging.outbox.dlq_written''),
           (DrainTimeoutCounter, OtelCounter, ''messaging.outbox.drain_timeout'')]\<rparr>)"

section \<open>What an operation needs\<close>

fun op_fits :: "family \<Rightarrow> metric_op \<Rightarrow> bool" where
  "op_fits f (Inc m ls x) \<longleftrightarrow> fm_metric f = m \<and> length ls = length (fm_labels f) \<and>
     (fm_kind f = GaugeKind \<or> fm_kind f = CounterKind \<and> x \<ge> 0)"
| "op_fits f (Dec m ls x) \<longleftrightarrow> fm_metric f = m \<and> length ls = length (fm_labels f) \<and> fm_kind f = GaugeKind"
| "op_fits f (Observe m ls x) \<longleftrightarrow> fm_metric f = m \<and> length ls = length (fm_labels f) \<and> fm_kind f = HistogramKind"

fun otel_op_fits :: "instrument \<times> instrument_kind \<times> string \<Rightarrow> otel_op \<Rightarrow> bool" where
  "otel_op_fits (i, k, name) (Add j x attrs) \<longleftrightarrow> i = j \<and> k = OtelCounter"
| "otel_op_fits (i, k, name) (Record j x attrs) \<longleftrightarrow> i = j \<and> k = OtelHistogram"

lemma resolve_custom_length: "resolve_custom fs tgs = Inr vs \<Longrightarrow> length vs = length fs"
  by (induction fs arbitrary: vs) (auto split: sum.splits)

lemma consume_values_length: "consume_values rc tgs = Inr base \<Longrightarrow> length base = 3 + length (pr_custom rc)"
  by (auto simp: consume_values_def label_values_def resolve_custom_length split: sum.splits)

lemma publish_values_length: "publish_values rc tgs = Inr base \<Longrightarrow> length base = 3 + length (pr_custom rc)"
  by (auto simp: publish_values_def label_values_def resolve_custom_length split: sum.splits)

lemma record_published_fits:
  assumes "fst (record_published rc tgs) = ops" and "length cl = 3 + length (pr_custom rc)" and "length pl = length cl"
  shows "list_all (\<lambda>p. list_ex (\<lambda>f. op_fits f p) (bus_families pre cl pl)) ops"
  using assms by (auto simp: record_published_def bus_families_def Let_def dest!: publish_values_length split: sum.splits option.splits)

lemma record_bus_consume_fits:
  assumes "length base = length cl"
  shows "list_all (\<lambda>p. list_ex (\<lambda>f. op_fits f p) (bus_families pre cl pl)) (record_bus_consume event tgs base d)"
  using assms by (simp add: record_bus_consume_def bus_families_def split: option.split)

lemma record_outbox_fits:
  assumes "length base = length cl"
  shows "list_all (\<lambda>p. list_ex (\<lambda>f. op_fits f p) (outbox_families pre cl)) (fst (record_outbox event tgs base))"
  using assms by (simp add: record_outbox_def inc_with_def outbox_families_def split: option.split)

lemma list_all_ex_append: "list_all (\<lambda>p. list_ex (\<lambda>f. Q f p) fs) ps \<Longrightarrow>
    list_all (\<lambda>p. list_ex (\<lambda>f. Q f p) (fs @ gs)) ps \<and> list_all (\<lambda>p. list_ex (\<lambda>f. Q f p) (gs @ fs)) ps"
  by (auto simp: list_all_iff)

lemma prometheus_call_fits:
  assumes cl: "length cl = 3 + length (pr_custom rc)" and pl: "length pl = length cl"
  shows "list_all (\<lambda>p. list_ex (\<lambda>f. op_fits f p) ((if pr_bus rc then bus_families pre cl pl else []) @ outbox_families pre cl))
    (fst (prometheus_call rc (event, tgs)))"
proof (cases "event = ''published''")
  case True
  then show ?thesis
    using list_all_ex_append [OF record_published_fits [OF refl cl pl]] by (simp add: prometheus_call_def)
next
  case False
  show ?thesis
  proof (cases "consume_values rc tgs")
    case (Inl e)
    then show ?thesis using False by (simp add: prometheus_call_def)
  next
    case (Inr base)
    then have base: "length base = length cl" using cl by (simp add: consume_values_length)
    have fetched: "list_ex (\<lambda>f. op_fits f (Inc FetchBatches (base @ [v]) 1)) (outbox_families pre cl)" for v
      using base by (simp add: outbox_families_def)
    note bus = list_all_ex_append [OF record_bus_consume_fits [OF base, of pre pl event tgs "tag_get tgs ''duration_seconds''"],
        of "outbox_families pre cl"]
    note outbox = list_all_ex_append [OF record_outbox_fits [OF base, of pre event tgs], of "bus_families pre cl pl"]
    have call: "fst (prometheus_call rc (event, tgs)) = (if event = ''fetched''
        then [Inc FetchBatches (base @ [TStr (if tag_number (tag_or tgs ''count'' (TInt 0)) \<noteq> 0 then ''true'' else ''false'')]) 1]
        else (if pr_bus rc then record_bus_consume event tgs base (tag_get tgs ''duration_seconds'') else []) @
          fst (record_outbox event tgs base))"
      using False Inr by (simp add: prometheus_call_def Let_def case_prod_beta)
    show ?thesis unfolding call using fetched bus outbox record_outbox_fits [OF base, of pre event tgs]
      by (cases "event = ''fetched''"; cases "pr_bus rc") (simp_all add: list_all_append del: op_fits.simps)
  qed
qed

lemma names_distinct:
  "distinct (map fm_name (bus_families p cl pl @ outbox_families p cl) @ lag_gauge_names)"
proof -
  have "set (map fm_name (bus_families p cl pl @ outbox_families p cl)) \<inter> set lag_gauge_names = {}"
    by (auto simp: bus_families_def outbox_families_def lag_gauge_names_def dest: arg_cong [where f = rev])
  then show ?thesis by (simp add: bus_families_def outbox_families_def lag_gauge_names_def)
qed

lemma otel_call_fits:
  assumes "otel_init True counters bus = Inr s"
  shows "list_all (\<lambda>p. list_ex (\<lambda>i. otel_op_fits i p) (os_instruments s)) (fst (otel_call (os_recorder s) (event, tgs)))"
proof -
  have s: "os_recorder s = \<lparr>ot_bus = bus, ot_counters = counters\<rparr>"
    using assms by (auto simp: otel_init_def)
  have outbox: "list_ex (\<lambda>i. otel_op_fits i (Add j x attrs)) (os_instruments s)"
    if "j \<in> {FetchBatchesCounter, LeaseLostCounter, DlqWrittenCounter, DrainTimeoutCounter}" for j x attrs
    using assms that by (auto simp: otel_init_def)
  have durations: "list_ex (\<lambda>i. otel_op_fits i (Record j x attrs)) (os_instruments s)"
    if "bus" "j \<in> {ProcessDuration, PublishDuration}" for j x attrs
    using assms that by (auto simp: otel_init_def)
  have messages: "list_ex (\<lambda>i. otel_op_fits i (Add j x attrs)) (os_instruments s)"
    if "bus" "counters" "j \<in> {ProcessMessages, PublishMessages}" for j x attrs
    using assms that by (auto simp: otel_init_def)
  show ?thesis
    by (auto simp: otel_call_def otel_plain_def otel_process_def otel_reason_def otel_published_def Let_def s
        outbox durations messages simp del: otel_op_fits.simps split: sum.splits option.splits)
qed

section \<open>The property\<close>

text \<open>
  Property C34. A recorder only uses the instruments it was built with. A \<open>PrometheusRecorder\<close> is refused
  exactly without its extra or with an interval that is not finite and positive; one that is built, whatever
  its prefix, custom labels and settings, registers families with distinct names, and for any event and tags
  every operation goes to one of them, with a value for each of its labels, and is one its kind has, no
  counter ever going down. So does the \<open>OpenTelemetryRecorder\<close> with its instruments.
\<close>

theorem recorders_use_their_instruments:
  "(case prometheus_init installed a of
      Inl e \<Rightarrow> if installed then pa_lag_interval a = Some NonFinite \<or> (\<exists>t. pa_lag_interval a = Some (Finite t) \<and> t \<le> 0)
        else True
    | Inr s \<Rightarrow> installed \<and> list_all (\<lambda>p. list_ex (\<lambda>f. op_fits f p) (ps_families s)) (fst (prometheus_call (ps_recorder s) ev)) \<and>
        distinct (map fm_name (ps_families s) @ ps_lag_gauges s) \<and>
        (case ps_lag_interval s of None \<Rightarrow> ps_lag_gauges s = [] | Some t \<Rightarrow> t > 0 \<and> ps_lag_gauges s = lag_gauge_names)) \<and>
   (case otel_init installed counters bus of
      Inl e \<Rightarrow> \<not> installed
    | Inr s \<Rightarrow> installed \<and> list_all (\<lambda>p. list_ex (\<lambda>i. otel_op_fits i p) (os_instruments s)) (fst (otel_call (os_recorder s) ev)))"
proof -
  obtain event tgs where ev: "ev = (event, tgs)" by (cases ev)
  have otel: "case otel_init installed counters bus of
      Inl e \<Rightarrow> \<not> installed
    | Inr s \<Rightarrow> installed \<and> list_all (\<lambda>p. list_ex (\<lambda>i. otel_op_fits i p) (os_instruments s)) (fst (otel_call (os_recorder s) ev))"
  proof (cases installed)
    case True
    then show ?thesis using otel_call_fits [of counters bus] by (simp add: ev split: sum.split) (simp add: otel_init_def)
  qed (simp add: otel_init_def)
  show ?thesis
  proof (cases "prometheus_init installed a")
    case (Inl e)
    then show ?thesis using otel
      by (auto simp: prometheus_init_def bad_interval_def Let_def split: if_splits option.splits py_float.splits)
  next
    case (Inr s)
    define custom where "custom = (case pa_custom_labels a of None \<Rightarrow> [] | Some d \<Rightarrow> d)"
    have s: "installed" "\<not> (case pa_lag_interval a of None \<Rightarrow> False | Some x \<Rightarrow> bad_interval x)"
      "pr_custom (ps_recorder s) = map snd custom" "pr_bus (ps_recorder s) = pa_include_bus a"
      "ps_families s = (if pa_include_bus a then bus_families (pa_prefix a) (consume_labels (map fst custom))
         (publish_label_names (map fst custom)) else []) @ outbox_families (pa_prefix a) (consume_labels (map fst custom))"
      "ps_lag_gauges s = (if pa_lag_interval a = None then [] else lag_gauge_names)"
      "ps_lag_interval s = map_option rat_of (pa_lag_interval a)"
      using Inr by (auto simp: prometheus_init_def Let_def custom_def split: if_splits)
    have "list_all (\<lambda>p. list_ex (\<lambda>f. op_fits f p) (ps_families s)) (fst (prometheus_call (ps_recorder s) ev))"
      using prometheus_call_fits [of "consume_labels (map fst custom)" "ps_recorder s"
          "publish_label_names (map fst custom)" "pa_prefix a" event tgs]
      unfolding s(3-5) ev by (simp add: consume_labels_def publish_label_names_def)
    moreover have "distinct (map fm_name (ps_families s) @ ps_lag_gauges s)"
      using names_distinct [of "pa_prefix a" "consume_labels (map fst custom)" "publish_label_names (map fst custom)"]
      unfolding s(5,6) by auto
    moreover have "case ps_lag_interval s of None \<Rightarrow> ps_lag_gauges s = [] | Some t \<Rightarrow> t > 0 \<and> ps_lag_gauges s = lag_gauge_names"
      using s(2) unfolding s(6,7) by (auto simp: bad_interval_def split: option.splits py_float.splits)
    ultimately show ?thesis using otel Inr s(1) by simp
  qed
qed

end
