(* ===== verification/Specification.thy ===== *)
theory Specification
  imports Entry_Points Recorder_Setup
begin

text \<open>
  What the package tells FastStream about itself: the AsyncAPI channels of subscribers and publishers
  (\<open>subscriber/usecase.py\<close>, \<open>publisher/specification.py\<close>, \<open>broker.py\<close>) and the attributes of a row or a
  command for FastStream's telemetry middlewares (\<open>prometheus/\<close>, \<open>opentelemetry/\<close>). The key that
  FastStream gives a channel, the payloads, the rendering of an engine's URL and the attribute name
  \<open>MESSAGING_DESTINATION_PUBLISH_NAME\<close> are arguments.
\<close>

section \<open>AsyncAPI\<close>

definition spec_url :: "('e \<Rightarrow> string) \<Rightarrow> 'e option \<Rightarrow> string \<Rightarrow> string list" where
  "spec_url render engine table = (case engine of Some e \<Rightarrow> [render e] | None \<Rightarrow> [''postgresql://outbox/'' @ table])"

record 'p spec_channel =
  ch_address :: string
  ch_description :: "string option"
  ch_title :: string
  ch_payload :: 'p

text \<open>\<open>list(dict.fromkeys(queues))\<close>: the first occurrence of each stays.\<close>

definition channel_labels :: "string list \<Rightarrow> string list" where
  "channel_labels qs = rev (remdups (rev qs))"

definition subscriber_schema :: "(string \<Rightarrow> bool \<Rightarrow> string) \<Rightarrow> string option \<Rightarrow> 'p \<Rightarrow> string list \<Rightarrow>
    (string \<times> 'p spec_channel) list" where
  "subscriber_schema channel_key desc body qs =
     (let labels = channel_labels qs; split = length labels > 1
      in fold (\<lambda>q schema. let key = channel_key q split
           in dict_set key \<lparr>ch_address = q, ch_description = desc, ch_title = key @ '':Message'', ch_payload = body\<rparr> schema)
         labels [])"

text \<open>An empty title counts as none.\<close>

definition publisher_name :: "'sc outbox_publisher \<Rightarrow> string" where
  "publisher_name p = (case op_title p of
     Some ttl \<Rightarrow> if ttl \<noteq> [] then ttl else op_queue p @ '':Publisher''
   | None \<Rightarrow> op_queue p @ '':Publisher'')"

definition publisher_schema :: "'p \<Rightarrow> 'sc outbox_publisher \<Rightarrow> (string \<times> 'p spec_channel) list" where
  "publisher_schema body p = [(publisher_name p, \<lparr>ch_address = op_queue p, ch_description = op_description p,
     ch_title = publisher_name p @ '':Message'', ch_payload = body\<rparr>)]"

lemma channel_labels_simps: "set (channel_labels qs) = set qs" "distinct (channel_labels qs)"
  by (simp_all add: channel_labels_def)

lemma fold_channels:
  assumes "inj_on key (set labels)" and "distinct labels" and "set labels \<inter> set done = {}"
    and "schema = map (\<lambda>q. (key q, ch q)) done" and "inj_on key (set labels \<union> set done)"
  shows "fold (\<lambda>q. dict_set (key q) (ch q)) labels schema = map (\<lambda>q. (key q, ch q)) (done @ labels)"
  using assms
proof (induction labels arbitrary: "done" schema)
  case (Cons q labels)
  have "key q \<notin> key ` set done" using Cons.prems(3,5) by (auto dest: inj_onD)
  then have "dict_set (key q) (ch q) schema = map (\<lambda>q. (key q, ch q)) (done @ [q])"
    using Cons.prems(4) by (induction "done" arbitrary: schema) (auto simp: dict_set_def)
  moreover have "inj_on key (set labels)" "set labels \<inter> set (done @ [q]) = {}"
    using Cons.prems by (auto simp: inj_on_def)
  moreover have "inj_on key (set labels \<union> set (done @ [q]))" using Cons.prems(5) by (rule inj_on_subset) auto
  ultimately show ?case using Cons.IH [of "done @ [q]" "dict_set (key q) (ch q) schema"] Cons.prems(2) by simp
qed simp

text \<open>
  A document holds one channel for each queue a subscriber drains, in the order they were given, none
  twice, provided that FastStream's key tells the queues of one subscriber apart.
\<close>

theorem channels_cover_queues:
  assumes "inj_on (\<lambda>q. channel_key q (length (channel_labels qs) > 1)) (set qs)"
  shows "map (\<lambda>(key, ch). ch_address ch) (subscriber_schema channel_key desc body qs) = channel_labels qs \<and>
    distinct (map fst (subscriber_schema channel_key desc body qs)) \<and>
    list_all (\<lambda>(key, ch). ch_title ch = key @ '':Message'' \<and> ch_payload ch = body) (subscriber_schema channel_key desc body qs)"
proof -
  let ?key = "\<lambda>q. channel_key q (length (channel_labels qs) > 1)"
  let ?ch = "\<lambda>q. \<lparr>ch_address = q, ch_description = desc, ch_title = ?key q @ '':Message'', ch_payload = body\<rparr>"
  have "subscriber_schema channel_key desc body qs = map (\<lambda>q. (?key q, ?ch q)) (channel_labels qs)"
    using fold_channels [of ?key "channel_labels qs" "[]" "[]" ?ch] assms
    by (simp add: subscriber_schema_def Let_def channel_labels_simps)
  then show ?thesis using assms
    by (simp add: comp_def distinct_map channel_labels_simps list_all_iff)
qed

section \<open>Telemetry of the middlewares\<close>

text \<open>\<open>OutboxPrometheusMiddleware.__init__\<close> and \<open>OutboxTelemetryMiddleware.__init__\<close>: the extra they need.\<close>

definition prometheus_middleware_init :: "bool \<Rightarrow> exn option" where
  "prometheus_middleware_init installed = (if \<not> installed
     then Some (py_exn ''ImportError'' (missing_extra_message ''OutboxPrometheusMiddleware'' ''prometheus'')) else None)"

definition telemetry_middleware_init :: "bool \<Rightarrow> exn option" where
  "telemetry_middleware_init installed = (if \<not> installed
     then Some (py_exn ''ImportError'' (missing_extra_message ''OutboxTelemetryMiddleware'' ''opentelemetry'')) else None)"

definition prometheus_consume_attrs :: "inner_message \<Rightarrow> tags" where
  "prometheus_consume_attrs raw = [(''message_size'', TInt (int (length (payload raw)))),
     (''destination_name'', TStr (queue raw)), (''messages_count'', TInt 1)]"

definition prometheus_publish_destination :: "'b publish_command \<Rightarrow> string" where
  "prometheus_publish_destination cmd = pc_queue cmd"

definition otel_consume_attrs :: "string \<Rightarrow> inner_message \<Rightarrow> stream_message \<Rightarrow> tags" where
  "otel_consume_attrs publish_name raw msg =
     dict_set publish_name (TStr (queue raw))
       [(''messaging.system'', TStr broker_system), (''messaging.message.id'', TStr (py_str_nat (row_id raw))),
        (''messaging.message.conversation_id'', TStr (sm_correlation_id msg)),
        (''messaging.message.payload_size_bytes'', TInt (int (length (payload raw))))]"

definition otel_consume_destination :: "inner_message \<Rightarrow> string" where
  "otel_consume_destination raw = queue raw"

definition otel_publish_attrs :: "'b publish_command \<Rightarrow> tags" where
  "otel_publish_attrs cmd =
     (let attrs = [(''messaging.system'', TStr broker_system), (''messaging.destination.name'', TStr (pc_queue cmd)),
        (''messaging.message.conversation_id'', (case pc_correlation_id cmd of None \<Rightarrow> TNone | Some c \<Rightarrow> TStr c))]
      in if length (batch_bodies cmd) > 1
         then dict_set ''messaging.batch.message_count'' (TInt (int (length (batch_bodies cmd)))) attrs else attrs)"

definition otel_publish_destination :: "'b publish_command \<Rightarrow> string" where
  "otel_publish_destination cmd = pc_queue cmd"

text \<open>
  Both seams report the same row alike: the middlewares' size and destination are the \<open>size_bytes\<close> and
  \<open>queue\<close> of the dispatch event, the identifiers those the parser reads; a batch is counted with every
  body, a \<open>None\<close> too, and a single publish is not.
\<close>

theorem seams_agree:
  "dict_get (prometheus_consume_attrs raw) ''message_size'' = dict_get (snd (dispatched_event cfg raw)) ''size_bytes'' \<and>
   dict_get (prometheus_consume_attrs raw) ''destination_name'' = dict_get (snd (dispatched_event cfg raw)) ''queue'' \<and>
   dict_get (otel_consume_attrs k raw (parse_message raw)) k = dict_get (snd (dispatched_event cfg raw)) ''queue'' \<and>
   otel_consume_destination raw = sm_reply_to (parse_message raw) \<and>
   (k = ''messaging.message.id'' \<or>
    dict_get (otel_consume_attrs k raw (parse_message raw)) ''messaging.message.id'' = Some (TStr (sm_message_id (parse_message raw)))) \<and>
   dict_get (otel_publish_attrs cmd) ''messaging.destination.name'' = Some (TStr (prometheus_publish_destination cmd)) \<and>
   dict_get (otel_publish_attrs cmd) ''messaging.batch.message_count'' =
     (if pc_extra_bodies cmd = [] then None else Some (TInt (1 + int (length (pc_extra_bodies cmd)))))"
  by (auto simp: prometheus_consume_attrs_def dispatched_event_def base_tags_def otel_consume_attrs_def
    otel_consume_destination_def parse_message_def otel_publish_attrs_def prometheus_publish_destination_def
    batch_bodies_def Let_def dict_set_def)

end
