(* ===== verification/Spec2Isabelle.thy ===== *)
theory Spec2Isabelle
  imports Schema Scheduling Retry_Strategy Message Envelope Client Client_Contract Fake_Client
    Dispatch Dispatch_Properties Subscriber_Loop Lease_Protocol Row_Lifecycle Notify
    Publish Publish_Contract Publish_Properties Lifecycle Subscriber_Config Metrics Metrics_Properties
    Queue_Lag Autovacuum Schema_Validation Broker Test_Broker
    Listen_Connection Wakeup Handler_Pipeline Subscriber_Calls Broker_Timers Test_Harness Entry_Points
    Recorder_Setup Specification
begin

text \<open>
  A verification development for faststream-outbox, a transactional outbox on Postgres with the interface
  of a FastStream broker: a producer inserts rows in the caller's transaction, subscribers lease, handle
  and delete them.

  \<^bold>\<open>The program's parts and their theories\<close> (paths under \<open>src/faststream_outbox/\<close>).

  \<^item> \<open>Prelude\<close>: the model's types, Python dictionaries as association lists, exceptions, ordered and limited
    scans.
  \<^item> \<open>Schema\<close> (\<open>schema.py\<close>): the columns of the two tables, what their constraints enforce, the archive
    projection, the guard on derived identifiers.
  \<^item> \<open>Scheduling\<close>, \<open>Retry_Strategy\<close> (\<open>_scheduling.py\<close>, \<open>retry.py\<close>): activation times and retry delays.
  \<^item> \<open>Message\<close> (\<open>message.py\<close>): the claimed row in memory and the outcome its ack, nack and reject record.
  \<^item> \<open>Envelope\<close> (\<open>envelope.py\<close>, \<open>parser/parser.py\<close>): payload and headers written and read back.
  \<^item> \<open>Client\<close>, \<open>Client_Contract\<close> (\<open>client.py\<close>): the statements on the tables; the contract \<open>leased_store\<close>
    that the subscriber relies on, with its interpretation on the statements.
  \<^item> \<open>Fake_Client\<close> (\<open>testing.py\<close>): the in-memory client, interpreted in the same contract and proved equal
    to the statements.
  \<^item> \<open>Dispatch\<close>, \<open>Dispatch_Properties\<close> (\<open>subscriber/usecase.py\<close>): one row through the delivery gate, the
    pipeline, the outcome's write, the batched flush and the metric events, under any fault of a write.
  \<^item> \<open>Subscriber_Loop\<close> (\<open>subscriber/usecase.py\<close>): fetch loop, workers, reconnects, start and stop as
    interleaved steps.
  \<^item> \<open>Listen_Connection\<close>, \<open>Wakeup\<close>, \<open>Subscriber_Calls\<close> (\<open>subscriber/usecase.py\<close>): the connections of each
    round of a loop and their release under any failure; how a NOTIFY reaches a fetch that is about to
    sleep; the stop a handler asks for, the channel.
  \<^item> \<open>Handler_Pipeline\<close> (\<open>subscriber/usecase.py\<close>, \<open>broker.py\<close>): \<open>process_message\<close> with its middlewares, the
    choice of the handler, its publishers, and the capture of its exception.
  \<^item> \<open>Lease_Protocol\<close>: the statements of any number of processes in any order.
  \<^item> \<open>Row_Lifecycle\<close>: an abstract specification, the life of one message from waiting over leased to gone or
    archived (\<open>row_move\<close>), the proof that the statements refine it, and the count of its deliveries.
  \<^item> \<open>Notify\<close> (\<open>client.py\<close>): NOTIFY through nested transactions.
  \<^item> \<open>Publish\<close>, \<open>Publish_Contract\<close>, \<open>Publish_Properties\<close> (\<open>response.py\<close>, \<open>publisher/\<close>, \<open>broker.py\<close>): arguments,
    commands, responses, producer and entry points; the contract \<open>publish_store\<close> of a client's inserts,
    interpreted on both clients.
  \<^item> \<open>Lifecycle\<close>: publish, claim, parse, dispatch and delete composed.
  \<^item> \<open>Subscriber_Config\<close>, \<open>Broker\<close> (\<open>subscriber/config.py\<close>, \<open>registrator.py\<close>, \<open>broker.py\<close>): validation,
    registration, start with its checks and warnings, stop, ping.
  \<^item> \<open>Entry_Points\<close> (\<open>registrator.py\<close>, \<open>router.py\<close>, \<open>fastapi/router.py\<close>, the factories, \<open>broker.py\<close>): where
    subscribers, publishers and brokers are declared, with the defaults of each signature.
  \<^item> \<open>Broker_Timers\<close> (\<open>broker.py\<close>): the calls that reach the client, and cancelled timers over any run of
    statements.
  \<^item> \<open>Metrics\<close>, \<open>Metrics_Properties\<close>, \<open>Queue_Lag\<close> (\<open>metrics/\<close>): what the recorders do with the events and what
    the lag sampler reads.
  \<^item> \<open>Recorder_Setup\<close>, \<open>Specification\<close> (\<open>metrics/\<close>, \<open>prometheus/\<close>, \<open>opentelemetry/\<close>,
    \<open>publisher/specification.py\<close>): the instruments a recorder creates; the attributes and channels that
    FastStream asks for.
  \<^item> \<open>Schema_Validation\<close>, \<open>Autovacuum\<close>: the opt-in checks of the live tables.
  \<^item> \<open>Test_Broker\<close> (\<open>testing.py\<close>): a publish through the test harness with nested dispatches.
  \<^item> \<open>Test_Harness\<close> (\<open>testing.py\<close>): the tasks the harness starts and cancels, and what it patches.

  \<^bold>\<open>How state and operations correspond.\<close> A method that mutates is a function that returns the new state; a
  raise is \<open>Inl\<close> of an exception or an error value of its own; a table is the list of its rows, in no order
  the code relies on. A SQL statement is atomic and is the function from rows to rows that its clauses
  denote. The name of a definition is the name of the function it models, prefixed where HOL or another
  class has it (\<open>client_fetch\<close>, \<open>fake_fetch\<close>, \<open>broker_start\<close>). The components meet in two contracts: dispatch
  and loops use a client only through \<open>leased_store\<close>, the producer uses one only through \<open>publish_store\<close>.

  \<^bold>\<open>What the groups of lemmas show.\<close> On the table: no row is lost, a living lease is
  exclusive, no row gets stuck, a cancelled timer never fires, the schema holds after every run, each
  message moves only as its life cycle allows and each of its deliveries is counted. In one process: the
  in-flight queue never overflows, a completed drain leaves nothing in memory, every reconnect backs off
  within its bounds and releases what it opened, no idle wait sleeps over a committed row. Around a handler:
  middlewares are left in reverse order, an exception reaches the retry strategy. For one dispatch: all or
  nothing, within its lease, reported truthfully and closed once. For a publish: what lands, what is
  returned and what is reported on every branch; every commit notifies its queues. The two clients agree
  wherever the table allows no difference. The checks and validators accept exactly what they should.

  \<^bold>\<open>Bounds and fuel.\<close> The only fuel is the nesting depth of \<open>sync_dispatch\<close> in \<open>Test_Broker\<close>; its property shows
  that a depth that grows with the queues' ranks is enough and that more changes nothing. All other
  recursions are structural. Python's ints are \<open>int\<close>, bytes are 8-bit words.

  \<^bold>\<open>What is not modelled.\<close> Floats are exact rationals (only the overflow of the power in \<open>ExponentialRetry\<close> is
  there). Log lines, help texts and stack levels are left out. Arguments of the model are: the locks of
  other transactions, the id sequence, the order of RETURNING, what \<open>random\<close> and the clocks return, what
  FastStream's encoder and middlewares do and the keys it gives AsyncAPI channels, what calls of the driver
  raise, what Postgres' catalogs and Alembic answer. In \<open>Subscriber_Loop\<close> a dispatch is one step at its end.
  What is handed to FastStream, FastAPI or the metric libraries unchanged (dependencies, parsers, loggers,
  tags, response models, help texts, buckets) is left out, and so are type aliases and re-exports.
\<close>

end
